(* ===== verification/Fileurl_Prelude.thy ===== *)
theory Fileurl_Prelude
  imports Main
    "HOL-Library.Char_ord" "HOL-Library.List_Lexorder" "HOL-Library.Product_Lexorder"
    "HOL-Library.AList" "HOL-Library.Word" "HOL-Library.Sublist" "HOL-Library.Code_Target_Numeral"
begin

text \<open>
  Shared vocabulary of the development: the names of the model's base types, the
  collections of rewrite rules the components fill, and the generic facts on lists,
  association lists and results that their proofs share.

  A Go string is a sequence of bytes and is modelled by \<^typ>\<open>string\<close> (a character is one
  byte). A Go \<open>time.Time\<close> is an instant, in nanoseconds since the Unix epoch. A Go pair
  \<open>(value, error)\<close> is a sum with the error on the left.
\<close>

type_synonym bytes = string
type_synonym time = int
type_synonym ('e, 'a) result = "'e + 'a"

named_theorems go_simps \<open>rewrite rules of the Go string, path and number library\<close>
named_theorems op_defs \<open>definitions of operations, for symbolic execution of one call\<close>
named_theorems inv_intros \<open>preservation of the component invariants\<close>

section \<open>Results\<close>

definition bind_res :: "('e, 'a) result \<Rightarrow> ('a \<Rightarrow> ('e, 'b) result) \<Rightarrow> ('e, 'b) result" where
  "bind_res r f = (case r of Inl e \<Rightarrow> Inl e | Inr x \<Rightarrow> f x)"

lemma bind_res_simps [simp]:
  "bind_res (Inl e) f = Inl e"
  "bind_res (Inr x) f = f x"
  by (simp_all add: bind_res_def)

lemma bind_res_Inr: "bind_res r f = Inr y \<longleftrightarrow> (\<exists>x. r = Inr x \<and> f x = Inr y)"
  by (cases r) simp_all

lemma bind_res_Inl: "bind_res r f = Inl e \<longleftrightarrow> r = Inl e \<or> (\<exists>x. r = Inr x \<and> f x = Inl e)"
  by (cases r) simp_all

text \<open>
  The early returns of a handler: a check that must hold, a value that must be there, an
  error that must be absent.
\<close>

definition ensure :: "bool \<Rightarrow> 'e \<Rightarrow> ('e, unit) result" where
  "ensure b e = (if b then Inr () else Inl e)"

definition need :: "'e \<Rightarrow> 'a option \<Rightarrow> ('e, 'a) result" where
  "need e x = (case x of None \<Rightarrow> Inl e | Some v \<Rightarrow> Inr v)"

definition clear :: "'e option \<Rightarrow> ('e, unit) result" where
  "clear x = (case x of None \<Rightarrow> Inr () | Some e \<Rightarrow> Inl e)"

definition map_err :: "('e \<Rightarrow> 'f) \<Rightarrow> ('e, 'a) result \<Rightarrow> ('f, 'a) result" where
  "map_err f r = (case r of Inl e \<Rightarrow> Inl (f e) | Inr x \<Rightarrow> Inr x)"

lemma early_return_Inr:
  "ensure b e = Inr u \<longleftrightarrow> b"
  "need e x = Inr v \<longleftrightarrow> x = Some v"
  "clear y = Inr u \<longleftrightarrow> y = None"
  "map_err f r = Inr w \<longleftrightarrow> r = Inr w"
  by (auto simp: ensure_def need_def clear_def map_err_def split: option.splits sum.splits)

lemma early_return_simps [simp]:
  "ensure True e = Inr ()" "ensure False e = Inl e"
  "need e None = Inl e" "need e (Some v) = Inr v"
  "clear None = Inr ()" "clear (Some e) = Inl e"
  "map_err f (Inl e') = Inl (f e')" "map_err f (Inr w) = Inr w"
  by (simp_all add: ensure_def need_def clear_def map_err_def)

text \<open>
  The errors of file-system calls, as far as the code tells them apart with
  \<open>os.IsNotExist\<close> and \<open>os.IsPermission\<close>.
\<close>

datatype ioerr = ENotExist | EPermission | EOther

definition IsNotExist :: "ioerr \<Rightarrow> bool" where
  "IsNotExist e = (e = ENotExist)"

definition IsPermission :: "ioerr \<Rightarrow> bool" where
  "IsPermission e = (e = EPermission)"

section \<open>Lists\<close>

lemma takeWhile_not_in: "c \<notin> set (takeWhile (\<lambda>x. x \<noteq> c) xs)"
  by (induction xs) auto

lemma takeWhile_neq_id: "c \<notin> set xs \<Longrightarrow> takeWhile (\<lambda>x. x \<noteq> c) xs = xs"
  by (induction xs) auto

lemma takeWhile_neq_append: "c \<notin> set xs \<Longrightarrow> takeWhile (\<lambda>x. x \<noteq> c) (xs @ c # ys) = xs"
  by (induction xs) auto

lemma dropWhile_neq_append: "c \<notin> set xs \<Longrightarrow> dropWhile (\<lambda>x. x \<noteq> c) (xs @ c # ys) = c # ys"
  by (induction xs) auto

lemma distinct_filter_unique:
  assumes "distinct xs" "x \<in> set xs" "\<And>y. y \<in> set xs \<Longrightarrow> P y \<longleftrightarrow> y = x"
  shows "filter P xs = [x]"
  using assms
proof (induction xs)
  case (Cons a xs)
  then show ?case
    by (cases "a = x") (auto simp: filter_empty_conv)
qed simp

section \<open>Association lists as Go maps\<close>

text \<open>
  A Go map whose entries the code enumerates is an association list with distinct keys;
  \<open>map_of\<close> reads it, \<open>AList.update\<close> and \<open>AList.delete\<close> write it.
\<close>

abbreviation keys_of :: "('k \<times> 'v) list \<Rightarrow> 'k list" where
  "keys_of al \<equiv> map fst al"

lemma map_of_update_if [simp]: "map_of (AList.update k v al) k' = (if k' = k then Some v else map_of al k')"
  by (simp add: update_conv')

lemma map_of_delete_if [simp]: "map_of (AList.delete k al) k' = (if k' = k then None else map_of al k')"
  by (simp add: delete_conv')

lemma distinct_keys_filter: "distinct (keys_of al) \<Longrightarrow> distinct (keys_of (filter P al))"
  by (induction al) auto

lemma map_of_filter_keys:
  assumes "distinct (keys_of al)"
  shows "map_of (filter P al) k = (case map_of al k of None \<Rightarrow> None
    | Some v \<Rightarrow> if P (k, v) then Some v else None)"
  using assms
proof (induction al)
  case (Cons a al)
  obtain k0 v0 where a: "a = (k0, v0)" by (cases a)
  have "map_of al k0 = None" using Cons.prems a by (simp add: map_of_eq_None_iff)
  then show ?case using Cons a by (auto split: option.splits)
qed simp

lemma distinct_sort_key_fst: "distinct (keys_of (sort_key fst al)) = distinct (keys_of al)"
  by (simp add: distinct_map)

lemma sort_key_fst_map_of:
  assumes "distinct (keys_of al)"
  shows "map_of (sort_key fst al) = map_of al"
proof
  fix k
  have "map_of (sort_key fst al) k = Some v \<longleftrightarrow> map_of al k = Some v" for v
    using assms distinct_sort_key_fst [of al] by (simp add: map_of_eq_Some_iff)
  then show "map_of (sort_key fst al) k = map_of al k" by (metis option.exhaust)
qed

end
