(* ===== verification/Go_Strings.thy ===== *)
theory Go_Strings
  imports Fileurl_Prelude
begin

text \<open>
  The parts of Go's standard library \<open>strings\<close>, \<open>strconv\<close> and \<open>unicode/utf8\<close> that the
  program calls, as functions on byte strings. An error of the number parser is
  \<^const>\<open>None\<close>.
\<close>

section \<open>Package strings\<close>

fun HasPrefix :: "string \<Rightarrow> string \<Rightarrow> bool" where
  "HasPrefix s [] = True"
| "HasPrefix [] (p # ps) = False"
| "HasPrefix (x # xs) (p # ps) = (x = p \<and> HasPrefix xs ps)"

definition TrimPrefix :: "string \<Rightarrow> string \<Rightarrow> string" where
  "TrimPrefix s p = (if HasPrefix s p then drop (length p) s else s)"

text \<open>\<open>strings.Split(s, sep)\<close> for a one-byte separator: at least one piece.\<close>

fun SplitByte :: "char \<Rightarrow> string \<Rightarrow> string list" where
  "SplitByte c [] = [[]]"
| "SplitByte c (x # xs) =
     (if x = c then [] # SplitByte c xs
      else (case SplitByte c xs of [] \<Rightarrow> [[x]] | y # ys \<Rightarrow> (x # y) # ys))"

fun Join :: "string list \<Rightarrow> string \<Rightarrow> string" where
  "Join [] sep = []"
| "Join [x] sep = x"
| "Join (x # y # ys) sep = x @ sep @ Join (y # ys) sep"

text \<open>\<open>strings.Cut(s, sep)\<close> for a one-byte separator: before, after, found.\<close>

definition CutByte :: "string \<Rightarrow> char \<Rightarrow> string \<times> string \<times> bool" where
  "CutByte s c = (takeWhile (\<lambda>x. x \<noteq> c) s, tl (dropWhile (\<lambda>x. x \<noteq> c) s), c \<in> set s)"

definition TrimRightByte :: "string \<Rightarrow> char \<Rightarrow> string" where
  "TrimRightByte s c = rev (dropWhile (\<lambda>x. x = c) (rev s))"

definition TrimByte :: "string \<Rightarrow> char \<Rightarrow> string" where
  "TrimByte s c = TrimRightByte (dropWhile (\<lambda>x. x = c) s) c"

section \<open>Package utf8\<close>

text \<open>
  \<open>utf8.DecodeRuneInString\<close>: the code point of the first rune and its width in bytes;
  an invalid or truncated sequence is the replacement character with width 1.
\<close>

definition RuneError :: nat where
  "RuneError = 65533"

definition in_range :: "nat \<Rightarrow> nat \<Rightarrow> char \<Rightarrow> bool" where
  "in_range lo hi c = (lo \<le> of_char c \<and> of_char c \<le> hi)"

definition DecodeRune :: "char \<Rightarrow> string \<Rightarrow> nat \<times> nat" where
  "DecodeRune c cs =
     (let b = of_char c :: nat in
      if b < 128 then (b, 1)
      else if 194 \<le> b \<and> b \<le> 223 then
        (case cs of
           c1 # _ \<Rightarrow>
             if in_range 128 191 c1 then ((b - 192) * 64 + (of_char c1 - 128), 2)
             else (RuneError, 1)
         | _ \<Rightarrow> (RuneError, 1))
      else if 224 \<le> b \<and> b \<le> 239 then
        (case cs of
           c1 # c2 # _ \<Rightarrow>
             if in_range (if b = 224 then 160 else 128) (if b = 237 then 159 else 191) c1
                \<and> in_range 128 191 c2
             then ((b - 224) * 4096 + (of_char c1 - 128) * 64 + (of_char c2 - 128), 3)
             else (RuneError, 1)
         | _ \<Rightarrow> (RuneError, 1))
      else if 240 \<le> b \<and> b \<le> 244 then
        (case cs of
           c1 # c2 # c3 # _ \<Rightarrow>
             if in_range (if b = 240 then 144 else 128) (if b = 244 then 143 else 191) c1
                \<and> in_range 128 191 c2 \<and> in_range 128 191 c3
             then ((b - 240) * 262144 + (of_char c1 - 128) * 4096
                   + (of_char c2 - 128) * 64 + (of_char c3 - 128), 4)
             else (RuneError, 1)
         | _ \<Rightarrow> (RuneError, 1))
      else (RuneError, 1))"

text \<open>A string as its runes, each with the bytes it was decoded from (\<open>range s\<close>).\<close>

fun runes :: "string \<Rightarrow> (nat \<times> string) list" where
  "runes [] = []"
| "runes (c # cs) =
     (let (r, w) = DecodeRune c cs
      in (r, c # take (w - 1) cs) # runes (drop (w - 1) cs))"

definition RuneCountInString :: "string \<Rightarrow> nat" where
  "RuneCountInString s = length (runes s)"

text \<open>\<open>unicode.IsSpace\<close>.\<close>

definition IsSpace :: "nat \<Rightarrow> bool" where
  "IsSpace r =
     (9 \<le> r \<and> r \<le> 13 \<or> r = 32 \<or> r = 133 \<or> r = 160 \<or> r = 5760 \<or> 8192 \<le> r \<and> r \<le> 8202
      \<or> r = 8232 \<or> r = 8233 \<or> r = 8239 \<or> r = 8287 \<or> r = 12288)"

definition TrimSpace :: "string \<Rightarrow> string" where
  "TrimSpace s =
     concat (map snd (rev (dropWhile (\<lambda>p. IsSpace (fst p))
       (rev (dropWhile (\<lambda>p. IsSpace (fst p)) (runes s))))))"

fun fields_runes :: "string \<Rightarrow> (nat \<times> string) list \<Rightarrow> string list" where
  "fields_runes acc [] = (if acc = [] then [] else [acc])"
| "fields_runes acc ((r, b) # rs) =
     (if IsSpace r then (if acc = [] then fields_runes [] rs else acc # fields_runes [] rs)
      else fields_runes (acc @ b) rs)"

definition Fields :: "string \<Rightarrow> string list" where
  "Fields s = fields_runes [] (runes s)"

section \<open>Package strconv\<close>

definition is_digit :: "char \<Rightarrow> bool" where
  "is_digit c = in_range 48 57 c"

fun digits_val :: "nat \<Rightarrow> string \<Rightarrow> nat" where
  "digits_val acc [] = acc"
| "digits_val acc (c # cs) = digits_val (10 * acc + (of_char c - 48)) cs"

definition ParseUDigits :: "string \<Rightarrow> nat option" where
  "ParseUDigits s = (if s = [] \<or> \<not> list_all is_digit s then None else Some (digits_val 0 s))"

text \<open>\<open>strconv.ParseInt(s, 10, 64)\<close>, and \<open>strconv.Atoi\<close> where \<open>int\<close> has 64 bits.\<close>

definition ParseInt64 :: "string \<Rightarrow> int option" where
  "ParseInt64 s =
     (case s of
        [] \<Rightarrow> None
      | c # cs \<Rightarrow>
          if c = CHR ''-'' then
            (case ParseUDigits cs of
               None \<Rightarrow> None
             | Some n \<Rightarrow> if n \<le> 2 ^ 63 then Some (- int n) else None)
          else
            (case ParseUDigits (if c = CHR ''+'' then cs else s) of
               None \<Rightarrow> None
             | Some n \<Rightarrow> if n < 2 ^ 63 then Some (int n) else None))"

abbreviation Atoi :: "string \<Rightarrow> int option" where
  "Atoi \<equiv> ParseInt64"

fun FormatNat :: "nat \<Rightarrow> string" where
  "FormatNat n = (if n < 10 then [char_of (n + 48)] else FormatNat (n div 10) @ [char_of (n mod 10 + 48)])"

declare FormatNat.simps [simp del]

definition FormatInt :: "int \<Rightarrow> string" where
  "FormatInt i = (if i < 0 then CHR ''-'' # FormatNat (nat (- i)) else FormatNat (nat i))"

abbreviation Itoa :: "int \<Rightarrow> string" where
  "Itoa \<equiv> FormatInt"

section \<open>Facts about the string functions\<close>

lemma HasPrefix_iff: "HasPrefix s p \<longleftrightarrow> (\<exists>t. s = p @ t)"
  by (induction s p rule: HasPrefix.induct) auto

lemma HasPrefix_append [simp, go_simps]: "HasPrefix (p @ s) p"
  by (auto simp: HasPrefix_iff)

lemma TrimPrefix_append [simp, go_simps]: "TrimPrefix (p @ s) p = s"
  by (simp add: TrimPrefix_def)

lemma SplitByte_nonempty [simp]: "SplitByte c s \<noteq> []"
  by (induction s) (auto split: list.splits)

lemma SplitByte_pieces: "p \<in> set (SplitByte c s) \<Longrightarrow> c \<notin> set p"
proof (induction s arbitrary: p)
  case (Cons x xs)
  then show ?case by (cases "SplitByte c xs") (auto split: if_splits)
qed simp

lemma SplitByte_no_sep [go_simps]: "c \<notin> set s \<Longrightarrow> SplitByte c s = [s]"
  by (induction s) auto

lemma SplitByte_append [go_simps]: "c \<notin> set a \<Longrightarrow> SplitByte c (a @ c # b) = a # SplitByte c b"
  by (induction a) auto

lemma SplitByte_length1: "length (SplitByte c s) = 1 \<longleftrightarrow> c \<notin> set s"
proof (induction s)
  case (Cons x xs)
  show ?case using Cons.IH
    by (cases "SplitByte c xs") auto
qed simp

lemma Join_SplitByte [simp, go_simps]: "Join (SplitByte c s) [c] = s"
proof (induction s)
  case (Cons x xs)
  obtain y ys where y: "SplitByte c xs = y # ys"
    by (meson SplitByte_nonempty neq_Nil_conv)
  have "Join ((x # y) # ys) [c] = x # Join (y # ys) [c]" by (cases ys) auto
  then show ?case using Cons y by auto
qed simp

lemma SplitByte_Join [go_simps]:
  "xs \<noteq> [] \<Longrightarrow> (\<And>x. x \<in> set xs \<Longrightarrow> c \<notin> set x) \<Longrightarrow> SplitByte c (Join xs [c]) = xs"
proof (induction xs "[c]" rule: Join.induct)
  case (3 x y ys)
  then have "SplitByte c (Join (y # ys) [c]) = y # ys" by simp
  then show ?case using 3 by (simp add: SplitByte_append)
qed (simp_all add: SplitByte_no_sep)

lemma Join_eq_Nil: "Join xs [c] = [] \<longleftrightarrow> xs = [] \<or> xs = [[]]"
  by (induction xs "[c]" rule: Join.induct) auto

lemma Join_append:
  "xs \<noteq> [] \<Longrightarrow> ys \<noteq> [] \<Longrightarrow> Join (xs @ ys) sep = Join xs sep @ sep @ Join ys sep"
proof (induction xs sep rule: Join.induct)
  case (2 x sep)
  then show ?case by (cases ys) auto
qed auto

lemma set_Join: "set (Join xs sep) \<subseteq> \<Union> (set ` set xs) \<union> set sep"
  by (induction xs sep rule: Join.induct) auto

lemma CutByte_append [go_simps]: "c \<notin> set a \<Longrightarrow> CutByte (a @ c # b) c = (a, b, True)"
  by (simp add: CutByte_def takeWhile_neq_append dropWhile_neq_append)

lemma CutByte_first: "fst (CutByte s c) = hd (SplitByte c s)"
proof (induction s)
  case (Cons x xs)
  then show ?case by (auto simp: CutByte_def split: list.splits)
qed (simp add: CutByte_def)

lemma TrimRightByte_no_suffix: "TrimRightByte s c = [] \<or> last (TrimRightByte s c) \<noteq> c"
proof -
  have "dropWhile (\<lambda>x. x = c) (rev s) = [] \<or> hd (dropWhile (\<lambda>x. x = c) (rev s)) \<noteq> c"
    using hd_dropWhile [of "\<lambda>x. x = c" "rev s"] by blast
  then show ?thesis by (auto simp: TrimRightByte_def last_rev)
qed

lemma TrimRightByte_id [go_simps]: "s = [] \<or> last s \<noteq> c \<Longrightarrow> TrimRightByte s c = s"
  by (cases s rule: rev_cases) (auto simp: TrimRightByte_def)

section \<open>Runes and white space\<close>

abbreviation ascii :: "string \<Rightarrow> bool" where
  "ascii s \<equiv> list_all (\<lambda>c. of_char c < (128::nat)) s"

text \<open>A byte that is neither white space nor part of a multi-byte rune.\<close>

definition plain_char :: "char \<Rightarrow> bool" where
  "plain_char c \<longleftrightarrow> of_char c < (128::nat) \<and> \<not> IsSpace (of_char c)"

lemma DecodeRune_ascii: "of_char c < (128::nat) \<Longrightarrow> DecodeRune c cs = (of_char c, 1)"
  by (simp add: DecodeRune_def)

lemma concat_runes [simp]: "concat (map snd (runes s)) = s"
  by (induction s rule: runes.induct) (auto split: prod.splits)

lemma runes_ascii_Cons: "of_char c < (128::nat) \<Longrightarrow> runes (c # cs) = (of_char c, [c]) # runes cs"
  by (simp add: DecodeRune_ascii)

lemma runes_ascii_append:
  "ascii s \<Longrightarrow> runes (s @ t) = map (\<lambda>c. (of_char c, [c])) s @ runes t"
  by (induction s) (simp_all add: runes_ascii_Cons del: runes.simps)

lemma runes_ascii: "ascii s \<Longrightarrow> runes s = map (\<lambda>c. (of_char c, [c])) s"
  using runes_ascii_append [of s "[]"] by simp

lemma RuneCount_ascii: "ascii s \<Longrightarrow> RuneCountInString s = length s"
  by (simp add: RuneCountInString_def runes_ascii)

lemma RuneCount_le_length: "RuneCountInString s \<le> length s"
  unfolding RuneCountInString_def
proof (induction s rule: runes.induct)
  case (2 c cs)
  obtain r w where rw: "DecodeRune c cs = (r, w)" by force
  have "length (runes (drop (w - 1) cs)) \<le> length (drop (w - 1) cs)"
    using "2.IH" [OF rw [symmetric] refl] .
  then show ?case using rw by simp
qed simp

lemma plain_ascii: "list_all plain_char s \<Longrightarrow> ascii s"
  by (induction s) (auto simp: plain_char_def)

lemma concat_map_singleton [simp]: "concat (map (\<lambda>c. [c]) s) = s"
  by (induction s) auto

lemma dropWhile_none: "(\<And>x. x \<in> set xs \<Longrightarrow> \<not> P x) \<Longrightarrow> dropWhile P xs = xs"
  by (cases xs) auto

lemma TrimSpace_plain [go_simps]: "list_all plain_char s \<Longrightarrow> TrimSpace s = s"
proof -
  assume p: "list_all plain_char s"
  let ?rs = "map (\<lambda>c. (of_char c :: nat, [c])) s"
  have "\<not> IsSpace (fst x)" if "x \<in> set ?rs" for x
    using that p by (auto simp: list_all_iff plain_char_def)
  then have "dropWhile (\<lambda>p. IsSpace (fst p)) ?rs = ?rs"
    "dropWhile (\<lambda>p. IsSpace (fst p)) (rev ?rs) = rev ?rs"
    by (auto intro!: dropWhile_none simp del: set_map)
  then show ?thesis
    by (simp add: TrimSpace_def runes_ascii [OF plain_ascii [OF p]] comp_def)
qed

lemma fields_plain:
  "list_all plain_char s \<Longrightarrow> fields_runes acc (map (\<lambda>c. (of_char c, [c])) s @ rs) = fields_runes (acc @ s) rs"
  by (induction s arbitrary: acc) (auto simp: plain_char_def)

lemma Fields_two [go_simps]:
  assumes "list_all plain_char a" "list_all plain_char b" "a \<noteq> []" "b \<noteq> []"
  shows "Fields (a @ '' '' @ b) = [a, b]"
proof -
  have "runes (a @ '' '' @ b) = map (\<lambda>c. (of_char c, [c])) a @ (32, '' '') # map (\<lambda>c. (of_char c, [c])) b @ []"
    using runes_ascii_append [OF plain_ascii [OF assms(1)], of "'' '' @ b"]
      runes_ascii [OF plain_ascii [OF assms(2)]] by (simp add: DecodeRune_ascii)
  then show ?thesis
    using assms fields_plain [of b "[]" "[]"]
    by (simp add: Fields_def fields_plain IsSpace_def)
qed

lemma fields_runes_nonempty: "f \<in> set (fields_runes acc rs) \<Longrightarrow> (\<forall>p\<in>set rs. snd p \<noteq> []) \<Longrightarrow> f \<noteq> []"
  by (induction acc rs rule: fields_runes.induct) (auto split: if_splits)

lemma runes_chunk_nonempty: "p \<in> set (runes s) \<Longrightarrow> snd p \<noteq> []"
  by (induction s arbitrary: p rule: runes.induct) (auto split: prod.splits)

lemma Fields_nonempty: "f \<in> set (Fields s) \<Longrightarrow> f \<noteq> []"
  unfolding Fields_def using fields_runes_nonempty runes_chunk_nonempty by blast

section \<open>Numbers\<close>

lemma of_char_digit: "d < 10 \<Longrightarrow> of_char (char_of (d + 48 :: nat) :: char) = d + 48"
  by simp

lemma digits_val_append: "digits_val a (s @ t) = digits_val (digits_val a s) t"
  by (induction a s rule: digits_val.induct) auto

lemma FormatNat_digits: "FormatNat n \<noteq> [] \<and> list_all is_digit (FormatNat n)"
proof (induction n rule: FormatNat.induct)
  case (1 n)
  show ?case
  proof (cases "n < 10")
    case True
    then show ?thesis by (simp add: FormatNat.simps [of n] is_digit_def in_range_def)
  next
    case False
    moreover have "n mod 10 < 10" by simp
    ultimately show ?thesis using "1.IH"
      by (simp add: FormatNat.simps [of n] is_digit_def in_range_def)
  qed
qed

lemma digits_val_FormatNat: "digits_val 0 (FormatNat n) = n"
proof (induction n rule: FormatNat.induct)
  case (1 n)
  show ?case
  proof (cases "n < 10")
    case True
    then show ?thesis by (simp add: FormatNat.simps [of n])
  next
    case False
    have "n mod 10 < 10" by simp
    then show ?thesis using "1.IH" False
      by (simp add: FormatNat.simps [of n] digits_val_append)
  qed
qed

lemma ParseUDigits_FormatNat [simp]: "ParseUDigits (FormatNat n) = Some n"
  by (simp add: ParseUDigits_def FormatNat_digits digits_val_FormatNat)

lemma FormatNat_head: "\<exists>c cs. FormatNat n = c # cs \<and> is_digit c"
  using FormatNat_digits [of n] by (cases "FormatNat n") auto

lemma ParseInt64_FormatInt [go_simps]:
  assumes "- (2 ^ 63) \<le> i" "i < 2 ^ 63"
  shows "ParseInt64 (FormatInt i) = Some i"
proof (cases "i < 0")
  case True
  have "nat (- i) \<le> 2 ^ 63" using assms True by (simp add: nat_le_iff)
  then show ?thesis using True by (simp add: ParseInt64_def FormatInt_def)
next
  case False
  obtain c cs where c: "FormatNat (nat i) = c # cs" "is_digit c" using FormatNat_head by blast
  have "c \<noteq> CHR ''-''" "c \<noteq> CHR ''+''" using c(2) by (auto simp: is_digit_def in_range_def)
  moreover have "nat i < 2 ^ 63" using assms False by (simp add: nat_less_iff)
  moreover have "ParseUDigits (c # cs) = Some (nat i)" using c by (metis ParseUDigits_FormatNat)
  ultimately show ?thesis using False c by (simp add: ParseInt64_def FormatInt_def)
qed

lemma FormatInt_chars: "c \<in> set (FormatInt i) \<Longrightarrow> c = CHR ''-'' \<or> is_digit c"
  using FormatNat_digits [of "nat (- i)"] FormatNat_digits [of "nat i"]
  by (auto simp: FormatInt_def list_all_iff split: if_splits)

lemma FormatInt_no_dot: "CHR ''.'' \<notin> set (FormatInt i)"
  using FormatInt_chars by (fastforce simp: is_digit_def in_range_def)

lemma ParseInt64_range: "ParseInt64 s = Some i \<Longrightarrow> - (2 ^ 63) \<le> i \<and> i < 2 ^ 63"
  by (auto simp: ParseInt64_def split: list.splits option.splits if_splits)

end
