(* ===== verification/Go_Base64.thy ===== *)
theory Go_Base64
  imports Go_Strings
begin

text \<open>
  Go's \<open>encoding/base64\<close>: \<open>StdEncoding\<close> (padded, \<open>+/\<close>) and \<open>RawURLEncoding\<close> (unpadded,
  \<open>-_\<close>), and \<open>encoding/binary\<close>'s big-endian \<open>uint32\<close>. The decoder skips line breaks
  anywhere, refuses any other character outside the alphabet, refuses data after the
  padding, and (the encodings are not \<open>Strict\<close>) ignores the unused low bits of the last
  character. The interface the callers rely on is the locale \<open>text_codec\<close>.
\<close>

section \<open>Alphabets\<close>

definition std_alphabet :: string where
  "std_alphabet = ''ABCDEFGHIJKLMNOPQRSTUVWXYZabcdefghijklmnopqrstuvwxyz0123456789+/''"

definition url_alphabet :: string where
  "url_alphabet = ''ABCDEFGHIJKLMNOPQRSTUVWXYZabcdefghijklmnopqrstuvwxyz0123456789-_''"

fun index_of :: "string \<Rightarrow> char \<Rightarrow> nat option" where
  "index_of [] c = None"
| "index_of (x # xs) c = (if x = c then Some 0 else map_option Suc (index_of xs c))"

section \<open>Encoding\<close>

definition enc_char :: "string \<Rightarrow> nat \<Rightarrow> char" where
  "enc_char al n = al ! (n mod 64)"

fun b64_encode :: "string \<Rightarrow> bool \<Rightarrow> string \<Rightarrow> string" where
  "b64_encode al padded [] = []"
| "b64_encode al padded [a] =
     (let v = of_char a * 65536 :: nat
      in [enc_char al (v div 262144), enc_char al (v div 4096)]
         @ (if padded then ''=='' else []))"
| "b64_encode al padded [a, b] =
     (let v = of_char a * 65536 + of_char b * 256 :: nat
      in [enc_char al (v div 262144), enc_char al (v div 4096), enc_char al (v div 64)]
         @ (if padded then ''='' else []))"
| "b64_encode al padded (a # b # c # rest) =
     (let v = of_char a * 65536 + of_char b * 256 + of_char c :: nat
      in [enc_char al (v div 262144), enc_char al (v div 4096), enc_char al (v div 64),
          enc_char al v] @ b64_encode al padded rest)"

section \<open>Decoding\<close>

definition quantum :: "string \<Rightarrow> char list \<Rightarrow> nat \<Rightarrow> string option" where
  "quantum al cs n =
     (case those (map (index_of al) cs) of
        None \<Rightarrow> None
      | Some ds \<Rightarrow>
          let v = foldl (\<lambda>acc d. acc * 64 + d) 0 (ds @ replicate (4 - length ds) 0)
          in Some (take n [char_of (v div 65536), char_of (v div 256), char_of v]))"

fun b64_quanta :: "string \<Rightarrow> bool \<Rightarrow> string \<Rightarrow> string option" where
  "b64_quanta al padded [] = Some []"
| "b64_quanta al padded (a # b # c # d # rest) =
     (if padded \<and> c = CHR ''='' \<and> d = CHR ''=''
      then (if rest = [] then quantum al [a, b] 1 else None)
      else if padded \<and> d = CHR ''=''
      then (if rest = [] then quantum al [a, b, c] 2 else None)
      else (case quantum al [a, b, c, d] 3 of
              None \<Rightarrow> None
            | Some bs \<Rightarrow> map_option (\<lambda>r. bs @ r) (b64_quanta al padded rest)))"
| "b64_quanta al padded [a, b, c] = (if padded then None else quantum al [a, b, c] 2)"
| "b64_quanta al padded [a, b] = (if padded then None else quantum al [a, b] 1)"
| "b64_quanta al padded [a] = None"

definition b64_decode :: "string \<Rightarrow> bool \<Rightarrow> string \<Rightarrow> string option" where
  "b64_decode al padded s =
     b64_quanta al padded (filter (\<lambda>c. c \<noteq> CHR 0x0A \<and> c \<noteq> CHR 0x0D) s)"

definition StdEncode :: "string \<Rightarrow> string" where
  "StdEncode s = b64_encode std_alphabet True s"

definition StdDecode :: "string \<Rightarrow> string option" where
  "StdDecode s = b64_decode std_alphabet True s"

definition RawURLEncode :: "string \<Rightarrow> string" where
  "RawURLEncode s = b64_encode url_alphabet False s"

definition RawURLDecode :: "string \<Rightarrow> string option" where
  "RawURLDecode s = b64_decode url_alphabet False s"

text \<open>\<open>binary.BigEndian.Uint32\<close> of the first four bytes.\<close>

definition be_uint32 :: "string \<Rightarrow> 32 word" where
  "be_uint32 b =
     of_nat (of_char (b ! 0) * 16777216 + of_char (b ! 1) * 65536
             + of_char (b ! 2) * 256 + of_char (b ! 3))"

section \<open>The alphabets are bijections on six-bit digits\<close>

definition good_alphabet :: "string \<Rightarrow> bool" where
  "good_alphabet al \<longleftrightarrow> length al = 64 \<and> distinct al
     \<and> CHR 0x0A \<notin> set al \<and> CHR 0x0D \<notin> set al \<and> CHR ''='' \<notin> set al"

lemma std_alphabet_good: "good_alphabet std_alphabet"
  by (simp add: good_alphabet_def std_alphabet_def)

lemma url_alphabet_good: "good_alphabet url_alphabet"
  by (simp add: good_alphabet_def url_alphabet_def)

lemma index_of_nth: "distinct al \<Longrightarrow> n < length al \<Longrightarrow> index_of al (al ! n) = Some n"
proof (induction al arbitrary: n)
  case (Cons x xs)
  then show ?case by (cases n) auto
qed simp

lemma index_of_enc:
  "good_alphabet al \<Longrightarrow> index_of al (enc_char al n) = Some (n mod 64)"
  by (simp add: good_alphabet_def enc_char_def index_of_nth)

lemma enc_char_in: "good_alphabet al \<Longrightarrow> enc_char al n \<in> set al"
  by (simp add: good_alphabet_def enc_char_def)

lemma index_of_None: "index_of al c = None \<longleftrightarrow> c \<notin> set al"
  by (induction al) auto

lemma b64_encode_chars:
  assumes "good_alphabet al"
  shows "set (b64_encode al padded s) \<subseteq> set al \<union> (if padded then {CHR ''=''} else {})"
  using assms
  by (induction al padded s rule: b64_encode.induct) (auto simp: Let_def enc_char_in)

section \<open>Round trip\<close>

lemma of_char_lt [simp]: "of_char (c::char) < (256::nat)"
  using of_char_mod_256 [of c, where ?'a = nat] by (metis mod_less_divisor zero_less_numeral)

lemma char_of_mod: "n mod 256 = of_char c \<Longrightarrow> char_of (n::nat) = c"
  by (metis char_of_mod_256 char_of_char)

lemma sextets3:
  fixes a b c :: nat
  assumes "b < 256" "c < 256"
  shows "(a * 65536 + b * 256 + c) div 65536 = a" (is ?P1)
    and "(a * 65536 + b * 256 + c) div 256 mod 256 = b" (is ?P2)
    and "(a * 65536 + b * 256 + c) mod 256 = c" (is ?P3)
proof -
  have r: "b * 256 + c < 65536" using assms by simp
  have "(a * 65536 + b * 256 + c) div 65536 = a + (b * 256 + c) div 65536"
    using div_mult_self1 [of 65536 "b * 256 + c" a] by (simp add: add.assoc add.commute)
  then show ?P1 using r by simp
  have e: "a * 65536 + b * 256 + c = (a * 256 + b) * 256 + c" by simp
  have "((a * 256 + b) * 256 + c) div 256 = a * 256 + b" using assms by simp
  then show ?P2 using assms by (simp only: e) simp
  have "((a * 256 + b) * 256 + c) mod 256 = c" using assms(2) by (metis mod_less mod_mult_self3)
  then show ?P3 by (simp only: e)
qed

lemma resum4:
  fixes v :: nat
  assumes "v < 16777216"
  shows "((v div 262144 mod 64 * 64 + v div 4096 mod 64) * 64 + v div 64 mod 64) * 64 + v mod 64 = v"
proof -
  have d1: "v div 262144 = v div 4096 div 64" by (simp add: div_mult2_eq [symmetric])
  have d2: "v div 4096 = v div 64 div 64" by (simp add: div_mult2_eq [symmetric])
  have "v div 262144 < 64" using assms by (simp add: div_less_iff_less_mult)
  then have "v div 262144 mod 64 * 64 + v div 4096 mod 64 = v div 4096"
    by (metis d1 div_mult_mod_eq mod_less)
  then show ?thesis by (metis d2 div_mult_mod_eq)
qed

lemma top_sextet: "(v::nat) < 16777216 \<Longrightarrow> v div 262144 mod 64 = v div 262144"
  by (simp add: div_less_iff_less_mult)

lemma quantum_val:
  assumes "those (map (index_of al) cs) = Some ds"
    and "foldl (\<lambda>acc d. acc * 64 + d) 0 (ds @ replicate (4 - length ds) 0) = v"
  shows "quantum al cs n = Some (take n [char_of (v div 65536), char_of (v div 256), char_of v])"
  using assms by (simp add: quantum_def)

lemma quantum_enc4:
  assumes "good_alphabet al" "v < 16777216"
  shows "quantum al [enc_char al (v div 262144), enc_char al (v div 4096), enc_char al (v div 64),
           enc_char al v] n = Some (take n [char_of (v div 65536), char_of (v div 256), char_of v])"
  by (rule quantum_val [where ds = "[v div 262144 mod 64, v div 4096 mod 64, v div 64 mod 64, v mod 64]"])
    (use resum4 [OF assms(2)] in \<open>simp_all add: index_of_enc [OF assms(1)] top_sextet [OF assms(2)]\<close>)

lemma quantum_enc3:
  assumes "good_alphabet al" "v < 16777216" "v mod 64 = 0"
  shows "quantum al [enc_char al (v div 262144), enc_char al (v div 4096), enc_char al (v div 64)] n
           = Some (take n [char_of (v div 65536), char_of (v div 256), char_of v])"
  by (rule quantum_val [where ds = "[v div 262144 mod 64, v div 4096 mod 64, v div 64 mod 64]"])
    (use resum4 [OF assms(2)] assms(3) in \<open>simp_all add: index_of_enc [OF assms(1)] top_sextet [OF assms(2)]\<close>)

lemma quantum_enc2:
  assumes "good_alphabet al" "v < 16777216" "v mod 64 = 0" "v div 64 mod 64 = 0"
  shows "quantum al [enc_char al (v div 262144), enc_char al (v div 4096)] n
           = Some (take n [char_of (v div 65536), char_of (v div 256), char_of v])"
  by (rule quantum_val [where ds = "[v div 262144 mod 64, v div 4096 mod 64]"])
    (use resum4 [OF assms(2)] assms(3,4) in
      \<open>simp_all add: index_of_enc [OF assms(1)] top_sextet [OF assms(2)] numeral_2_eq_2\<close>)

lemma enc_char_not_pad: "good_alphabet al \<Longrightarrow> enc_char al n \<noteq> CHR ''=''"
  using enc_char_in [of al n] by (auto simp: good_alphabet_def)

lemma bytes3:
  fixes a b c :: char
  defines "v \<equiv> of_char a * 65536 + of_char b * 256 + of_char c :: nat"
  shows "v < 16777216" "char_of (v div 65536) = a" "char_of (v div 256) = b" "char_of v = c"
proof -
  have lt: "of_char a < (256::nat)" "of_char b < (256::nat)" "of_char c < (256::nat)" by simp_all
  then show "v < 16777216" unfolding v_def by linarith
  show "char_of (v div 65536) = a" unfolding v_def by (simp add: sextets3(1))
  show "char_of (v div 256) = b" unfolding v_def by (rule char_of_mod) (simp add: sextets3(2))
  show "char_of v = c" unfolding v_def by (rule char_of_mod) (simp add: sextets3(3))
qed

lemma b64_quanta_encode:
  assumes "good_alphabet al"
  shows "b64_quanta al padded (b64_encode al padded s) = Some s"
  using assms
proof (induction al padded s rule: b64_encode.induct)
  case (2 al padded a)
  let ?v = "of_char a * 65536 :: nat"
  have v: "?v < 16777216" "?v mod 64 = 0" "?v div 64 mod 64 = 0" "char_of (?v div 65536) = a"
    using bytes3 [of a "CHR 0x00" "CHR 0x00"] by auto
  show ?case using quantum_enc2 [OF 2 v(1-3), of 1] v(4) by (simp add: Let_def)
next
  case (3 al padded a b)
  let ?v = "of_char a * 65536 + of_char b * 256 :: nat"
  have v: "?v < 16777216" "?v mod 64 = 0" "char_of (?v div 65536) = a" "char_of (?v div 256) = b"
    using bytes3 [of a b "CHR 0x00"] by auto
  show ?case using quantum_enc3 [OF 3 v(1-2), of 2] v(3-4) 3
    by (simp add: Let_def enc_char_not_pad)
next
  case (4 al padded a b c rest)
  let ?v = "of_char a * 65536 + of_char b * 256 + of_char c :: nat"
  note v = bytes3 [of a b c]
  have IH: "b64_quanta al padded (b64_encode al padded rest) = Some rest" using 4 by simp
  show ?case using quantum_enc4 [OF "4.prems" v(1), of 3] v(2-4) 4 IH
    by (simp add: Let_def enc_char_not_pad)
qed simp

lemma b64_decode_encode:
  assumes "good_alphabet al"
  shows "b64_decode al padded (b64_encode al padded s) = Some s"
proof -
  have "CHR 0x0A \<notin> set (b64_encode al padded s)" "CHR 0x0D \<notin> set (b64_encode al padded s)"
    using b64_encode_chars [OF assms, of padded s] assms by (auto simp: good_alphabet_def split: if_splits)
  then have "filter (\<lambda>c. c \<noteq> CHR 0x0A \<and> c \<noteq> CHR 0x0D) (b64_encode al padded s) = b64_encode al padded s"
    by (auto intro!: filter_True)
  then show ?thesis using b64_quanta_encode [OF assms] by (simp add: b64_decode_def)
qed

lemma b64_encode_length_raw:
  "length (b64_encode al False s) = (4 * length s + 2) div 3"
  by (induction al False s rule: b64_encode.induct) (auto simp: Let_def)

section \<open>The codec interface\<close>

text \<open>
  What a caller relies on: encoding can be undone, and the encoded text avoids a set of
  characters the caller uses as separators.
\<close>

locale text_codec =
  fixes enc :: "string \<Rightarrow> string" and dec :: "string \<Rightarrow> string option" and alphabet :: "char set"
  assumes dec_enc: "dec (enc s) = Some s"
    and enc_alphabet: "set (enc s) \<subseteq> alphabet"
begin

lemma enc_inj: "enc s = enc t \<longleftrightarrow> s = t"
  by (metis dec_enc option.inject)

lemma enc_avoids: "c \<notin> alphabet \<Longrightarrow> c \<notin> set (enc s)"
  using enc_alphabet by blast

text \<open>Two encoded parts joined by a separator outside the alphabet split back uniquely.\<close>

lemma split_two:
  assumes "sep \<notin> alphabet"
  shows "SplitByte sep (enc s @ sep # enc t) = [enc s, enc t]"
  using assms by (simp add: SplitByte_append SplitByte_no_sep enc_avoids)

end

interpretation std64: text_codec StdEncode StdDecode "set std_alphabet \<union> {CHR ''=''}"
proof unfold_locales
  show "StdDecode (StdEncode s) = Some s" for s
    by (simp add: StdDecode_def StdEncode_def b64_decode_encode std_alphabet_good)
  show "set (StdEncode s) \<subseteq> set std_alphabet \<union> {CHR ''=''}" for s
    using b64_encode_chars [OF std_alphabet_good, of True s] by (simp add: StdEncode_def)
qed

interpretation url64: text_codec RawURLEncode RawURLDecode "set url_alphabet"
proof unfold_locales
  show "RawURLDecode (RawURLEncode s) = Some s" for s
    by (simp add: RawURLDecode_def RawURLEncode_def b64_decode_encode url_alphabet_good)
  show "set (RawURLEncode s) \<subseteq> set url_alphabet" for s
    using b64_encode_chars [OF url_alphabet_good, of False s] by (simp add: RawURLEncode_def)
qed

lemma dot_not_url: "CHR ''.'' \<notin> set url_alphabet"
  by (simp add: url_alphabet_def)

lemma RawURLEncode_length: "length (RawURLEncode s) = (4 * length s + 2) div 3"
  by (simp add: RawURLEncode_def b64_encode_length_raw)

end
