(* ===== verification/Go_Digest.thy ===== *)
theory Go_Digest
  imports Go_Base64
begin

unbundle bit_operations_syntax

text \<open>
  The digests the program takes from Go's standard library: \<open>crypto/md5\<close> (RFC 1321),
  \<open>crypto/sha256\<close> (FIPS 180-4), \<open>crypto/hmac\<close> over SHA-256 (RFC 2104), and the lower-case
  hexadecimal form of \<open>fmt.Sprintf("%x", ...)\<close>. A digest has a fixed length; the locale
  \<open>fixed_digest\<close> states what follows for its hexadecimal form.
\<close>

section \<open>Bytes and words\<close>

abbreviation byte_word :: "char \<Rightarrow> 32 word" where
  "byte_word c \<equiv> of_nat (of_char c)"

definition be_word :: "string \<Rightarrow> 32 word" where
  "be_word bs = foldl (\<lambda>acc c. push_bit 8 acc OR byte_word c) 0 bs"

definition le_word :: "string \<Rightarrow> 32 word" where
  "le_word bs = be_word (rev bs)"

definition word_byte :: "nat \<Rightarrow> 32 word \<Rightarrow> char" where
  "word_byte i w = char_of (uint (take_bit 8 (drop_bit (8 * i) w)))"

definition be_bytes :: "32 word \<Rightarrow> string" where
  "be_bytes w = [word_byte 3 w, word_byte 2 w, word_byte 1 w, word_byte 0 w]"

definition le_bytes :: "32 word \<Rightarrow> string" where
  "le_bytes w = [word_byte 0 w, word_byte 1 w, word_byte 2 w, word_byte 3 w]"

fun chunks_of :: "nat \<Rightarrow> 'a list \<Rightarrow> 'a list list" where
  "chunks_of n xs = (if n = 0 \<or> xs = [] then [] else take n xs # chunks_of n (drop n xs))"

declare chunks_of.simps [simp del]

text \<open>The common padding: one bit, zeros up to 56 modulo 64 bytes, then the bit length.\<close>

definition pad_zeros :: "nat \<Rightarrow> nat" where
  "pad_zeros n = (119 - n mod 64) mod 64"

definition length_bytes :: "nat \<Rightarrow> string" where
  "length_bytes n = map (\<lambda>i. char_of (n div 256 ^ i mod 256)) [0..<8]"

definition pad_message :: "(string \<Rightarrow> string) \<Rightarrow> string \<Rightarrow> string" where
  "pad_message order m =
     m @ [CHR 0x80] @ replicate (pad_zeros (length m)) (CHR 0x00)
       @ order (length_bytes (8 * length m))"

section \<open>SHA-256\<close>

type_synonym sha_state =
  "32 word \<times> 32 word \<times> 32 word \<times> 32 word \<times> 32 word \<times> 32 word \<times> 32 word \<times> 32 word"

definition sha256_K :: "32 word list" where
  "sha256_K =
     [1116352408, 1899447441, 3049323471, 3921009573, 961987163, 1508970993, 2453635748,
      2870763221, 3624381080, 310598401, 607225278, 1426881987, 1925078388, 2162078206,
      2614888103, 3248222580, 3835390401, 4022224774, 264347078, 604807628, 770255983,
      1249150122, 1555081692, 1996064986, 2554220882, 2821834349, 2952996808, 3210313671,
      3336571891, 3584528711, 113926993, 338241895, 666307205, 773529912, 1294757372,
      1396182291, 1695183700, 1986661051, 2177026350, 2456956037, 2730485921, 2820302411,
      3259730800, 3345764771, 3516065817, 3600352804, 4094571909, 275423344, 430227734,
      506948616, 659060556, 883997877, 958139571, 1322822218, 1537002063, 1747873779,
      1955562222, 2024104815, 2227730452, 2361852424, 2428436474, 2756734187, 3204031479,
      3329325298]"

definition sha256_init :: sha_state where
  "sha256_init =
     (0x6a09e667, 0xbb67ae85, 0x3c6ef372, 0xa54ff53a, 0x510e527f, 0x9b05688c,
      0x1f83d9ab, 0x5be0cd19)"

text \<open>The message schedule, newest word first: 48 words are added to the block's 16.\<close>

fun sha256_schedule :: "nat \<Rightarrow> 32 word list \<Rightarrow> 32 word list" where
  "sha256_schedule 0 ws = ws"
| "sha256_schedule (Suc n) ws =
     (let s0 = (let x = ws ! 14 in word_rotr 7 x XOR word_rotr 18 x XOR drop_bit 3 x);
          s1 = (let x = ws ! 1 in word_rotr 17 x XOR word_rotr 19 x XOR drop_bit 10 x)
      in sha256_schedule n ((s1 + ws ! 6 + s0 + ws ! 15) # ws))"

fun sha256_round :: "sha_state \<Rightarrow> 32 word \<times> 32 word \<Rightarrow> sha_state" where
  "sha256_round (a, b, c, d, e, f, g, h) (k, w) =
     (let S1 = word_rotr 6 e XOR word_rotr 11 e XOR word_rotr 25 e;
          ch = (e AND f) XOR (NOT e AND g);
          t1 = h + S1 + ch + k + w;
          S0 = word_rotr 2 a XOR word_rotr 13 a XOR word_rotr 22 a;
          maj = (a AND b) XOR (a AND c) XOR (b AND c);
          t2 = S0 + maj
      in (t1 + t2, a, b, c, d + t1, e, f, g))"

fun sha_add :: "sha_state \<Rightarrow> sha_state \<Rightarrow> sha_state" where
  "sha_add (a, b, c, d, e, f, g, h) (a', b', c', d', e', f', g', h') =
     (a + a', b + b', c + c', d + d', e + e', f + f', g + g', h + h')"

definition sha256_block :: "sha_state \<Rightarrow> string \<Rightarrow> sha_state" where
  "sha256_block st block =
     (let ws = rev (sha256_schedule 48 (rev (map be_word (chunks_of 4 block))))
      in sha_add st (foldl sha256_round st (zip sha256_K ws)))"

fun sha_bytes :: "sha_state \<Rightarrow> string" where
  "sha_bytes (a, b, c, d, e, f, g, h) = concat (map be_bytes [a, b, c, d, e, f, g, h])"

definition Sum256 :: "string \<Rightarrow> string" where
  "Sum256 m = sha_bytes (foldl sha256_block sha256_init (chunks_of 64 (pad_message rev m)))"

section \<open>MD5\<close>

type_synonym md5_state = "32 word \<times> 32 word \<times> 32 word \<times> 32 word"

definition md5_T :: "32 word list" where
  "md5_T =
     [3614090360, 3905402710, 606105819, 3250441966, 4118548399, 1200080426, 2821735955,
      4249261313, 1770035416, 2336552879, 4294925233, 2304563134, 1804603682, 4254626195,
      2792965006, 1236535329, 4129170786, 3225465664, 643717713, 3921069994, 3593408605,
      38016083, 3634488961, 3889429448, 568446438, 3275163606, 4107603335, 1163531501,
      2850285829, 4243563512, 1735328473, 2368359562, 4294588738, 2272392833, 1839030562,
      4259657740, 2763975236, 1272893353, 4139469664, 3200236656, 681279174, 3936430074,
      3572445317, 76029189, 3654602809, 3873151461, 530742520, 3299628645, 4096336452,
      1126891415, 2878612391, 4237533241, 1700485571, 2399980690, 4293915773, 2240044497,
      1873313359, 4264355552, 2734768916, 1309151649, 4149444226, 3174756917, 718787259,
      3951481745]"

definition md5_init :: md5_state where
  "md5_init = (0x67452301, 0xefcdab89, 0x98badcfe, 0x10325476)"

definition md5_shift :: "nat \<Rightarrow> nat" where
  "md5_shift i =
     (if i < 16 then [7, 12, 17, 22] else if i < 32 then [5, 9, 14, 20]
      else if i < 48 then [4, 11, 16, 23] else [6, 10, 15, 21]) ! (i mod 4)"

definition md5_index :: "nat \<Rightarrow> nat" where
  "md5_index i =
     (if i < 16 then i else if i < 32 then (5 * i + 1) mod 16
      else if i < 48 then (3 * i + 5) mod 16 else (7 * i) mod 16)"

definition md5_mix :: "nat \<Rightarrow> 32 word \<Rightarrow> 32 word \<Rightarrow> 32 word \<Rightarrow> 32 word" where
  "md5_mix i b c d =
     (if i < 16 then (b AND c) OR (NOT b AND d)
      else if i < 32 then (d AND b) OR (NOT d AND c)
      else if i < 48 then b XOR c XOR d
      else c XOR (b OR NOT d))"

fun md5_step :: "32 word list \<Rightarrow> md5_state \<Rightarrow> nat \<Rightarrow> md5_state" where
  "md5_step ws (a, b, c, d) i =
     (let f = md5_mix i b c d + a + md5_T ! i + ws ! md5_index i
      in (d, b + word_rotl (md5_shift i) f, b, c))"

fun md5_add :: "md5_state \<Rightarrow> md5_state \<Rightarrow> md5_state" where
  "md5_add (a, b, c, d) (a', b', c', d') = (a + a', b + b', c + c', d + d')"

definition md5_block :: "md5_state \<Rightarrow> string \<Rightarrow> md5_state" where
  "md5_block st block =
     md5_add st (foldl (md5_step (map le_word (chunks_of 4 block))) st [0..<64])"

fun md5_bytes :: "md5_state \<Rightarrow> string" where
  "md5_bytes (a, b, c, d) = concat (map le_bytes [a, b, c, d])"

definition MD5_Sum :: "string \<Rightarrow> string" where
  "MD5_Sum m = md5_bytes (foldl md5_block md5_init (chunks_of 64 (pad_message id m)))"

section \<open>HMAC-SHA256\<close>

definition xor_byte :: "nat \<Rightarrow> char \<Rightarrow> char" where
  "xor_byte k c = char_of (k XOR of_char c)"

definition hmac_key :: "string \<Rightarrow> string" where
  "hmac_key key =
     (let k = (if length key > 64 then Sum256 key else key)
      in k @ replicate (64 - length k) (CHR 0x00))"

definition HMAC_SHA256 :: "string \<Rightarrow> string \<Rightarrow> string" where
  "HMAC_SHA256 key msg =
     (let k = hmac_key key
      in Sum256 (map (xor_byte 92) k @ Sum256 (map (xor_byte 54) k @ msg)))"

section \<open>Hexadecimal form\<close>

definition hex_digit :: "nat \<Rightarrow> char" where
  "hex_digit n = ''0123456789abcdef'' ! n"

definition hex :: "string \<Rightarrow> string" where
  "hex bs = concat (map (\<lambda>c. [hex_digit (of_char c div 16), hex_digit (of_char c mod 16)]) bs)"

definition is_lower_hex :: "char \<Rightarrow> bool" where
  "is_lower_hex c = (CHR ''0'' \<le> c \<and> c \<le> CHR ''9'' \<or> CHR ''a'' \<le> c \<and> c \<le> CHR ''f'')"

section \<open>Lengths\<close>

lemma pad_message_blocks:
  assumes "\<And>bs. length (order bs) = length bs"
  shows "length (pad_message order m) mod 64 = 0"
proof -
  have "length (pad_message order m) = length m + 9 + (119 - length m mod 64) mod 64"
    by (simp add: pad_message_def pad_zeros_def length_bytes_def assms)
  also have "\<dots> mod 64 = 0"
  proof -
    define r where "r = length m mod 64"
    have r: "r < 64" and m: "length m = 64 * (length m div 64) + r" by (simp_all add: r_def)
    have "(119 - r) mod 64 = (if r \<le> 55 then 55 - r else 119 - r)"
      using r mod_add_self2 [of "55 - r" 64] by (auto simp del: mod_add_self2)
    then have "(r + 9 + (119 - r) mod 64) mod 64 = 0" using r by (auto split: if_splits)
    then show ?thesis by (metis (no_types, lifting) m add.assoc mod_mult_self4 r_def)
  qed
  finally show ?thesis .
qed

lemma Sum256_length [simp]: "length (Sum256 m) = 32"
proof -
  have "length (sha_bytes st) = 32" for st
    by (cases st rule: sha_bytes.cases) (simp add: be_bytes_def)
  then show ?thesis by (simp add: Sum256_def)
qed

lemma MD5_Sum_length [simp]: "length (MD5_Sum m) = 16"
proof -
  have "length (md5_bytes st) = 16" for st
    by (cases st rule: md5_bytes.cases) (simp add: le_bytes_def)
  then show ?thesis by (simp add: MD5_Sum_def)
qed

lemma HMAC_length [simp]: "length (HMAC_SHA256 k m) = 32"
  by (simp add: HMAC_SHA256_def Let_def)

lemma hex_length: "length (hex bs) = 2 * length bs"
  by (induction bs) (simp_all add: hex_def)

lemma hex_digit_lower: "n < 16 \<Longrightarrow> is_lower_hex (hex_digit n)"
proof -
  assume "n < 16"
  then have "n \<in> set [0..<16]" by simp
  moreover have "list_all (\<lambda>n. is_lower_hex (hex_digit n)) [0..<16]"
    by (simp add: upt_rec is_lower_hex_def hex_digit_def less_eq_char_def less_char_def)
  ultimately show ?thesis by (simp only: list_all_iff)
qed

lemma hex_lower: "list_all is_lower_hex (hex bs)"
proof (induction bs)
  case (Cons c cs)
  have "of_char c div 16 < (16::nat)" "of_char c mod 16 < (16::nat)"
    using of_char_lt [of c] by (simp_all add: div_less_iff_less_mult)
  then show ?case using Cons by (simp add: hex_def hex_digit_lower)
qed (simp add: hex_def)

lemma hex_digit_inj: "m < 16 \<Longrightarrow> n < 16 \<Longrightarrow> hex_digit m = hex_digit n \<Longrightarrow> m = n"
proof -
  have "distinct ''0123456789abcdef''" "length ''0123456789abcdef'' = 16" by simp_all
  then show "m < 16 \<Longrightarrow> n < 16 \<Longrightarrow> hex_digit m = hex_digit n \<Longrightarrow> m = n"
    unfolding hex_digit_def by (metis nth_eq_iff_index_eq)
qed

lemma hex_inj: "hex a = hex b \<Longrightarrow> a = b"
proof (induction a arbitrary: b)
  case Nil
  then show ?case by (cases b) (simp_all add: hex_def)
next
  case (Cons x xs)
  then obtain y ys where b: "b = y # ys" by (cases b) (simp_all add: hex_def)
  have lt: "of_char c div 16 < (16::nat)" "of_char c mod 16 < (16::nat)" for c :: char
    using of_char_lt [of c] by (simp_all add: div_less_iff_less_mult)
  have "of_char x div 16 = (of_char y div 16 :: nat)" "of_char x mod 16 = (of_char y mod 16 :: nat)"
    using Cons.prems b lt hex_digit_inj by (simp_all add: hex_def)
  then have "of_char x = (of_char y :: nat)" by (metis div_mult_mod_eq)
  then show ?case using Cons b by (simp add: hex_def)
qed

section \<open>The digest interface\<close>

locale fixed_digest =
  fixes H :: "string \<Rightarrow> string" and n :: nat
  assumes digest_length: "length (H m) = n"
begin

lemma hex_form: "length (hex (H m)) = 2 * n \<and> list_all is_lower_hex (hex (H m))"
  by (simp add: hex_length digest_length hex_lower)

text \<open>The hexadecimal form loses nothing: equal texts come from equal digests.\<close>

lemma hex_eq_iff: "hex (H a) = hex (H b) \<longleftrightarrow> H a = H b"
  using hex_inj by auto

lemma base64_length: "length (RawURLEncode (H m)) = (4 * n + 2) div 3"
  by (simp add: RawURLEncode_length digest_length)

end

interpretation md5: fixed_digest MD5_Sum 16
  by unfold_locales simp

interpretation sha256: fixed_digest Sum256 32
  by unfold_locales simp

interpretation hmac: fixed_digest "HMAC_SHA256 key" 32 for key
  by unfold_locales simp

end
