(* ===== verification/Hash_Pkg.thy ===== *)
theory Hash_Pkg
  imports Go_Digest
begin

text \<open>
  The package \<open>internal/hash\<close>: the two digest algorithms by name, the shape of their
  lower-case hexadecimal form, and the hashes of a logical directory, of a basename and of
  file content. An error is a value of \<open>hash_error\<close>.
\<close>

datatype hash_error =
    UnsupportedAlgorithm string
  | InvalidLogicalDirectory string
  | InvalidBasename string
  | ReadFailed ioerr

definition MD5 :: string where
  "MD5 = ''md5''"

definition SHA256 :: string where
  "SHA256 = ''sha256''"

definition hash_New :: "string \<Rightarrow> (hash_error, string \<Rightarrow> string) result" where
  "hash_New algorithm =
     (if algorithm = MD5 then Inr MD5_Sum
      else if algorithm = SHA256 then Inr Sum256
      else Inl (UnsupportedAlgorithm algorithm))"

definition HexLength :: "string \<Rightarrow> (hash_error, nat) result" where
  "HexLength algorithm =
     (if algorithm = MD5 then Inr 32
      else if algorithm = SHA256 then Inr 64
      else Inl (UnsupportedAlgorithm algorithm))"

text \<open>The loop over the bytes returns false at the first one outside \<open>0-9a-f\<close>.\<close>

fun all_lower_hex :: "string \<Rightarrow> bool" where
  "all_lower_hex [] = True"
| "all_lower_hex (c # cs) =
     (if \<not> (CHR ''0'' \<le> c \<and> c \<le> CHR ''9'' \<or> CHR ''a'' \<le> c \<and> c \<le> CHR ''f'') then False
      else all_lower_hex cs)"

definition ValidHex :: "string \<Rightarrow> string \<Rightarrow> bool" where
  "ValidHex s algorithm =
     (case HexLength algorithm of
        Inl _ \<Rightarrow> False
      | Inr n \<Rightarrow> if length s \<noteq> n then False else all_lower_hex s)"

definition hash_String :: "string \<Rightarrow> string \<Rightarrow> (hash_error, string) result" where
  "hash_String s algorithm =
     (case hash_New algorithm of Inl e \<Rightarrow> Inl e | Inr h \<Rightarrow> Inr (hex (h s)))"

text \<open>A reader is the bytes it yields up to end of file, or the error it stops with.\<close>

definition hash_Reader :: "(ioerr, bytes) result \<Rightarrow> string \<Rightarrow> (hash_error, string) result" where
  "hash_Reader r algorithm =
     (case hash_New algorithm of
        Inl e \<Rightarrow> Inl e
      | Inr h \<Rightarrow> (case r of Inl e \<Rightarrow> Inl (ReadFailed e) | Inr content \<Rightarrow> Inr (hex (h content))))"

definition hash_Directory :: "string \<Rightarrow> string \<Rightarrow> (hash_error, string) result" where
  "hash_Directory logicalDir algorithm =
     (if logicalDir = [] \<or> HasPrefix logicalDir ''/'' \<or> logicalDir = ''.''
      then Inl (InvalidLogicalDirectory logicalDir)
      else hash_String logicalDir algorithm)"

definition hash_Filename :: "string \<Rightarrow> string \<Rightarrow> (hash_error, string) result" where
  "hash_Filename basename algorithm =
     (if basename = [] \<or> CHR ''/'' \<in> set basename then Inl (InvalidBasename basename)
      else hash_String basename algorithm)"

section \<open>Properties\<close>

definition supported :: "string \<Rightarrow> bool" where
  "supported algorithm \<longleftrightarrow> algorithm = MD5 \<or> algorithm = SHA256"

lemma MD5_neq_SHA256 [simp]: "MD5 \<noteq> SHA256" "SHA256 \<noteq> MD5"
  by (simp_all add: MD5_def SHA256_def)

lemma hash_New_supported: "supported a \<longleftrightarrow> (\<exists>h. hash_New a = Inr h)"
  by (auto simp: supported_def hash_New_def)

lemma all_lower_hex_iff: "all_lower_hex s = list_all is_lower_hex s"
  by (induction s) (auto simp: is_lower_hex_def)

lemma ValidHex_iff:
  "ValidHex s a \<longleftrightarrow> list_all is_lower_hex s \<and> (a = MD5 \<and> length s = 32 \<or> a = SHA256 \<and> length s = 64)"
  by (auto simp: ValidHex_def HexLength_def all_lower_hex_iff)

lemma hash_String_Inr:
  "hash_String s a = Inr h \<longleftrightarrow> (a = MD5 \<and> h = hex (MD5_Sum s) \<or> a = SHA256 \<and> h = hex (Sum256 s))"
  by (auto simp: hash_String_def hash_New_def)

lemma hash_String_supported: "supported a \<Longrightarrow> \<exists>h. hash_String s a = Inr h"
  by (auto simp: supported_def hash_String_def hash_New_def)

lemma hash_String_ValidHex: "hash_String s a = Inr h \<Longrightarrow> ValidHex h a"
  using md5.hex_form [of s] sha256.hex_form [of s] by (auto simp: hash_String_Inr ValidHex_iff)

lemma hash_Reader_content: "hash_Reader (Inr content) a = hash_String content a"
  by (simp add: hash_Reader_def hash_String_def split: sum.splits)

lemma hash_Directory_ok:
  "d \<noteq> [] \<Longrightarrow> \<not> HasPrefix d ''/'' \<Longrightarrow> d \<noteq> ''.'' \<Longrightarrow> hash_Directory d a = hash_String d a"
  by (simp add: hash_Directory_def)

lemma hash_Filename_ok: "good_basename \<noteq> [] \<Longrightarrow> CHR ''/'' \<notin> set good_basename \<Longrightarrow>
  hash_Filename good_basename a = hash_String good_basename a"
  by (simp add: hash_Filename_def)

lemma hash_no_error_supported:
  "supported a \<Longrightarrow> hash_String s a \<noteq> Inl e"
  using hash_String_supported [of a s] by auto

end
