(* ===== verification/Go_Paths.thy ===== *)
theory Go_Paths
  imports Go_Strings
begin

text \<open>
  Go's \<open>path\<close> and \<open>path/filepath\<close> on Unix, as lexical functions on byte strings, with the
  facts that connect a path text to the list of its elements. An error of \<open>filepath.Rel\<close>
  is \<^const>\<open>None\<close>.
\<close>

section \<open>Packages path and filepath\<close>

definition IsAbs :: "string \<Rightarrow> bool" where
  "IsAbs p = HasPrefix p ''/''"

text \<open>The elements of a cleaned path; \<open>acc\<close> is the output so far, last element first.\<close>

fun clean_segs :: "bool \<Rightarrow> string list \<Rightarrow> string list \<Rightarrow> string list" where
  "clean_segs rooted acc [] = rev acc"
| "clean_segs rooted acc (s # ss) =
     (if s = [] \<or> s = ''.'' then clean_segs rooted acc ss
      else if s = ''..'' then
        (case acc of
           [] \<Rightarrow> clean_segs rooted (if rooted then [] else [''..'']) ss
         | a # as \<Rightarrow> clean_segs rooted (if a = ''..'' then ''..'' # acc else as) ss)
      else clean_segs rooted (s # acc) ss)"

definition path_elems :: "string \<Rightarrow> string list" where
  "path_elems p = clean_segs (IsAbs p) [] (SplitByte CHR ''/'' p)"

definition Clean :: "string \<Rightarrow> string" where
  "Clean p =
     (if IsAbs p then ''/'' @ Join (path_elems p) ''/''
      else if path_elems p = [] then ''.'' else Join (path_elems p) ''/'')"

text \<open>\<open>path.Dir\<close> and \<open>path.Base\<close>.\<close>

definition Dir :: "string \<Rightarrow> string" where
  "Dir p = Clean (rev (dropWhile (\<lambda>c. c \<noteq> CHR ''/'') (rev p)))"

definition Base :: "string \<Rightarrow> string" where
  "Base p =
     (if p = [] then ''.''
      else (let q = TrimRightByte p CHR ''/''
            in if q = [] then ''/'' else rev (takeWhile (\<lambda>c. c \<noteq> CHR ''/'') (rev q))))"

text \<open>\<open>filepath.Join(a, b)\<close>.\<close>

definition FJoin :: "string \<Rightarrow> string \<Rightarrow> string" where
  "FJoin a b = (if a \<noteq> [] then Clean (a @ ''/'' @ b) else if b \<noteq> [] then Clean b else [])"

fun strip_common :: "string list \<Rightarrow> string list \<Rightarrow> string list \<times> string list" where
  "strip_common (x # xs) (y # ys) = (if x = y then strip_common xs ys else (x # xs, y # ys))"
| "strip_common xs ys = (xs, ys)"

text \<open>\<open>filepath.Rel(base, target)\<close> for absolute paths, the only ones the program passes.\<close>

definition Rel :: "string \<Rightarrow> string \<Rightarrow> string option" where
  "Rel base targ =
     (if Clean base = Clean targ then Some ''.''
      else if IsAbs base \<noteq> IsAbs targ then None
      else (let (b, t) = strip_common (path_elems base) (path_elems targ)
            in if b \<noteq> [] \<and> hd b = ''..'' then None
               else Some (Join (map (\<lambda>_. ''..'') b @ t) ''/'')))"

section \<open>Paths and their elements\<close>

definition good_seg :: "string \<Rightarrow> bool" where
  "good_seg s \<longleftrightarrow> s \<noteq> [] \<and> CHR ''/'' \<notin> set s \<and> s \<noteq> ''.'' \<and> s \<noteq> ''..''"

text \<open>The absolute path with the given elements.\<close>

definition abs_path :: "string list \<Rightarrow> string" where
  "abs_path segs = CHR ''/'' # Join segs ''/''"

lemma abs_path_IsAbs [simp]: "IsAbs (abs_path segs)"
  by (simp add: IsAbs_def abs_path_def)

lemma clean_segs_good: "list_all good_seg ss \<Longrightarrow> clean_segs r acc ss = rev acc @ ss"
  by (induction ss arbitrary: acc) (auto simp: good_seg_def)

lemma clean_segs_rooted:
  "list_all good_seg acc \<Longrightarrow> (\<And>s. s \<in> set ss \<Longrightarrow> CHR ''/'' \<notin> set s)
   \<Longrightarrow> list_all good_seg (clean_segs True acc ss)"
proof (induction ss arbitrary: acc)
  case (Cons s ss)
  then show ?case
    by (auto simp: good_seg_def split: list.splits)
qed (simp add: list_all_iff)

lemma path_elems_good: "IsAbs p \<Longrightarrow> list_all good_seg (path_elems p)"
  using clean_segs_rooted [of "[]"] SplitByte_pieces by (auto simp: path_elems_def)

lemma SplitByte_Join_good:
  "list_all good_seg segs \<Longrightarrow> segs \<noteq> [] \<Longrightarrow> SplitByte CHR ''/'' (Join segs ''/'') = segs"
  by (rule SplitByte_Join) (auto simp: good_seg_def list_all_iff)

lemma path_elems_abs_path [simp]: "list_all good_seg segs \<Longrightarrow> path_elems (abs_path segs) = segs"
  by (cases "segs = []")
    (simp_all add: path_elems_def abs_path_def SplitByte_Join_good clean_segs_good)

lemma Clean_abs: "IsAbs p \<Longrightarrow> Clean p = abs_path (path_elems p)"
  by (simp add: Clean_def abs_path_def)

lemma Clean_abs_path [simp]: "list_all good_seg segs \<Longrightarrow> Clean (abs_path segs) = abs_path segs"
  by (simp add: Clean_abs)

lemma Clean_abs_idem: "IsAbs p \<Longrightarrow> Clean (Clean p) = Clean p"
  by (simp add: Clean_abs path_elems_good)

lemma abs_path_inject:
  "list_all good_seg a \<Longrightarrow> list_all good_seg b \<Longrightarrow> abs_path a = abs_path b \<longleftrightarrow> a = b"
  by (metis path_elems_abs_path)

lemma Clean_good: "list_all good_seg segs \<Longrightarrow> segs \<noteq> [] \<Longrightarrow> Clean (Join segs ''/'') = Join segs ''/''"
proof -
  assume g: "list_all good_seg segs" "segs \<noteq> []"
  obtain s ss where s: "segs = s # ss" using g by (cases segs) auto
  have "\<not> IsAbs (Join segs ''/'')"
    using g s by (cases s; cases ss) (auto simp: IsAbs_def good_seg_def)
  then show ?thesis
    using g by (simp add: Clean_def path_elems_def SplitByte_Join_good clean_segs_good)
qed

text \<open>Joining and splitting at the last separator.\<close>

lemma Join_inject:
  "list_all good_seg a \<Longrightarrow> list_all good_seg b \<Longrightarrow> Join a ''/'' = Join b ''/'' \<longleftrightarrow> a = b"
  using abs_path_inject by (auto simp: abs_path_def)

lemma clean_segs_append:
  "clean_segs r acc (xs @ ys) = clean_segs r (rev (clean_segs r acc xs)) ys"
  by (induction r acc xs rule: clean_segs.induct) (auto split: list.splits)

lemma SplitByte_append_sep: "SplitByte c (a @ c # b) = SplitByte c a @ SplitByte c b"
proof (induction a)
  case (Cons x xs)
  then show ?case by (auto split: list.splits)
qed simp

lemma FJoin_abs:
  assumes "IsAbs a" "good_seg b"
  shows "FJoin a b = abs_path (path_elems a @ [b])"
proof -
  have a: "a \<noteq> []" "IsAbs (a @ ''/'' @ b)" using assms(1) by (cases a; auto simp: IsAbs_def)+
  have "path_elems (a @ CHR ''/'' # b) = clean_segs True [] (SplitByte CHR ''/'' a @ [b])"
    using a assms(2) by (simp add: path_elems_def SplitByte_append_sep SplitByte_no_sep good_seg_def)
  also have "\<dots> = path_elems a @ [b]"
    using assms clean_segs_good [of "[b]"] by (simp add: clean_segs_append path_elems_def del: clean_segs.simps)
  finally show ?thesis using a by (simp add: FJoin_def Clean_abs)
qed

lemma strip_common_Nil [simp]: "strip_common [] b = ([], b)"
  by (cases b) auto

lemma strip_common_append: "strip_common a (a @ b) = ([], b)"
  by (induction a) auto

lemma Rel_abs_path:
  assumes "list_all good_seg a" "list_all good_seg b" "b \<noteq> []"
  shows "Rel (abs_path a) (abs_path (a @ b)) = Some (Join b ''/'')"
  using assms abs_path_inject [of a "a @ b"] by (simp add: Rel_def strip_common_append)

lemma Join_snoc: "xs \<noteq> [] \<Longrightarrow> Join (xs @ [x]) ''/'' = Join xs ''/'' @ ''/'' @ x"
  by (simp add: Join_append)

lemma Base_snoc:
  assumes "good_seg x"
  shows "Base (Join (xs @ [x]) ''/'') = x"
proof -
  have x: "x \<noteq> []" "CHR ''/'' \<notin> set x" using assms by (auto simp: good_seg_def)
  obtain pre where pre: "Join (xs @ [x]) ''/'' = pre @ x" "pre = [] \<or> last pre = CHR ''/''"
    by (cases "xs = []") (auto simp: Join_snoc)
  have "last (pre @ x) \<noteq> CHR ''/''" using x by (metis last_appendR last_in_set)
  then have "TrimRightByte (pre @ x) CHR ''/'' = pre @ x" by (simp add: TrimRightByte_id)
  moreover have "takeWhile (\<lambda>c. c \<noteq> CHR ''/'') (rev x @ rev pre) = rev x"
  proof -
    have "takeWhile (\<lambda>c. c \<noteq> CHR ''/'') (rev x @ rev pre)
            = rev x @ takeWhile (\<lambda>c. c \<noteq> CHR ''/'') (rev pre)"
      using x by (intro takeWhile_append2) auto
    also have "takeWhile (\<lambda>c. c \<noteq> CHR ''/'') (rev pre) = []"
      using pre(2) by (cases pre rule: rev_cases) auto
    finally show ?thesis by simp
  qed
  ultimately show ?thesis using x pre(1) by (simp add: Base_def)
qed

lemma Dir_snoc:
  assumes "list_all good_seg xs" "good_seg x"
  shows "Dir (Join (xs @ [x]) ''/'') = (if xs = [] then ''.'' else Join xs ''/'')"
proof (cases "xs = []")
  case True
  have "dropWhile (\<lambda>c. c \<noteq> CHR ''/'') (rev x) = []"
    using assms by (auto simp: good_seg_def)
  then show ?thesis using True
    by (simp add: Dir_def Clean_def path_elems_def IsAbs_def del: dropWhile_eq_Nil_conv)
next
  case False
  have "dropWhile (\<lambda>c. c \<noteq> CHR ''/'') (rev x @ CHR ''/'' # rev (Join xs ''/'')) = CHR ''/'' # rev (Join xs ''/'')"
    using assms by (auto simp: good_seg_def intro!: dropWhile_neq_append)
  then have "Dir (Join (xs @ [x]) ''/'') = Clean (Join xs ''/'' @ ''/'')"
    using False by (simp add: Dir_def Join_snoc)
  also have "\<dots> = Join xs ''/''"
  proof -
    obtain s ss where s: "xs = s # ss" using False by (cases xs) auto
    have na: "\<not> IsAbs (Join xs ''/'' @ ''/'')" "\<not> IsAbs (Join xs ''/'')"
      using assms s by (cases s; cases ss; auto simp: IsAbs_def good_seg_def)+
    have "path_elems (Join xs ''/'' @ ''/'') = xs"
      using na assms False SplitByte_append_sep [of "CHR ''/''" "Join xs ''/''" "[]"]
      by (simp add: path_elems_def SplitByte_Join_good clean_segs_append clean_segs_good)
    then show ?thesis using na False by (simp add: Clean_def)
  qed
  finally show ?thesis using False by simp
qed

end
