(* ===== verification/Share_Tree.thy ===== *)
theory Share_Tree
  imports Go_Paths
begin

text \<open>
  The file system as the services read it: a tree of directories, regular files, symbolic
  links and special files (devices, sockets, pipes), with the system calls the program
  makes on it: \<open>os.Stat\<close>, \<open>os.Lstat\<close>, \<open>os.ReadDir\<close>, \<open>os.Open\<close> and
  \<open>filepath.EvalSymlinks\<close>.

  A directory carries the error its listing fails with (\<^const>\<open>None\<close> when it can be
  listed), whether it can be searched, and its listing in the order \<open>os.ReadDir\<close> returns
  it (by file name). A regular file carries the error that opening or reading it fails
  with, its content and its modification time.
\<close>

section \<open>Nodes\<close>

datatype node =
    NDir "ioerr option" bool "(string \<times> node) list"
  | NFile "ioerr option" string int
  | NSymlink string
  | NSpecial

fun is_dir :: "node \<Rightarrow> bool" where
  "is_dir (NDir _ _ _) = True"
| "is_dir _ = False"

fun is_regular :: "node \<Rightarrow> bool" where
  "is_regular (NFile _ _ _) = True"
| "is_regular _ = False"

fun is_symlink :: "node \<Rightarrow> bool" where
  "is_symlink (NSymlink _) = True"
| "is_symlink _ = False"

text \<open>What a real directory tree satisfies: names are path elements, sorted and distinct.\<close>

fun wf_node :: "node \<Rightarrow> bool" where
  "wf_node (NDir _ _ ch) =
     (sorted_wrt (<) (map fst ch) \<and> list_all (\<lambda>(nm, n). good_seg nm \<and> wf_node n) ch)"
| "wf_node _ = True"

fun get_node :: "node \<Rightarrow> string list \<Rightarrow> node option" where
  "get_node n [] = Some n"
| "get_node (NDir _ _ ch) (c # cs) =
     (case map_of ch c of None \<Rightarrow> None | Some n \<Rightarrow> get_node n cs)"
| "get_node _ (c # cs) = None"

section \<open>Path resolution\<close>

text \<open>
  Resolution of a path, element by element, from the directory \<open>at\<close>: the physical path it
  leads to. Each symbolic link costs one unit of \<open>links\<close>, the limit of the kernel (40) or
  of \<open>EvalSymlinks\<close> (255); \<open>follow\<close> says whether a link in last position is followed.
\<close>

fun resolve :: "bool \<Rightarrow> node \<Rightarrow> nat \<Rightarrow> string list \<Rightarrow> string list \<Rightarrow> (ioerr, string list) result" where
  "resolve follow root links at [] = Inr at"
| "resolve follow root links at (c # cs) =
     (if c = [] \<or> c = ''.'' then resolve follow root links at cs
      else if c = ''..'' then resolve follow root links (butlast at) cs
      else (case get_node root at of
              Some (NDir _ srch ch) \<Rightarrow>
                if \<not> srch then Inl EPermission
                else (case map_of ch c of
                        None \<Rightarrow> Inl ENotExist
                      | Some (NSymlink target) \<Rightarrow>
                          if cs = [] \<and> \<not> follow then Inr (at @ [c])
                          else (case links of
                                  0 \<Rightarrow> Inl EOther
                                | Suc l \<Rightarrow>
                                    resolve follow root l (if IsAbs target then [] else at)
                                      (SplitByte CHR ''/'' target @ cs))
                      | Some _ \<Rightarrow> resolve follow root links (at @ [c]) cs)
            | _ \<Rightarrow> Inl EOther))"

definition kernel_links :: nat where
  "kernel_links = 40"

definition Lookup :: "bool \<Rightarrow> node \<Rightarrow> string \<Rightarrow> (ioerr, node) result" where
  "Lookup follow root p =
     (case resolve follow root kernel_links [] (SplitByte CHR ''/'' p) of
        Inl e \<Rightarrow> Inl e
      | Inr at \<Rightarrow> (case get_node root at of None \<Rightarrow> Inl ENotExist | Some n \<Rightarrow> Inr n))"

abbreviation Stat :: "node \<Rightarrow> string \<Rightarrow> (ioerr, node) result" where
  "Stat \<equiv> Lookup True"

abbreviation Lstat :: "node \<Rightarrow> string \<Rightarrow> (ioerr, node) result" where
  "Lstat \<equiv> Lookup False"

text \<open>\<open>os.ReadDir\<close>: the listing, and with it whether its entries can be looked up.\<close>

definition ReadDir :: "node \<Rightarrow> string \<Rightarrow> (ioerr, bool \<times> (string \<times> node) list) result" where
  "ReadDir root p =
     (case Stat root p of
        Inl e \<Rightarrow> Inl e
      | Inr (NDir err srch ch) \<Rightarrow> (case err of None \<Rightarrow> Inr (srch, ch) | Some e \<Rightarrow> Inl e)
      | Inr _ \<Rightarrow> Inl EOther)"

text \<open>\<open>os.Open\<close> on a path: the node behind the open file, or the error of opening it.\<close>

definition Open :: "node \<Rightarrow> string \<Rightarrow> (ioerr, node) result" where
  "Open root p =
     (case Stat root p of
        Inl e \<Rightarrow> Inl e
      | Inr (NFile (Some e) _ _) \<Rightarrow> Inl e
      | Inr n \<Rightarrow> Inr n)"

definition eval_links :: nat where
  "eval_links = 255"

definition EvalSymlinks :: "node \<Rightarrow> string \<Rightarrow> (ioerr, string) result" where
  "EvalSymlinks root p =
     (case resolve True root eval_links [] (SplitByte CHR ''/'' p) of
        Inl e \<Rightarrow> Inl e
      | Inr at \<Rightarrow> Inr (abs_path at))"

section \<open>Resolution of link-free paths\<close>

text \<open>Every proper prefix of \<open>segs\<close> below \<open>n\<close> is a searchable directory, and no element is a link.\<close>

fun plain_path :: "node \<Rightarrow> string list \<Rightarrow> bool" where
  "plain_path n [] = True"
| "plain_path (NDir _ srch ch) (c # cs) =
     (srch \<and> (case map_of ch c of None \<Rightarrow> False | Some n \<Rightarrow> \<not> is_symlink n \<and> plain_path n cs))"
| "plain_path _ (c # cs) = False"

lemma get_node_append: "get_node n (a @ b) = (case get_node n a of None \<Rightarrow> None | Some m \<Rightarrow> get_node m b)"
  by (induction n a rule: get_node.induct) (auto split: option.splits)

lemma plain_path_append:
  "plain_path n (a @ b) \<longleftrightarrow> plain_path n a \<and> (\<forall>m. get_node n a = Some m \<longrightarrow> plain_path m b)"
  by (induction n a rule: plain_path.induct) (auto split: option.splits)

lemma plain_path_get: "plain_path n segs \<Longrightarrow> \<exists>m. get_node n segs = Some m"
  by (induction n segs rule: plain_path.induct) (auto split: option.splits)

text \<open>A path whose elements are directories and a final non-link resolves to itself.\<close>

lemma resolve_plain:
  assumes "get_node root at = Some n" "plain_path n segs" "list_all good_seg segs"
  shows "resolve follow root links at segs = Inr (at @ segs)"
  using assms
proof (induction segs arbitrary: at n)
  case (Cons c cs)
  from Cons.prems(2) obtain err ch m where n: "n = NDir err True ch" "map_of ch c = Some m"
      "\<not> is_symlink m" "plain_path m cs"
    by (cases n) (auto split: option.splits)
  have c: "c \<noteq> []" "c \<noteq> ''.''" "c \<noteq> ''..''" using Cons.prems(3) by (auto simp: good_seg_def)
  have m: "get_node root (at @ [c]) = Some m"
    using Cons.prems(1) n by (simp add: get_node_append)
  have "resolve follow root links at (c # cs) = resolve follow root links (at @ [c]) cs"
    using c n Cons.prems(1) by (cases m) auto
  also have "\<dots> = Inr ((at @ [c]) @ cs)"
    using Cons.IH [OF m n(4)] Cons.prems(3) by simp
  finally show ?case by simp
qed simp

text \<open>A resolved path names a node, and following links never ends on a link.\<close>

lemma SplitByte_abs: "SplitByte CHR ''/'' (abs_path segs) = [] # (if segs = [] then [[]] else SplitByte CHR ''/'' (Join segs ''/''))"
  by (simp add: abs_path_def)

lemma resolve_abs_path:
  "list_all good_seg segs \<Longrightarrow>
   resolve follow root links [] (SplitByte CHR ''/'' (abs_path segs)) = resolve follow root links [] segs"
  by (cases "segs = []") (simp_all add: SplitByte_abs SplitByte_Join_good)

lemma Lookup_plain:
  assumes "plain_path root segs" "list_all good_seg segs" "get_node root segs = Some n"
  shows "Lookup follow root (abs_path segs) = Inr n"
  using assms resolve_plain [of root "[]" root segs follow kernel_links]
  by (simp add: Lookup_def resolve_abs_path)

lemma EvalSymlinks_plain:
  assumes "plain_path root segs" "list_all good_seg segs"
  shows "EvalSymlinks root (abs_path segs) = Inr (abs_path segs)"
  using assms resolve_plain [of root "[]" root segs True eval_links]
  by (simp add: EvalSymlinks_def resolve_abs_path)

lemma wf_node_child: "wf_node (NDir e s ch) \<Longrightarrow> map_of ch c = Some n \<Longrightarrow> wf_node n \<and> good_seg c"
  by (auto simp: list_all_iff dest: map_of_SomeD)

lemma wf_node_get: "wf_node n \<Longrightarrow> get_node n segs = Some m \<Longrightarrow> wf_node m \<and> list_all good_seg segs"
proof (induction n segs rule: get_node.induct)
  case (2 e s ch c cs)
  then show ?case
    by (auto split: option.splits simp del: wf_node.simps dest: wf_node_child)
qed auto

text \<open>The one way a path goes on at an ordinary element: through a directory it may search.\<close>

lemma resolve_element:
  assumes "c \<noteq> []" "c \<noteq> ''.''" "c \<noteq> ''..''" "resolve follow root links at (c # cs) = Inr p"
  obtains e ch m where "get_node root at = Some (NDir e True ch)" "map_of ch c = Some m"
      "\<not> is_symlink m" "resolve follow root links (at @ [c]) cs = Inr p"
    | e ch target where "get_node root at = Some (NDir e True ch)" "map_of ch c = Some (NSymlink target)"
      "cs = []" "\<not> follow" "p = at @ [c]"
    | e ch target l where "get_node root at = Some (NDir e True ch)" "map_of ch c = Some (NSymlink target)"
      "links = Suc l" "cs \<noteq> [] \<or> follow" "resolve follow root l (if IsAbs target then [] else at)
         (SplitByte CHR ''/'' target @ cs) = Inr p"
proof -
  from assms obtain e ch where d: "get_node root at = Some (NDir e True ch)"
    by (auto split: option.splits node.splits if_splits)
  from assms d obtain m where m: "map_of ch c = Some m"
    by (auto split: option.splits)
  show thesis
  proof (cases m)
    case (NSymlink target)
    show ?thesis
    proof (cases "cs = [] \<and> \<not> follow")
      case True
      then show ?thesis using assms d m NSymlink that(2) by auto
    next
      case False
      then show ?thesis using assms d m NSymlink that(3) by (auto split: nat.splits)
    qed
  qed (use assms d m that(1) in auto)
qed

lemma resolve_good:
  assumes "resolve follow root links at segs = Inr p" "list_all good_seg at"
    "\<And>s. s \<in> set segs \<Longrightarrow> CHR ''/'' \<notin> set s"
  shows "list_all good_seg p"
  using assms
proof (induction links arbitrary: at segs rule: less_induct)
  case (less links)
  from less.prems show ?case
  proof (induction segs arbitrary: at)
    case (Cons c cs)
    note at = \<open>list_all good_seg at\<close> and IH = Cons.IH
    have sl: "CHR ''/'' \<notin> set s" if "s \<in> set cs" for s using Cons.prems(3) that by auto
    consider "c = [] \<or> c = ''.''" | "c = ''..''" | "c \<noteq> []" "c \<noteq> ''.''" "c \<noteq> ''..''" by blast
    then show ?case
    proof cases
      case 1
      then show ?thesis using IH [of at] Cons.prems(1) at sl by auto
    next
      case 2
      have "list_all good_seg (butlast at)" using at by (auto simp: list_all_iff dest: in_set_butlastD)
      then show ?thesis using IH [of "butlast at"] Cons.prems(1) 2 sl by auto
    next
      case 3
      then have c: "good_seg c" using Cons.prems(3) by (auto simp: good_seg_def)
      show ?thesis
      proof (rule resolve_element [OF 3 Cons.prems(1)])
        assume "resolve follow root links (at @ [c]) cs = Inr p"
        then show ?thesis using IH [of "at @ [c]"] at c sl by simp
      next
        assume "p = at @ [c]"
        then show ?thesis using at c by simp
      next
        fix target l
        assume l: "links = Suc l" "resolve follow root l (if IsAbs target then [] else at)
          (SplitByte CHR ''/'' target @ cs) = Inr p"
        show ?thesis
          by (rule less.IH [OF _ l(2)]) (use l(1) at sl SplitByte_pieces in auto)
      qed
    qed
  qed simp
qed

end
