(* ===== verification/Config_Pkg.thy ===== *)
theory Config_Pkg
  imports Hash_Pkg Share_Tree
begin

text \<open>
  The package \<open>internal/config\<close>, file \<open>config.go\<close>: the start-up configuration of the
  file-sharing service, its defaults and validation, the normal form of the share prefix,
  and which top-level directories are servable namespaces.
\<close>

record Config =
  ContainerRoot :: string
  SharePrefix :: string
  PublicURL :: string
  HashTarget :: string
  HashAlgorithm :: string
  Port :: string
  AdminToken :: string
  LinksDir :: string
  SharedPath :: string
  WebGID :: string

definition DefaultContainerRoot :: string where
  "DefaultContainerRoot = ''/opt/sharefiles''"

definition DefaultWebGID :: string where
  "DefaultWebGID = ''2001''"

definition DefaultLinksDir :: string where
  "DefaultLinksDir = ''/var/lib/file-links''"

datatype config_error =
    InvalidShareRoot string
  | PrefixEmpty string
  | PrefixAbsolute string
  | PrefixBackslash string
  | PrefixSegments string
  | InvalidHashTarget string
  | InvalidHashAlgorithm string
  | InvalidPublicURL
  | InvalidPort string
  | InvalidAdminToken
  | InvalidLinksDir string
  | InvalidSharedPath string
  | InvalidWebGID string
  | InvalidSftpAdminPassword
  | RootStat string ioerr
  | RootNotDir string
  | PrefixStat string ioerr
  | PrefixNotDir string

text \<open>The regular expression \<open>^[a-z_][a-z0-9_-]{0,31}$\<close>.\<close>

definition lower_letter :: "char \<Rightarrow> bool" where
  "lower_letter c = in_range 97 122 c"

definition usernamePattern :: "string \<Rightarrow> bool" where
  "usernamePattern s =
     (case s of
        [] \<Rightarrow> False
      | c # cs \<Rightarrow>
          (lower_letter c \<or> c = CHR ''_'') \<and> length cs \<le> 31
          \<and> list_all (\<lambda>x. lower_letter x \<or> is_digit x \<or> x = CHR ''_'' \<or> x = CHR ''-'') cs)"

definition NamespaceRoot :: "Config \<Rightarrow> string" where
  "NamespaceRoot c = Clean (ContainerRoot c)"

definition ValidUsername :: "string \<Rightarrow> bool" where
  "ValidUsername name = usernamePattern name"

definition NormalizePrefix :: "string \<Rightarrow> (config_error, string) result" where
  "NormalizePrefix pre =
     (let p = TrimSpace pre in
      if p = [] then Inl (PrefixEmpty pre)
      else if HasPrefix p ''/'' then Inl (PrefixAbsolute pre)
      else (let p = TrimByte p CHR ''/'' in
            if p = [] then Inl (PrefixEmpty pre)
            else if CHR 0x5C \<in> set p then Inl (PrefixBackslash pre)
            else if list_ex (\<lambda>seg. seg = [] \<or> seg = ''.'' \<or> seg = ''..'') (SplitByte CHR ''/'' p)
            then Inl (PrefixSegments pre)
            else Inr (Clean p)))"

definition IsEligibleNamespace :: "Config \<Rightarrow> string \<Rightarrow> bool" where
  "IsEligibleNamespace c name =
     (if name = [] \<or> name = ''.'' \<or> name = ''..'' \<or> CHR ''/'' \<in> set name \<or> CHR 0x5C \<in> set name
      then False
      else (case NormalizePrefix (SharePrefix c) of
              Inr pre \<Rightarrow>
                if name = hd (SplitByte CHR ''/'' pre) then True else usernamePattern name
            | Inl _ \<Rightarrow> usernamePattern name))"

definition CheckFilesystem :: "node \<Rightarrow> Config \<Rightarrow> (config_error, unit) result" where
  "CheckFilesystem fs c =
     (let root = Clean (ContainerRoot c) in
      case Stat fs root of
        Inl e \<Rightarrow> Inl (RootStat root e)
      | Inr st \<Rightarrow>
          if \<not> is_dir st then Inl (RootNotDir root)
          else (case NormalizePrefix (SharePrefix c) of
                  Inl e \<Rightarrow> Inl e
                | Inr pre \<Rightarrow>
                    let top = hd (SplitByte CHR ''/'' pre) in
                    case Stat fs (FJoin root top) of
                      Inl e \<Rightarrow> Inl (PrefixStat top e)
                    | Inr pst \<Rightarrow> if \<not> is_dir pst then Inl (PrefixNotDir top) else Inr ()))"

definition ShareURL :: "Config \<Rightarrow> string \<Rightarrow> string \<Rightarrow> string" where
  "ShareURL c dirHash fileHash =
     TrimRightByte (PublicURL c) CHR ''/'' @ ''/'' @ dirHash @ ''/'' @ fileHash"

definition config_Validate :: "Config \<Rightarrow> config_error option" where
  "config_Validate c =
     (if ContainerRoot c = [] \<or> \<not> IsAbs (ContainerRoot c) then Some (InvalidShareRoot (ContainerRoot c))
      else case NormalizePrefix (SharePrefix c) of
        Inl e \<Rightarrow> Some e
      | Inr _ \<Rightarrow>
          if HashTarget c \<noteq> ''file'' \<and> HashTarget c \<noteq> ''filename''
          then Some (InvalidHashTarget (HashTarget c))
          else if HashAlgorithm c \<noteq> ''md5'' \<and> HashAlgorithm c \<noteq> ''sha256''
          then Some (InvalidHashAlgorithm (HashAlgorithm c))
          else if PublicURL c = [] then Some InvalidPublicURL
          else if Atoi (Port c) = None then Some (InvalidPort (Port c))
          else if AdminToken c = [] then Some InvalidAdminToken
          else if LinksDir c = [] \<or> \<not> IsAbs (LinksDir c) then Some (InvalidLinksDir (LinksDir c))
          else if SharedPath c \<noteq> [] \<and> \<not> IsAbs (SharedPath c)
          then Some (InvalidSharedPath (SharedPath c))
          else if Atoi (WebGID c) = None then Some (InvalidWebGID (WebGID c))
          else None)"

text \<open>\<open>loadFromEnv\<close>: an unset variable reads as the empty string.\<close>

definition or_default :: "string \<Rightarrow> string \<Rightarrow> string" where
  "or_default s d = (if s = [] then d else s)"

definition loadFromEnv :: "(string \<Rightarrow> string) \<Rightarrow> (config_error, Config) result" where
  "loadFromEnv getenv =
     (let port = or_default (getenv ''PORT'') ''8080'';
          cfg = \<lparr>ContainerRoot = or_default (getenv ''SHARE_ROOT'') DefaultContainerRoot,
                 SharePrefix = getenv ''SHARE_PREFIX'',
                 PublicURL = or_default (getenv ''PUBLIC_URL'') (''http://localhost:'' @ port),
                 HashTarget = or_default (getenv ''HASH_TARGET'') ''file'',
                 HashAlgorithm = or_default (getenv ''HASH_ALGORITHM'') ''md5'',
                 Port = port,
                 AdminToken = getenv ''ADMIN_TOKEN'',
                 LinksDir = or_default (getenv ''LINKS_DIR'') DefaultLinksDir,
                 SharedPath = getenv ''SHARED_CONFIG_PATH'',
                 WebGID = or_default (getenv ''WEB_GID'') DefaultWebGID\<rparr>
      in case config_Validate cfg of Some e \<Rightarrow> Inl e | None \<Rightarrow> Inr cfg)"

section \<open>User names and namespaces\<close>

lemma usernamePattern_chars:
  "usernamePattern s \<Longrightarrow> s \<noteq> [] \<and> length s \<le> 32
     \<and> list_all (\<lambda>x. lower_letter x \<or> is_digit x \<or> x = CHR ''_'' \<or> x = CHR ''-'') s"
  by (auto simp: usernamePattern_def split: list.splits)

lemma usernamePattern_plain: "usernamePattern s \<Longrightarrow> list_all plain_char s"
  using usernamePattern_chars [of s]
  by (auto simp: list_all_iff plain_char_def lower_letter_def is_digit_def in_range_def IsSpace_def)

lemma usernamePattern_good_seg:
  assumes "usernamePattern s"
  shows "good_seg s"
proof -
  have "CHR ''/'' \<notin> set s" "CHR ''.'' \<notin> set s" "s \<noteq> []"
    using usernamePattern_chars [OF assms]
    by (auto simp: list_all_iff lower_letter_def is_digit_def in_range_def)
  then show ?thesis by (auto simp: good_seg_def)
qed

lemma eligible_good_seg: "IsEligibleNamespace c name \<Longrightarrow> good_seg name"
  by (auto simp: IsEligibleNamespace_def good_seg_def split: if_splits)

lemma NormalizePrefix_segs:
  assumes "NormalizePrefix s = Inr p"
  shows "list_all good_seg (SplitByte CHR ''/'' p)" "CHR 0x5C \<notin> set p" "p \<noteq> []"
proof -
  from assms obtain q where q: "q \<noteq> []" "CHR 0x5C \<notin> set q" "p = Clean q"
      "\<not> list_ex (\<lambda>seg. seg = [] \<or> seg = ''.'' \<or> seg = ''..'') (SplitByte CHR ''/'' q)"
    by (auto simp: NormalizePrefix_def Let_def split: if_splits)
  then have g: "list_all good_seg (SplitByte CHR ''/'' q)"
    by (auto simp: list_all_iff list_ex_iff good_seg_def dest: SplitByte_pieces)
  have "p = q" using q Clean_good [OF g] by simp
  then show "list_all good_seg (SplitByte CHR ''/'' p)" "CHR 0x5C \<notin> set p" "p \<noteq> []" using q g by simp_all
qed

text \<open>The first segment of the normalized prefix is itself an eligible namespace.\<close>

lemma prefix_top_eligible:
  assumes "NormalizePrefix (SharePrefix c) = Inr pre"
  shows "IsEligibleNamespace c (hd (SplitByte CHR ''/'' pre))"
proof -
  let ?top = "hd (SplitByte CHR ''/'' pre)"
  have top: "?top \<in> set (SplitByte CHR ''/'' pre)" by simp
  have "good_seg ?top" using NormalizePrefix_segs(1) [OF assms] top by (auto simp: list_all_iff)
  moreover have "set ?top \<subseteq> set pre"
  proof -
    have "?top = fst (CutByte pre CHR ''/'')" by (simp add: CutByte_first)
    then show ?thesis by (auto simp: CutByte_def dest: set_takeWhileD)
  qed
  ultimately show ?thesis
    using NormalizePrefix_segs(2) [OF assms] assms
    by (auto simp: IsEligibleNamespace_def good_seg_def)
qed

lemma eligible_iff:
  assumes "NormalizePrefix (SharePrefix c) = Inr pre"
  shows "IsEligibleNamespace c name
    \<longleftrightarrow> name = hd (SplitByte CHR ''/'' pre) \<or> usernamePattern name"
proof -
  have "usernamePattern name \<Longrightarrow> good_seg name \<and> CHR 0x5C \<notin> set name"
    using usernamePattern_chars [of name]
    by (auto simp: usernamePattern_good_seg list_all_iff lower_letter_def is_digit_def in_range_def)
  then show ?thesis
    using prefix_top_eligible [OF assms] assms
    by (auto simp: IsEligibleNamespace_def good_seg_def split: if_splits)
qed

section \<open>Validation\<close>

lemma config_Validate_None:
  "config_Validate c = None \<longleftrightarrow>
     IsAbs (ContainerRoot c) \<and> (\<exists>p. NormalizePrefix (SharePrefix c) = Inr p)
     \<and> HashTarget c \<in> {''file'', ''filename''} \<and> supported (HashAlgorithm c)
     \<and> PublicURL c \<noteq> [] \<and> Atoi (Port c) \<noteq> None \<and> AdminToken c \<noteq> []
     \<and> IsAbs (LinksDir c) \<and> (SharedPath c = [] \<or> IsAbs (SharedPath c)) \<and> Atoi (WebGID c) \<noteq> None"
  by (auto simp: config_Validate_def supported_def MD5_def SHA256_def IsAbs_def split: sum.splits)

lemma loadFromEnv_valid: "loadFromEnv getenv = Inr c \<Longrightarrow> config_Validate c = None"
  by (auto simp: loadFromEnv_def Let_def split: option.splits)

lemma NamespaceRoot_abs: "IsAbs (ContainerRoot c) \<Longrightarrow> NamespaceRoot c = abs_path (path_elems (ContainerRoot c))"
  by (simp add: NamespaceRoot_def Clean_abs)

end
