(* ===== verification/Store_Pkg.thy ===== *)
theory Store_Pkg
  imports Config_Pkg
begin

text \<open>
  The package \<open>internal/store\<close>: the scan of the share tree, its content-hash cache, the
  listing, and the resolution of a pair of hashes to one file on disk. Each operation
  holds the store's mutex from start to end, so an operation is a function from the store
  and the file system it runs against to the new store and a result.
\<close>

section \<open>State\<close>

record Entry =
  LogicalPath :: string
  LogicalDir :: string
  DirHash :: string
  FileHash :: string
  EntrySize :: int

record fileCache =
  fc_size :: int
  fc_mtime :: int
  fc_hash :: string

type_synonym cache = "string \<rightharpoonup> fileCache"

record Store =
  st_cfg :: Config
  st_cache :: cache

datatype store_error =
    Store_ErrNotFound
  | Store_ErrConflict
  | Store_ErrInvalid
  | IOErr ioerr
  | HashErr hash_error

fun err_hidden :: "store_error \<Rightarrow> bool" where
  "err_hidden (IOErr e) = (IsPermission e \<or> IsNotExist e)"
| "err_hidden _ = False"

definition store_New :: "Config \<Rightarrow> Store" where
  "store_New cfg = \<lparr>st_cfg = cfg, st_cache = Map.empty\<rparr>"

definition store_NamespaceRoot :: "Store \<Rightarrow> string" where
  "store_NamespaceRoot s = NamespaceRoot (st_cfg s)"

definition store_Check :: "node \<Rightarrow> Store \<Rightarrow> (config_error, unit) result" where
  "store_Check fs s = CheckFilesystem fs (st_cfg s)"

text \<open>Swapping in another configuration drops the cache.\<close>

definition setConfigLocked :: "Config \<Rightarrow> Store \<Rightarrow> Store" where
  "setConfigLocked cfg s =
     (if st_cfg s \<noteq> cfg then s\<lparr>st_cfg := cfg, st_cache := Map.empty\<rparr> else s)"

section \<open>The scan\<close>

definition cache_key :: "Config \<Rightarrow> string \<Rightarrow> string" where
  "cache_key cfg p = p @ [CHR 0x00] @ HashAlgorithm cfg @ [CHR 0x00] @ HashTarget cfg"

text \<open>
  \<open>contentHash\<close>: the file is given by what opening and reading it yields, its content and
  its modification time.
\<close>

definition contentHash ::
    "Config \<Rightarrow> string \<Rightarrow> ioerr option \<Rightarrow> string \<Rightarrow> int \<Rightarrow> cache \<Rightarrow> cache \<times> (store_error, string) result" where
  "contentHash cfg p err content mtime cache =
     (let key = cache_key cfg p;
          fresh = (case err of
              Some e \<Rightarrow> (cache, Inl (IOErr e))
            | None \<Rightarrow>
                (case hash_Reader (Inr content) (HashAlgorithm cfg) of
                   Inl e \<Rightarrow> (cache, Inl (HashErr e))
                 | Inr h \<Rightarrow>
                     (cache(key \<mapsto> \<lparr>fc_size = int (length content), fc_mtime = mtime, fc_hash = h\<rparr>), Inr h)))
      in case cache key of
           Some c \<Rightarrow> if fc_size c = int (length content) \<and> fc_mtime c = mtime then (cache, Inr (fc_hash c)) else fresh
         | None \<Rightarrow> fresh)"

type_synonym walk_state = "cache \<times> Entry list"

text \<open>The callback of \<open>scanNamespace\<close> on a regular file.\<close>

definition walkFile ::
    "Config \<Rightarrow> string \<Rightarrow> string \<Rightarrow> string \<Rightarrow> string \<Rightarrow> ioerr option \<Rightarrow> string \<Rightarrow> int
     \<Rightarrow> walk_state \<Rightarrow> walk_state \<times> store_error option" where
  "walkFile cfg nsRoot ns p name err content mtime st =
     (case Rel nsRoot p of
        None \<Rightarrow> (st, None)
      | Some rel \<Rightarrow>
          let dir = Dir rel;
              logicalDir = (if dir = ''.'' then ns else ns @ ''/'' @ dir);
              logicalPath = logicalDir @ ''/'' @ name;
              entry = (\<lambda>dh fh. \<lparr>LogicalPath = logicalPath, LogicalDir = logicalDir, DirHash = dh,
                                FileHash = fh, EntrySize = int (length content)\<rparr>)
          in case hash_Directory logicalDir (HashAlgorithm cfg) of
               Inl _ \<Rightarrow> (st, None)
             | Inr dirHash \<Rightarrow>
                 if HashTarget cfg = ''filename'' then
                   (case hash_Filename name (HashAlgorithm cfg) of
                      Inl _ \<Rightarrow> (st, None)
                    | Inr fileHash \<Rightarrow> ((fst st, snd st @ [entry dirHash fileHash]), None))
                 else
                   (case contentHash cfg p err content mtime (fst st) of
                      (cache', Inl e) \<Rightarrow>
                        ((cache', snd st), if err_hidden e then None else Some e)
                    | (cache', Inr fileHash) \<Rightarrow> ((cache', snd st @ [entry dirHash fileHash]), None)))"

text \<open>
  \<open>filepath.WalkDir\<close> with that callback, below one directory. An error of listing a
  directory goes to the callback, which hides a missing or forbidden directory. The
  entries of a directory that cannot be searched are visited, but each of them fails its
  \<open>Info\<close> or its own listing with a permission error, which the callback hides.
\<close>

fun walkDir ::
    "Config \<Rightarrow> string \<Rightarrow> string \<Rightarrow> string \<Rightarrow> string \<Rightarrow> node \<Rightarrow> walk_state \<Rightarrow> walk_state \<times> store_error option"
and walkList ::
    "Config \<Rightarrow> string \<Rightarrow> string \<Rightarrow> string \<Rightarrow> (string \<times> node) list \<Rightarrow> walk_state
     \<Rightarrow> walk_state \<times> store_error option" where
  "walkDir cfg nsRoot ns p name (NDir err srch ch) st =
     (case err of
        Some e \<Rightarrow> if IsPermission e \<or> IsNotExist e then (st, None) else (st, Some (IOErr e))
      | None \<Rightarrow> if srch then walkList cfg nsRoot ns p ch st else (st, None))"
| "walkDir cfg nsRoot ns p name (NFile err content mtime) st =
     walkFile cfg nsRoot ns p name err content mtime st"
| "walkDir cfg nsRoot ns p name (NSymlink target) st = (st, None)"
| "walkDir cfg nsRoot ns p name NSpecial st = (st, None)"
| "walkList cfg nsRoot ns p [] st = (st, None)"
| "walkList cfg nsRoot ns p ((nm, n) # rest) st =
     (case walkDir cfg nsRoot ns (FJoin p nm) nm n st of
        (st', Some e) \<Rightarrow> (st', Some e)
      | (st', None) \<Rightarrow> walkList cfg nsRoot ns p rest st')"

text \<open>The loop of \<open>scan\<close> over the top-level directories; \<open>srch\<close>: the root can be searched.\<close>

fun scanTop ::
    "Config \<Rightarrow> string \<Rightarrow> bool \<Rightarrow> (string \<times> node) list \<Rightarrow> walk_state \<Rightarrow> walk_state \<times> store_error option" where
  "scanTop cfg root srch [] st = (st, None)"
| "scanTop cfg root srch ((nm, n) # rest) st =
     (if \<not> is_dir n \<or> \<not> IsEligibleNamespace cfg nm then scanTop cfg root srch rest st
      else if \<not> srch then scanTop cfg root srch rest st
      else (case walkDir cfg (FJoin root nm) nm (FJoin root nm) nm n st of
              (st', Some e) \<Rightarrow> (st', Some e)
            | (st', None) \<Rightarrow> scanTop cfg root srch rest st'))"

definition scan :: "node \<Rightarrow> Store \<Rightarrow> Store \<times> (store_error, Entry list) result" where
  "scan fs s =
     (let root = store_NamespaceRoot s in
      case ReadDir fs root of
        Inl e \<Rightarrow> (s, if IsNotExist e \<or> IsPermission e then Inr [] else Inl (IOErr e))
      | Inr (srch, tops) \<Rightarrow>
          (case scanTop (st_cfg s) root srch tops (st_cache s, []) of
             ((cache', entries), err) \<Rightarrow>
               (s\<lparr>st_cache := cache'\<rparr>,
                case err of Some e \<Rightarrow> Inl e | None \<Rightarrow> Inr (sort_key LogicalPath entries))))"

definition store_List :: "node \<Rightarrow> Store \<Rightarrow> Store \<times> (store_error, Entry list) result" where
  "store_List fs s = scan fs s"

definition ListWith :: "node \<Rightarrow> Config \<Rightarrow> Store \<Rightarrow> Store \<times> (store_error, Entry list) result" where
  "ListWith fs cfg s = scan fs (setConfigLocked cfg s)"

section \<open>Resolution\<close>

definition withinRoot :: "string \<Rightarrow> string \<Rightarrow> bool" where
  "withinRoot root p =
     (let rootClean = Clean root; absClean = Clean p in
      if absClean = rootClean then False
      else (case Rel rootClean absClean of
              None \<Rightarrow> False
            | Some rel \<Rightarrow> rel \<noteq> ''.'' \<and> rel \<noteq> ''..'' \<and> \<not> HasPrefix rel ''../''))"

definition openPath :: "node \<Rightarrow> Store \<Rightarrow> Entry \<Rightarrow> (store_error, string) result" where
  "openPath fs s e =
     (let root = store_NamespaceRoot s;
          clean = TrimPrefix (Clean (''/'' @ LogicalPath e)) ''/''
      in if clean = [] \<or> clean = ''.'' \<or> clean = ''..'' then Inl Store_ErrNotFound
         else (let ns = fst (CutByte clean CHR ''/'') in
           if \<not> IsEligibleNamespace (st_cfg s) ns then Inl Store_ErrNotFound
           else (let abs = FJoin root clean in
             if \<not> withinRoot root abs then Inl Store_ErrNotFound
             else (case EvalSymlinks fs abs of
                 Inl err \<Rightarrow> Inl (if IsNotExist err then Store_ErrNotFound else IOErr err)
               | Inr resolved \<Rightarrow>
                   if \<not> withinRoot root resolved then Inl Store_ErrNotFound
                   else (case Rel root resolved of
                       None \<Rightarrow> Inl Store_ErrNotFound
                     | Some rel \<Rightarrow>
                         if \<not> IsEligibleNamespace (st_cfg s) (fst (CutByte rel CHR ''/''))
                         then Inl Store_ErrNotFound
                         else (case Lstat fs resolved of
                             Inl err \<Rightarrow> Inl (if IsNotExist err then Store_ErrNotFound else IOErr err)
                           | Inr st \<Rightarrow>
                               if is_symlink st \<or> \<not> is_regular st then Inl Store_ErrNotFound
                               else Inr resolved))))))"

definition resolveLocked ::
    "node \<Rightarrow> string \<Rightarrow> string \<Rightarrow> Store \<Rightarrow> Store \<times> (store_error, string \<times> Entry) result" where
  "resolveLocked fs dirHash fileHash s =
     (if \<not> ValidHex dirHash (HashAlgorithm (st_cfg s)) \<or> \<not> ValidHex fileHash (HashAlgorithm (st_cfg s))
      then (s, Inl Store_ErrInvalid)
      else (case scan fs s of
          (s', Inl err) \<Rightarrow> (s', Inl err)
        | (s', Inr entries) \<Rightarrow>
            (s', case filter (\<lambda>e. DirHash e = dirHash \<and> FileHash e = fileHash) entries of
                   [] \<Rightarrow> Inl Store_ErrNotFound
                 | [e] \<Rightarrow> (case openPath fs s' e of Inl err \<Rightarrow> Inl err | Inr p \<Rightarrow> Inr (p, e))
                 | _ \<Rightarrow> Inl Store_ErrConflict)))"

definition store_Resolve ::
    "node \<Rightarrow> string \<Rightarrow> string \<Rightarrow> Store \<Rightarrow> Store \<times> (store_error, string \<times> Entry) result" where
  "store_Resolve fs dirHash fileHash s = resolveLocked fs dirHash fileHash s"

definition ResolveWith ::
    "node \<Rightarrow> Config \<Rightarrow> string \<Rightarrow> string \<Rightarrow> Store \<Rightarrow> Store \<times> (store_error, string \<times> Entry) result" where
  "ResolveWith fs cfg dirHash fileHash s = resolveLocked fs dirHash fileHash (setConfigLocked cfg s)"

end
