(* ===== verification/Store_Scan.thy ===== *)
theory Store_Scan
  imports Store_Pkg
begin

text \<open>
  What the scan computes. The reference is a listing with no cache and no walk: the files
  of the share tree in directory order (\<open>files_of\<close>), each turned into its entry by
  \<open>spec_entry\<close>. A scan whose cache tracks the tree returns exactly that listing, sorted, and
  keeps the cache invariant; it fails exactly when a directory or file that it has to read
  fails with an error other than a missing or forbidden file.
\<close>

section \<open>The reference listing\<close>

type_synonym file_info = "string list \<times> ioerr option \<times> string \<times> int"

fun files_of :: "node \<Rightarrow> file_info list"
and files_list :: "(string \<times> node) list \<Rightarrow> file_info list" where
  "files_of (NDir err srch ch) = (if err = None \<and> srch then files_list ch else [])"
| "files_of (NFile e c t) = [([], e, c, t)]"
| "files_of (NSymlink target) = []"
| "files_of NSpecial = []"
| "files_list [] = []"
| "files_list ((nm, n) # rest) = map (\<lambda>(segs, f). (nm # segs, f)) (files_of n) @ files_list rest"

text \<open>Some directory or file the walk reads fails with an error that is not hidden.\<close>

fun faulty :: "bool \<Rightarrow> node \<Rightarrow> bool"
and faulty_list :: "bool \<Rightarrow> (string \<times> node) list \<Rightarrow> bool" where
  "faulty content (NDir err srch ch) =
     (case err of Some e \<Rightarrow> \<not> (IsPermission e \<or> IsNotExist e) | None \<Rightarrow> srch \<and> faulty_list content ch)"
| "faulty content (NFile e c t) =
     (content \<and> (case e of Some e \<Rightarrow> \<not> (IsPermission e \<or> IsNotExist e) | None \<Rightarrow> False))"
| "faulty content (NSymlink target) = False"
| "faulty content NSpecial = False"
| "faulty_list content [] = False"
| "faulty_list content ((nm, n) # rest) = (faulty content n \<or> faulty_list content rest)"

lemma visible_fault: "\<not> (IsPermission e \<or> IsNotExist e) \<longleftrightarrow> e = EOther"
  by (cases e) (simp_all add: IsPermission_def IsNotExist_def)

definition hash_of :: "string \<Rightarrow> string \<Rightarrow> string" where
  "hash_of algorithm s = hex (if algorithm = MD5 then MD5_Sum s else Sum256 s)"

fun spec_entry :: "Config \<Rightarrow> file_info \<Rightarrow> Entry option" where
  "spec_entry cfg (segs, e, c, t) =
     (let entry = (\<lambda>fh. \<lparr>LogicalPath = Join segs ''/'', LogicalDir = Join (butlast segs) ''/'',
          DirHash = hash_of (HashAlgorithm cfg) (Join (butlast segs) ''/''),
          FileHash = fh, EntrySize = int (length c)\<rparr>)
      in if HashTarget cfg = ''filename'' then Some (entry (hash_of (HashAlgorithm cfg) (last segs)))
         else if e = None then Some (entry (hash_of (HashAlgorithm cfg) c))
         else None)"

definition ns_files :: "Config \<Rightarrow> (string \<times> node) list \<Rightarrow> file_info list" where
  "ns_files cfg ch =
     concat (map (\<lambda>(nm, n). if is_dir n \<and> IsEligibleNamespace cfg nm
       then map (\<lambda>(segs, f). (nm # segs, f)) (files_of n) else []) ch)"

definition ns_faulty :: "Config \<Rightarrow> (string \<times> node) list \<Rightarrow> bool" where
  "ns_faulty cfg ch =
     list_ex (\<lambda>(nm, n). is_dir n \<and> IsEligibleNamespace cfg nm
       \<and> faulty (HashTarget cfg \<noteq> ''filename'') n) ch"

section \<open>The cache\<close>

text \<open>
  What the scan needs of its cache, as an invariant \<open>I\<close> of the cache over a share tree: an
  entry that matches the size and the modification time of a file holds the hash of the
  content the file has, and recording a file of the tree keeps the invariant.
\<close>

definition record_file :: "Config \<Rightarrow> string list \<Rightarrow> string list \<Rightarrow> string \<Rightarrow> int \<Rightarrow> cache \<Rightarrow> cache" where
  "record_file cfg R segs c t cache =
     cache(cache_key cfg (abs_path (R @ segs)) \<mapsto>
       \<lparr>fc_size = int (length c), fc_mtime = t, fc_hash = hash_of (HashAlgorithm cfg) c\<rparr>)"

definition tracks :: "Config \<Rightarrow> string list \<Rightarrow> node \<Rightarrow> (cache \<Rightarrow> bool) \<Rightarrow> bool" where
  "tracks cfg R tree I \<longleftrightarrow>
     (\<forall>cache segs e c t fc. I cache \<longrightarrow> get_node tree segs = Some (NFile e c t)
        \<longrightarrow> cache (cache_key cfg (abs_path (R @ segs))) = Some fc
        \<longrightarrow> fc_size fc = int (length c) \<longrightarrow> fc_mtime fc = t
        \<longrightarrow> e = None \<and> fc_hash fc = hash_of (HashAlgorithm cfg) c)
     \<and> (\<forall>cache segs c t. I cache \<longrightarrow> get_node tree segs = Some (NFile None c t)
        \<longrightarrow> I (record_file cfg R segs c t cache))"

lemma hash_String_of: "supported a \<Longrightarrow> hash_String s a = Inr (hash_of a s)"
  by (auto simp: supported_def hash_String_def hash_New_def hash_of_def)

lemma hash_of_ValidHex: "supported a \<Longrightarrow> ValidHex (hash_of a s) a"
  using hash_String_ValidHex hash_String_of by blast

lemma cache_key_inject: "cache_key cfg p = cache_key cfg q \<longleftrightarrow> p = q"
  by (simp add: cache_key_def)

lemma contentHash_tracks:
  assumes I: "I cache" and tr: "tracks cfg R tree I" and sup: "supported (HashAlgorithm cfg)"
    and f: "get_node tree segs = Some (NFile e c t)"
  shows "\<exists>cache'. contentHash cfg (abs_path (R @ segs)) e c t cache =
            (cache', case e of None \<Rightarrow> Inr (hash_of (HashAlgorithm cfg) c) | Some err \<Rightarrow> Inl (IOErr err))
          \<and> I cache'"
proof -
  let ?key = "cache_key cfg (abs_path (R @ segs))"
  have hit: "e = None \<and> fc_hash fc = hash_of (HashAlgorithm cfg) c"
    if "cache ?key = Some fc" "fc_size fc = int (length c)" "fc_mtime fc = t" for fc
    using tr I f that unfolding tracks_def by blast
  have upd: "I (record_file cfg R segs c t cache)" if "e = None"
    using tr I f that unfolding tracks_def by blast
  show ?thesis
    using hit upd I hash_String_of [OF sup]
    by (auto simp: contentHash_def Let_def hash_Reader_content record_file_def split: option.splits)
qed

section \<open>One file\<close>

lemma Join_not_dot:
  assumes "list_all good_seg xs"
  shows "Join xs ''/'' \<noteq> ''.''"
proof
  assume "Join xs ''/'' = ''.''"
  then have "xs \<noteq> []" "SplitByte CHR ''/'' (Join xs ''/'') = [''.'']" by auto
  then show False using assms by (simp add: SplitByte_Join_good good_seg_def)
qed

lemma Join_not_abs: "list_all good_seg xs \<Longrightarrow> \<not> HasPrefix (Join xs ''/'') ''/''"
proof -
  assume g: "list_all good_seg xs"
  show ?thesis
  proof (cases xs)
    case (Cons s ss)
    then show ?thesis using g by (cases s; cases ss) (auto simp: good_seg_def)
  qed simp
qed

lemma Join_Cons_slash: "xs \<noteq> [] \<Longrightarrow> Join (x # xs) ''/'' = x @ ''/'' @ Join xs ''/''"
  by (cases xs) auto

lemma hash_Directory_segs:
  assumes "list_all good_seg xs" "xs \<noteq> []" "supported a"
  shows "hash_Directory (Join xs ''/'') a = Inr (hash_of a (Join xs ''/''))"
proof -
  have "Join xs ''/'' \<noteq> []" using assms by (auto simp: Join_eq_Nil good_seg_def)
  then show ?thesis
    using assms Join_not_dot Join_not_abs by (simp add: hash_Directory_ok hash_String_of)
qed

text \<open>What one step of the walk does to the state, for the files it is responsible for.\<close>

definition walk_ok ::
    "Config \<Rightarrow> (cache \<Rightarrow> bool) \<Rightarrow> walk_state \<Rightarrow> walk_state \<times> store_error option
     \<Rightarrow> file_info list \<Rightarrow> bool \<Rightarrow> bool" where
  "walk_ok cfg I st res files fault \<longleftrightarrow>
     I (fst (fst res))
     \<and> (if fault then snd res = Some (IOErr EOther)
        else snd res = None \<and> snd (fst res) = snd st @ List.map_filter (spec_entry cfg) files)"

lemma walk_ok_nothing: "I (fst st) \<Longrightarrow> walk_ok cfg I st (st, None) [] False"
  by (simp add: walk_ok_def)

text \<open>
  The setting of a scan: a supported algorithm, the elements \<open>R\<close> of the share root, and the
  share tree found there, which is a real directory tree, with a cache invariant.
\<close>

definition scan_setting :: "Config \<Rightarrow> string list \<Rightarrow> node \<Rightarrow> (cache \<Rightarrow> bool) \<Rightarrow> bool" where
  "scan_setting cfg R tree I \<longleftrightarrow>
     supported (HashAlgorithm cfg) \<and> wf_node tree \<and> list_all good_seg R \<and> tracks cfg R tree I"

lemma walkFile_ok:
  assumes "scan_setting cfg R tree I"
    and "I (fst st)" "get_node tree (ns # segs) = Some (NFile e c t)"
    and "segs \<noteq> []"
  shows "walk_ok cfg I st
     (walkFile cfg (abs_path (R @ [ns])) ns (abs_path (R @ ns # segs)) (last segs) e c t st)
     [(ns # segs, e, c, t)] (faulty (HashTarget cfg \<noteq> ''filename'') (NFile e c t))"
proof -
  have alg: "supported (HashAlgorithm cfg)" and tree_wf: "wf_node tree" and root_good: "list_all good_seg R"
    and tr: "tracks cfg R tree I"
    using assms(1) by (simp_all add: scan_setting_def)
  have g: "list_all good_seg (ns # segs)" using wf_node_get [OF tree_wf assms(3)] by simp
  obtain ini name where s: "segs = ini @ [name]" using assms(4) by (cases segs rule: rev_cases) auto
  have gs: "list_all good_seg ini" "good_seg name" "good_seg ns" using g s by simp_all
  have rel: "Rel (abs_path (R @ [ns])) (abs_path (R @ ns # segs)) = Some (Join segs ''/'')"
    using Rel_abs_path [of "R @ [ns]" segs] root_good g assms(4) by simp
  have dir: "(if Dir (Join segs ''/'') = ''.'' then ns else ns @ ''/'' @ Dir (Join segs ''/''))
               = Join (ns # ini) ''/''"
    using Dir_snoc [OF gs(1,2)] Join_not_dot [OF gs(1)] s by (auto simp: Join_Cons_slash)
  have lp: "Join (ns # ini) ''/'' @ ''/'' @ name = Join (ns # segs) ''/''"
    using Join_snoc [of "ns # ini" name] s by simp
  have dh: "hash_Directory (Join (ns # ini) ''/'') (HashAlgorithm cfg)
              = Inr (hash_of (HashAlgorithm cfg) (Join (ns # ini) ''/''))"
    using hash_Directory_segs [of "ns # ini"] gs alg by simp
  have fh: "hash_Filename name (HashAlgorithm cfg) = Inr (hash_of (HashAlgorithm cfg) name)"
    using gs(2) alg by (simp add: hash_Filename_ok good_seg_def hash_String_of)
  obtain cache' where ch: "contentHash cfg (abs_path (R @ ns # segs)) e c t (fst st) =
        (cache', case e of None \<Rightarrow> Inr (hash_of (HashAlgorithm cfg) c) | Some err \<Rightarrow> Inl (IOErr err))"
      "I cache'"
    using contentHash_tracks [OF assms(2) tr alg assms(3)] by auto
  have bl: "butlast (ns # segs) = ns # ini" "last (ns # segs) = name" "last segs = name" using s by simp_all
  show ?thesis
    unfolding walk_ok_def walkFile_def rel option.case Let_def dir bl(3) dh sum.case lp fh
    using ch assms(2) bl
    by (auto simp: List.map_filter_def visible_fault [symmetric] split: option.splits)
qed

section \<open>The walk\<close>

text \<open>Two steps one after the other, the second only when the first did not fail.\<close>

lemma map_filter_app: "List.map_filter f (xs @ ys) = List.map_filter f xs @ List.map_filter f ys"
  by (simp add: List.map_filter_def)

lemma walk_ok_seq:
  assumes "walk_ok cfg I st res1 files1 fault1"
    and "snd res1 = None \<Longrightarrow> walk_ok cfg I (fst res1) res2 files2 fault2"
  shows "walk_ok cfg I st
     (case res1 of (st', Some e) \<Rightarrow> (st', Some e) | (st', None) \<Rightarrow> res2)
     (files1 @ files2) (fault1 \<or> fault2)"
proof (cases "snd res1")
  case None
  then obtain st' where r: "res1 = (st', None)" by (cases res1) auto
  then have "\<not> fault1" using assms(1) by (auto simp: walk_ok_def split: if_splits)
  then show ?thesis
    using assms r by (auto simp: walk_ok_def map_filter_app split: if_splits)
next
  case (Some e)
  then obtain st' where r: "res1 = (st', Some e)" by (cases res1) auto
  then have "fault1" using assms(1) by (auto simp: walk_ok_def split: if_splits)
  then show ?thesis using assms(1) r by (auto simp: walk_ok_def)
qed

lemma walk_ok_inv: "walk_ok cfg I st res files fault \<Longrightarrow> I (fst (fst res))"
  by (simp add: walk_ok_def)

text \<open>The elements of a directory listing, found again by name.\<close>

definition children_at :: "node \<Rightarrow> string list \<Rightarrow> (string \<times> node) list \<Rightarrow> bool" where
  "children_at tree at ch \<longleftrightarrow> (\<forall>(nm, n) \<in> set ch. get_node tree (at @ [nm]) = Some n \<and> good_seg nm)"

lemma sorted_wrt_less_distinct: "sorted_wrt (<) (xs :: 'a::linorder list) \<Longrightarrow> distinct xs"
  by (induction xs) auto

lemma children_at_dir:
  assumes "wf_node tree" "get_node tree at = Some (NDir e s ch)"
  shows "children_at tree at ch"
proof -
  have "wf_node (NDir e s ch)" using wf_node_get [OF assms] by simp
  then have "distinct (map fst ch)" "\<forall>(nm, n) \<in> set ch. good_seg nm"
    using sorted_wrt_less_distinct by (auto simp: list_all_iff)
  then show ?thesis
    using assms(2) by (auto simp: children_at_def get_node_append split: option.splits)
qed

lemma walk_correct:
  "scan_setting cfg R tree I \<Longrightarrow> I (fst st) \<Longrightarrow> get_node tree (ns # segs) = Some n
   \<Longrightarrow> is_dir n \<or> segs \<noteq> [] \<Longrightarrow> nsRoot = abs_path (R @ [ns]) \<Longrightarrow> p = abs_path (R @ ns # segs)
   \<Longrightarrow> segs \<noteq> [] \<longrightarrow> name = last segs
   \<Longrightarrow> walk_ok cfg I st (walkDir cfg nsRoot ns p name n st)
        (map (\<lambda>(s, f). (ns # segs @ s, f)) (files_of n)) (faulty (HashTarget cfg \<noteq> ''filename'') n)"
  "scan_setting cfg R tree I \<Longrightarrow> I (fst st) \<Longrightarrow> children_at tree (ns # segs) ch
   \<Longrightarrow> list_all good_seg (ns # segs) \<Longrightarrow> nsRoot = abs_path (R @ [ns]) \<Longrightarrow> p = abs_path (R @ ns # segs)
   \<Longrightarrow> walk_ok cfg I st (walkList cfg nsRoot ns p ch st)
        (map (\<lambda>(s, f). (ns # segs @ s, f)) (files_list ch)) (faulty_list (HashTarget cfg \<noteq> ''filename'') ch)"
proof (induction cfg nsRoot ns p name n st and cfg nsRoot ns p ch st arbitrary: segs and segs
    rule: walkDir_walkList.induct)
  case (1 cfg nsRoot ns p name err srch ch st)
  have wf: "wf_node tree" using 1 by (simp add: scan_setting_def)
  have ch: "children_at tree (ns # segs) ch" "list_all good_seg (ns # segs)"
    using children_at_dir [OF wf] wf_node_get [OF wf] "1.prems" by blast+
  show ?case
  proof (cases err)
    case None
    then show ?thesis
      using 1 ch by (cases srch) (auto simp: walk_ok_nothing)
  next
    case (Some e)
    then show ?thesis using "1.prems" by (cases e) (auto simp: walk_ok_def IsPermission_def IsNotExist_def)
  qed
next
  case (2 cfg nsRoot ns p name err content mtime st)
  then show ?case using walkFile_ok [OF 2(1-3)] by auto
next
  case (6 cfg nsRoot ns p nm n rest st)
  have root: "list_all good_seg R" using 6 by (simp add: scan_setting_def)
  have nm: "get_node tree (ns # segs @ [nm]) = Some n" "good_seg nm" "children_at tree (ns # segs) rest"
    using "6.prems"(3) by (auto simp: children_at_def)
  have p: "FJoin p nm = abs_path (R @ ns # segs @ [nm])"
    using "6.prems"(4,6) root nm(2) FJoin_abs [of p nm] by simp
  have 1: "walk_ok cfg I st (walkDir cfg nsRoot ns (FJoin p nm) nm n st)
      (map (\<lambda>(s, f). (ns # (segs @ [nm]) @ s, f)) (files_of n)) (faulty (HashTarget cfg \<noteq> ''filename'') n)"
    using "6.IH"(1) [of "segs @ [nm]"] "6.prems" nm p by simp
  have 2: "walk_ok cfg I (fst r) (walkList cfg nsRoot ns p rest (fst r))
      (map (\<lambda>(s, f). (ns # segs @ s, f)) (files_list rest)) (faulty_list (HashTarget cfg \<noteq> ''filename'') rest)"
    if "r = walkDir cfg nsRoot ns (FJoin p nm) nm n st" "snd r = None" for r
  proof -
    have r: "walkDir cfg nsRoot ns (FJoin p nm) nm n st = (fst r, None)"
      using that by (metis prod.collapse)
    show ?thesis
      using "6.IH"(2) [OF r [symmetric] refl "6.prems"(1) _ nm(3) "6.prems"(4-6)]
        walk_ok_inv [OF 1] that by simp
  qed
  show ?case
    using walk_ok_seq [OF 1 2 [OF refl]]
    by (simp add: case_prod_unfold comp_def split: option.splits)
qed (auto simp: walk_ok_nothing)

section \<open>The scan\<close>

lemma scanTop_correct:
  assumes "scan_setting cfg R tree I" "root = abs_path R"
  shows "I (fst st) \<Longrightarrow> children_at tree [] ch \<Longrightarrow>
    walk_ok cfg I st (scanTop cfg root True ch st) (ns_files cfg ch) (ns_faulty cfg ch)"
proof (induction ch arbitrary: st)
  case Nil
  then show ?case by (simp add: ns_files_def ns_faulty_def walk_ok_nothing)
next
  case (Cons a ch)
  obtain nm n where a: "a = (nm, n)" by (cases a)
  have c: "children_at tree [] ch" "get_node tree [nm] = Some n" "good_seg nm"
    using Cons.prems(2) a by (auto simp: children_at_def)
  show ?case
  proof (cases "is_dir n \<and> IsEligibleNamespace cfg nm")
    case False
    then show ?thesis
      using Cons.IH [OF Cons.prems(1) c(1)] a by (auto simp: ns_files_def ns_faulty_def)
  next
    case True
    have R: "list_all good_seg R" using assms(1) by (simp add: scan_setting_def)
    have p: "FJoin root nm = abs_path (R @ [nm])" using FJoin_abs [of root nm] assms(2) R c(3) by simp
    have 1: "walk_ok cfg I st (walkDir cfg (FJoin root nm) nm (FJoin root nm) nm n st)
        (map (\<lambda>(s, f). (nm # s, f)) (files_of n)) (faulty (HashTarget cfg \<noteq> ''filename'') n)"
      using walk_correct(1) [OF assms(1) Cons.prems(1), of nm "[]" n] True c p by simp
    have 2: "walk_ok cfg I (fst r) (scanTop cfg root True ch (fst r)) (ns_files cfg ch) (ns_faulty cfg ch)"
      if "r = walkDir cfg (FJoin root nm) nm (FJoin root nm) nm n st" for r
      using Cons.IH [OF _ c(1)] walk_ok_inv [OF 1] that by simp
    show ?thesis
      using walk_ok_seq [OF 1 2 [OF refl]] True a
      by (simp add: ns_files_def ns_faulty_def case_prod_unfold split: option.splits)
  qed
qed

lemma scanTop_unsearchable: "scanTop cfg root False ch st = (st, None)"
  by (induction ch) auto

text \<open>The reference result of a scan of the listing \<open>(srch, ch)\<close> of the share root.\<close>

definition spec_list :: "Config \<Rightarrow> bool \<Rightarrow> (string \<times> node) list \<Rightarrow> Entry list" where
  "spec_list cfg srch ch =
     (if srch then sort_key LogicalPath (List.map_filter (spec_entry cfg) (ns_files cfg ch)) else [])"

lemma scan_correct:
  assumes "IsAbs (ContainerRoot (st_cfg s))" "supported (HashAlgorithm (st_cfg s))"
    and "ReadDir fs (store_NamespaceRoot s) = Inr (srch, ch)" "wf_node (NDir None srch ch)"
    and "tracks (st_cfg s) (path_elems (ContainerRoot (st_cfg s))) (NDir None srch ch) I" "I (st_cache s)"
  shows "\<exists>s' r. scan fs s = (s', r) \<and> st_cfg s' = st_cfg s \<and> I (st_cache s')
    \<and> (if srch \<and> ns_faulty (st_cfg s) ch then r = Inl (IOErr EOther) else r = Inr (spec_list (st_cfg s) srch ch))"
proof -
  let ?cfg = "st_cfg s" let ?R = "path_elems (ContainerRoot (st_cfg s))" let ?tree = "NDir None srch ch"
  have root: "store_NamespaceRoot s = abs_path ?R"
    using assms(1) by (simp add: store_NamespaceRoot_def NamespaceRoot_abs)
  have set: "scan_setting ?cfg ?R ?tree I"
    using assms(1,2,4,5) path_elems_good by (simp add: scan_setting_def)
  obtain cache' es err where r: "scanTop ?cfg (abs_path ?R) srch ch (st_cache s, []) = ((cache', es), err)"
    by (metis surj_pair)
  have "walk_ok ?cfg I (st_cache s, []) ((cache', es), err)
          (if srch then ns_files ?cfg ch else []) (srch \<and> ns_faulty ?cfg ch)"
  proof (cases srch)
    case True
    have "children_at ?tree [] ch" using children_at_dir [OF assms(4), of "[]"] by simp
    then show ?thesis
      using scanTop_correct [OF set refl, of "(st_cache s, [])" ch] assms(6) r True by simp
  next
    case False
    then show ?thesis using r assms(6) by (auto simp: scanTop_unsearchable walk_ok_nothing)
  qed
  then show ?thesis
    using r assms(3) root
    by (auto simp: scan_def Let_def walk_ok_def spec_list_def split: if_splits)
qed

section \<open>Which files are listed\<close>

text \<open>A path through directories that can be listed and searched, to a regular file.\<close>

fun visible :: "node \<Rightarrow> string list \<Rightarrow> bool" where
  "visible (NFile e c t) [] = True"
| "visible (NDir None True ch) (x # xs) =
     (case map_of ch x of None \<Rightarrow> False | Some n \<Rightarrow> visible n xs)"
| "visible _ _ = False"

lemma visible_file: "visible n segs \<Longrightarrow> \<exists>e c t. get_node n segs = Some (NFile e c t)"
  by (induction n segs rule: visible.induct) (auto split: option.splits)

lemma visible_plain: "visible n segs \<Longrightarrow> plain_path n segs"
proof (induction n segs rule: visible.induct)
  case (2 ch x xs)
  then obtain m where m: "map_of ch x = Some m" "visible m xs" by (auto split: option.splits)
  then have "\<not> is_symlink m" by (cases m) auto
  then show ?case using 2 m by simp
qed auto

lemma wf_node_Cons:
  assumes "wf_node (NDir e s ((nm, n) # rest))"
  shows "wf_node n" "wf_node (NDir e s rest)" "map_of rest nm = None" "good_seg nm"
  using assms by (auto simp: map_of_eq_None_iff)

lemma files_of_iff:
  "wf_node n \<Longrightarrow> (segs, e, c, t) \<in> set (files_of n) \<longleftrightarrow> visible n segs \<and> get_node n segs = Some (NFile e c t)"
  "wf_node (NDir None True ch) \<Longrightarrow> (segs, e, c, t) \<in> set (files_list ch)
     \<longleftrightarrow> visible (NDir None True ch) segs \<and> get_node (NDir None True ch) segs = Some (NFile e c t)"
proof (induction n and ch arbitrary: segs and segs rule: files_of_files_list.induct)
  case (1 err srch ch)
  then show ?case by (cases err; cases srch; cases segs) (auto simp del: wf_node.simps)
next
  case (6 nm n rest)
  have w: "wf_node n" "wf_node (NDir None True rest)" "map_of rest nm = None"
    using wf_node_Cons [OF 6(3)] by simp_all
  show ?case
  proof (cases segs)
    case Nil
    then show ?thesis using "6.IH"(2) [OF w(2), of "[]"] by auto
  next
    case (Cons x xs)
    have rest: "(segs, e, c, t) \<in> set (files_list rest) \<longleftrightarrow> x \<noteq> nm \<and>
        visible (NDir None True rest) segs \<and> get_node (NDir None True rest) segs = Some (NFile e c t)"
      using "6.IH"(2) [OF w(2), of segs] w(3) Cons by auto
    have "(segs, e, c, t) \<in> set (map (\<lambda>(s, f). (nm # s, f)) (files_of n))
        \<longleftrightarrow> x = nm \<and> visible n xs \<and> get_node n xs = Some (NFile e c t)"
      using "6.IH"(1) [OF w(1), of xs] Cons by auto
    then show ?thesis using rest Cons by auto
  qed
next
  case (2 e' c' t')
  then show ?case by (cases segs) auto
next
  case (3 target)
  then show ?case by (cases segs) auto
next
  case 4
  then show ?case by (cases segs) auto
next
  case 5
  then show ?case by (cases segs) auto
qed

lemma distinct_files:
  "wf_node n \<Longrightarrow> distinct (map fst (files_of n))"
  "wf_node (NDir None True ch) \<Longrightarrow> distinct (map fst (files_list ch))"
proof (induction n and ch rule: files_of_files_list.induct)
  case (6 nm n rest)
  have w: "wf_node n" "wf_node (NDir None True rest)" "map_of rest nm = None"
    using wf_node_Cons [OF 6(3)] by simp_all
  have "x \<noteq> nm # y" if "x \<in> set (map fst (files_list rest))" for x y
  proof -
    from that obtain e c t where "(x, e, c, t) \<in> set (files_list rest)" by auto
    then have "visible (NDir None True rest) x" using files_of_iff(2) [OF w(2)] by blast
    then show ?thesis using w(3) by (cases x) auto
  qed
  moreover have "distinct (map fst (map (\<lambda>(s, f). (nm # s, f)) (files_of n)))"
    using "6.IH"(1) [OF w(1)] by (simp add: comp_def case_prod_unfold distinct_map inj_on_def)
  ultimately show ?case using "6.IH"(2) [OF w(2)] by fastforce
qed auto

lemma ns_files_iff:
  assumes "wf_node (NDir None True ch)"
  shows "(segs, e, c, t) \<in> set (ns_files cfg ch)
    \<longleftrightarrow> (\<exists>nm rest. segs = nm # rest \<and> rest \<noteq> [] \<and> IsEligibleNamespace cfg nm
          \<and> visible (NDir None True ch) segs \<and> get_node (NDir None True ch) segs = Some (NFile e c t))"
    (is "?L \<longleftrightarrow> ?R")
proof -
  have dist: "distinct (map fst ch)" using assms sorted_wrt_less_distinct by auto
  have wf: "wf_node n" if "(nm, n) \<in> set ch" for nm n using assms that by (auto simp: list_all_iff)
  have "?L \<longleftrightarrow> (\<exists>nm n rest. (nm, n) \<in> set ch \<and> is_dir n \<and> IsEligibleNamespace cfg nm \<and> segs = nm # rest
      \<and> (rest, e, c, t) \<in> set (files_of n))"
    by (auto simp: ns_files_def split: if_splits) force
  also have "\<dots> \<longleftrightarrow> (\<exists>nm n rest. map_of ch nm = Some n \<and> is_dir n \<and> IsEligibleNamespace cfg nm \<and> segs = nm # rest
      \<and> visible n rest \<and> get_node n rest = Some (NFile e c t))"
    using wf files_of_iff(1) map_of_eq_Some_iff [OF dist] by blast
  also have "\<dots> \<longleftrightarrow> ?R"
  proof -
    have "is_dir n \<longleftrightarrow> rest \<noteq> []" if "visible n rest" for n rest
      using that by (cases "(n, rest)" rule: visible.cases) auto
    then show ?thesis by (auto split: option.splits)
  qed
  finally show ?thesis .
qed

lemma ns_files_distinct:
  assumes "wf_node (NDir None True ch)"
  shows "distinct (map fst (ns_files cfg ch))"
  using assms
proof (induction ch)
  case (Cons a ch)
  obtain nm n where a: "a = (nm, n)" by (cases a)
  have w: "wf_node n" "wf_node (NDir None True ch)" "map_of ch nm = None"
    using wf_node_Cons [OF Cons.prems [unfolded a]] by simp_all
  have fresh: "x \<noteq> nm # y" if "x \<in> set (map fst (ns_files cfg ch))" for x y
  proof -
    from that obtain e c t where "(x, e, c, t) \<in> set (ns_files cfg ch)" by auto
    then show ?thesis using ns_files_iff [OF w(2)] w(3) by auto
  qed
  have "distinct (map fst (map (\<lambda>(s, f). (nm # s, f)) (files_of n)))"
    using distinct_files(1) [OF w(1)] by (simp add: comp_def case_prod_unfold distinct_map inj_on_def)
  moreover have "ns_files cfg (a # ch) = (if is_dir n \<and> IsEligibleNamespace cfg nm
      then map (\<lambda>(s, f). (nm # s, f)) (files_of n) else []) @ ns_files cfg ch"
    using a by (simp add: ns_files_def)
  moreover have "set (map fst (map (\<lambda>(s, f). (nm # s, f)) (files_of n))) \<inter> set (map fst (ns_files cfg ch)) = {}"
  proof -
    have "set (map fst (map (\<lambda>(s, f). (nm # s, f)) (files_of n))) \<subseteq> range ((#) nm)" by auto
    then show ?thesis using fresh by blast
  qed
  ultimately show ?case using Cons.IH [OF w(2)] by (simp del: map_map set_map)
qed (simp add: ns_files_def)

lemma spec_entry_path: "spec_entry cfg (segs, e, c, t) = Some en \<Longrightarrow> LogicalPath en = Join segs ''/''"
  by (auto simp: Let_def split: if_splits)

lemma set_map_filter: "set (List.map_filter f xs) = {y. \<exists>x \<in> set xs. f x = Some y}"
  by (force simp: List.map_filter_def)

lemma map_filter_distinct:
  assumes "distinct (map g xs)" "\<And>x y. x \<in> set xs \<Longrightarrow> f x = Some y \<Longrightarrow> h y = k (g x)"
    "inj_on k (g ` set xs)"
  shows "distinct (map h (List.map_filter f xs))"
  using assms
proof (induction xs)
  case (Cons x xs)
  have IH: "distinct (map h (List.map_filter f xs))"
    using Cons by (auto simp: inj_on_def)
  show ?case
  proof (cases "f x")
    case (Some y)
    have "h y \<noteq> h z" if "z \<in> set (List.map_filter f xs)" for z
    proof -
      from that obtain x' where x': "x' \<in> set xs" "f x' = Some z" by (auto simp: set_map_filter)
      have "g x' \<noteq> g x" using Cons.prems(1) x'(1) by (metis distinct.simps(2) image_eqI list.simps(9) set_map)
      moreover have "h y = k (g x)" "h z = k (g x')" using Cons.prems(2) Some x' by auto
      moreover have "g x \<in> g ` set (x # xs)" "g x' \<in> g ` set (x # xs)" using x' by auto
      ultimately show ?thesis using inj_onD [OF Cons.prems(3)] by metis
    qed
    then show ?thesis using IH Some by (auto simp: map_filter_simps)
  qed (use IH in \<open>simp add: map_filter_simps\<close>)
qed (simp add: map_filter_simps)

lemma spec_list_strict:
  assumes "wf_node (NDir None srch ch)"
  shows "sorted_wrt (<) (map LogicalPath (spec_list cfg srch ch))"
proof (cases srch)
  case True
  let ?es = "List.map_filter (spec_entry cfg) (ns_files cfg ch)"
  have wf: "wf_node (NDir None True ch)" using assms True by simp
  have good: "list_all good_seg segs" if "segs \<in> fst ` set (ns_files cfg ch)" for segs
    using that ns_files_iff [OF wf] wf_node_get [OF wf] by fastforce
  have "distinct (map LogicalPath ?es)"
  proof (rule map_filter_distinct [where g = fst and k = "\<lambda>s. Join s ''/''"])
    show "distinct (map fst (ns_files cfg ch))" by (rule ns_files_distinct [OF wf])
    show "LogicalPath y = Join (fst x) ''/''" if "spec_entry cfg x = Some y" for x y
      using that spec_entry_path by (cases x) auto
    show "inj_on (\<lambda>s. Join s ''/'') (fst ` set (ns_files cfg ch))"
      using good Join_inject by (auto simp: inj_on_def)
  qed
  then have "distinct (map LogicalPath (sort_key LogicalPath ?es))"
    by (simp add: distinct_map)
  then show ?thesis
    using True strict_sorted_iff [of "map LogicalPath (sort_key LogicalPath ?es)"]
    by (simp add: spec_list_def)
qed (simp add: spec_list_def)

lemma spec_list_set:
  assumes "wf_node (NDir None srch ch)"
  shows "set (spec_list cfg srch ch) =
    {en. srch \<and> (\<exists>nm rest e c t. rest \<noteq> [] \<and> IsEligibleNamespace cfg nm
       \<and> visible (NDir None True ch) (nm # rest)
       \<and> get_node (NDir None True ch) (nm # rest) = Some (NFile e c t)
       \<and> spec_entry cfg (nm # rest, e, c, t) = Some en)}"
proof (cases srch)
  case True
  then have wf: "wf_node (NDir None True ch)" using assms by simp
  show ?thesis
    using True by (auto simp: spec_list_def set_map_filter ns_files_iff [OF wf] simp del: spec_entry.simps) blast
qed (simp add: spec_list_def)

end
