(* ===== verification/Store_Resolve.thy ===== *)
theory Store_Resolve
  imports Store_Scan
begin

text \<open>
  What the store promises its callers. Resolution never leaves the share root: an opened
  path is a link-free path to a regular file inside an eligible namespace. The listing is
  exactly the set of visible files of the eligible namespaces. A pair of hashes resolves to
  a file exactly when it names one listed entry. The cache is invisible: over any sequence
  of calls and changes of the tree, each answer is the one a new store would give, as long
  as a file keeps its size and modification time only while it keeps its content.
\<close>

section \<open>Containment\<close>

lemma strip_common_split:
  assumes "strip_common a q = (b, t)"
  obtains pre where "a = pre @ b" "q = pre @ t" "b = [] \<or> t = [] \<or> hd b \<noteq> hd t"
proof -
  have "\<exists>pre. a = pre @ b \<and> q = pre @ t \<and> (b = [] \<or> t = [] \<or> hd b \<noteq> hd t)"
    using assms
  proof (induction a q rule: strip_common.induct)
    case (1 x xs y ys)
    then show ?case
    proof (cases "x = y")
      case True
      then obtain pre where "xs = pre @ b" "ys = pre @ t" "b = [] \<or> t = [] \<or> hd b \<noteq> hd t"
        using 1 by auto
      then show ?thesis using True by (intro exI [of _ "x # pre"]) simp
    qed auto
  qed auto
  then show thesis using that by blast
qed

lemma Join_up: "Join (''..'' # xs) ''/'' = ''..'' \<or> HasPrefix (Join (''..'' # xs) ''/'') ''../''"
  by (cases xs) auto

lemma Join_down:
  assumes "list_all good_seg t" "t \<noteq> []"
  shows "Join t ''/'' \<noteq> ''.''" "Join t ''/'' \<noteq> ''..''" "\<not> HasPrefix (Join t ''/'') ''../''"
proof -
  have s: "SplitByte CHR ''/'' (Join t ''/'') = t" using assms by (simp add: SplitByte_Join_good)
  have "hd t \<noteq> ''..''" using assms by (cases t) (auto simp: good_seg_def)
  then show "Join t ''/'' \<noteq> ''..''" using s by auto
  show "\<not> HasPrefix (Join t ''/'') ''../''"
  proof
    assume "HasPrefix (Join t ''/'') ''../''"
    then obtain r where "Join t ''/'' = ''..'' @ CHR ''/'' # r" by (auto simp: HasPrefix_iff)
    then have "t = ''..'' # SplitByte CHR ''/'' r"
      using s SplitByte_append [of "CHR ''/''" "''..''" r] by simp
    then show False using \<open>hd t \<noteq> ''..''\<close> by simp
  qed
  show "Join t ''/'' \<noteq> ''.''" using Join_not_dot assms by blast
qed

lemma withinRoot_abs:
  assumes "list_all good_seg R" "list_all good_seg Q"
  shows "withinRoot (abs_path R) (abs_path Q) \<longleftrightarrow> (\<exists>t. t \<noteq> [] \<and> Q = R @ t)"
proof (cases "Q = R")
  case False
  obtain b t where bt: "strip_common R Q = (b, t)" by force
  then obtain pre where pre: "R = pre @ b" "Q = pre @ t" "b = [] \<or> t = [] \<or> hd b \<noteq> hd t"
    by (rule strip_common_split)
  have ne: "abs_path R \<noteq> abs_path Q" "abs_path Q \<noteq> abs_path R" using False assms abs_path_inject by blast+
  show ?thesis
  proof (cases b)
    case Nil
    then have "Q = R @ t" "t \<noteq> []" "list_all good_seg t" using pre False assms by auto
    then show ?thesis
      using assms ne Rel_abs_path [of R t] Join_down [of t] by (simp add: withinRoot_def)
  next
    case (Cons x xs)
    then have "\<nexists>t'. Q = R @ t'" using pre by auto
    moreover have "x \<noteq> ''..''" using assms pre Cons by (simp add: good_seg_def)
    moreover have "\<not> withinRoot (abs_path R) (abs_path Q)"
      using assms ne bt Cons \<open>x \<noteq> ''..''\<close> Join_up [of "map (\<lambda>_. ''..'') xs @ t"]
      by (auto simp: withinRoot_def Rel_def)
    ultimately show ?thesis by blast
  qed
qed (use assms in \<open>simp add: withinRoot_def\<close>)

text \<open>A path resolved with all links followed goes through directories only.\<close>

lemma plain_path_butlast: "plain_path n segs \<Longrightarrow> plain_path n (butlast segs)"
  by (cases segs rule: rev_cases) (simp_all add: plain_path_append)

lemma resolve_plain_result:
  assumes "resolve True root links at segs = Inr p" "plain_path root at"
  shows "plain_path root p"
  using assms
proof (induction links arbitrary: at segs rule: less_induct)
  case (less links)
  from less.prems show ?case
  proof (induction segs arbitrary: at)
    case (Cons c cs)
    consider "c = [] \<or> c = ''.''" | "c = ''..''" | "c \<noteq> []" "c \<noteq> ''.''" "c \<noteq> ''..''" by blast
    then show ?case
    proof cases
      case 1
      then show ?thesis using Cons.IH [of at] Cons.prems by auto
    next
      case 2
      then show ?thesis using Cons.IH [of "butlast at"] Cons.prems plain_path_butlast by auto
    next
      case 3
      show ?thesis
      proof (rule resolve_element [OF 3 Cons.prems(1)])
        fix e ch m
        assume "get_node root at = Some (NDir e True ch)" "map_of ch c = Some m" "\<not> is_symlink m"
          "resolve True root links (at @ [c]) cs = Inr p"
        then show ?thesis using Cons.IH [of "at @ [c]"] Cons.prems(2) by (simp add: plain_path_append)
      next
        fix target l
        assume l: "links = Suc l" "resolve True root l (if IsAbs target then [] else at)
          (SplitByte CHR ''/'' target @ cs) = Inr p"
        show ?thesis by (rule less.IH [OF _ l(2)]) (use l(1) Cons.prems(2) in auto)
      qed simp
    qed
  qed simp
qed

lemma EvalSymlinks_result:
  assumes "EvalSymlinks root p = Inr q"
  obtains at where "q = abs_path at" "list_all good_seg at" "plain_path root at"
proof -
  from assms obtain at where at: "resolve True root eval_links [] (SplitByte CHR ''/'' p) = Inr at"
      "q = abs_path at"
    by (auto simp: EvalSymlinks_def split: sum.splits)
  show thesis
    by (rule that [OF at(2)])
      (use resolve_good [OF at(1)] resolve_plain_result [OF at(1)] SplitByte_pieces in auto)
qed

lemma CutByte_Join:
  assumes "list_all good_seg (x # xs)"
  shows "fst (CutByte (Join (x # xs) ''/'') CHR ''/'') = x"
  using assms SplitByte_Join_good [of "x # xs"] by (simp add: CutByte_first)

text \<open>The share root of a configuration, as path elements.\<close>

abbreviation root_elems :: "Config \<Rightarrow> string list" where
  "root_elems cfg \<equiv> path_elems (ContainerRoot cfg)"

lemma openPath_physical:
  assumes abs: "IsAbs (ContainerRoot (st_cfg s))" and ok: "openPath fs s e = Inr p"
  shows "\<exists>ns rest err c t. p = abs_path (root_elems (st_cfg s) @ ns # rest)
    \<and> IsEligibleNamespace (st_cfg s) ns \<and> plain_path fs (root_elems (st_cfg s) @ ns # rest)
    \<and> get_node fs (root_elems (st_cfg s) @ ns # rest) = Some (NFile err c t)"
proof -
  let ?R = "root_elems (st_cfg s)"
  have root: "store_NamespaceRoot s = abs_path ?R" and good: "list_all good_seg ?R"
    using abs by (simp_all add: store_NamespaceRoot_def NamespaceRoot_abs path_elems_good)
  from ok obtain a rel st where o: "EvalSymlinks fs a = Inr p" "withinRoot (abs_path ?R) p"
      "Rel (abs_path ?R) p = Some rel" "IsEligibleNamespace (st_cfg s) (fst (CutByte rel CHR ''/''))"
      "Lstat fs p = Inr st" "is_regular st"
    by (auto simp: openPath_def Let_def root split: if_splits sum.splits option.splits)
  obtain at where at: "p = abs_path at" "list_all good_seg at" "plain_path fs at"
    using o(1) by (rule EvalSymlinks_result)
  obtain t where t: "t \<noteq> []" "at = ?R @ t" using o(2) at good withinRoot_abs by blast
  then obtain ns rest where ns: "t = ns # rest" by (cases t) auto
  have "rel = Join (ns # rest) ''/''" using o(3) Rel_abs_path [of ?R t] good at t ns by simp
  then have "fst (CutByte rel CHR ''/'') = ns" using CutByte_Join [of ns rest] at t ns by simp
  moreover obtain n where n: "get_node fs at = Some n" using plain_path_get [OF at(3)] by blast
  moreover have "st = n" using Lookup_plain [OF at(3,2) n, of False] o(5) at(1) by simp
  ultimately have "IsEligibleNamespace (st_cfg s) ns" "\<exists>err c t. n = NFile err c t" "at = ?R @ ns # rest"
    using o(4,6) t ns by (cases n; simp)+
  then show ?thesis using at n by blast
qed

section \<open>The share tree under a configuration\<close>

text \<open>
  The tree the scan lists, if the root can be listed; \<open>share_at\<close>: the root is where the
  configuration says, reached without a link.
\<close>

definition share_tree :: "node \<Rightarrow> string \<Rightarrow> node option" where
  "share_tree fs root =
     (case ReadDir fs (Clean root) of Inl _ \<Rightarrow> None | Inr (srch, ch) \<Rightarrow> Some (NDir None srch ch))"

definition share_at :: "node \<Rightarrow> Config \<Rightarrow> (string \<times> node) list \<Rightarrow> bool" where
  "share_at fs cfg ch \<longleftrightarrow>
     IsAbs (ContainerRoot cfg) \<and> supported (HashAlgorithm cfg) \<and> wf_node fs
     \<and> plain_path fs (root_elems cfg) \<and> get_node fs (root_elems cfg) = Some (NDir None True ch)"

lemma Lookup_wf: "wf_node fs \<Longrightarrow> Lookup f fs p = Inr n \<Longrightarrow> wf_node n"
  by (auto simp: Lookup_def split: sum.splits option.splits dest: wf_node_get)

lemma ReadDir_wf: "wf_node fs \<Longrightarrow> ReadDir fs p = Inr (srch, ch) \<Longrightarrow> wf_node (NDir None srch ch)"
  by (auto simp: ReadDir_def simp del: wf_node.simps split: sum.splits node.splits option.splits dest: Lookup_wf)

lemma share_at_ReadDir:
  assumes "share_at fs cfg ch"
  shows "ReadDir fs (Clean (ContainerRoot cfg)) = Inr (True, ch)"
    and "share_tree fs (ContainerRoot cfg) = Some (NDir None True ch)"
    and "wf_node (NDir None True ch)"
proof -
  show 1: "ReadDir fs (Clean (ContainerRoot cfg)) = Inr (True, ch)"
    using assms Lookup_plain [of fs "root_elems cfg" _ True]
    by (auto simp: share_at_def ReadDir_def Clean_abs path_elems_good)
  then show "share_tree fs (ContainerRoot cfg) = Some (NDir None True ch)" by (simp add: share_tree_def)
  show "wf_node (NDir None True ch)" using assms 1 ReadDir_wf by (auto simp: share_at_def simp del: wf_node.simps)
qed

section \<open>Opening a listed file\<close>

lemma Clean_logical:
  assumes "list_all good_seg segs" "segs \<noteq> []"
  shows "TrimPrefix (Clean (''/'' @ Join segs ''/'')) ''/'' = Join segs ''/''"
  using assms Clean_abs_path [of segs] by (simp add: abs_path_def TrimPrefix_def)

lemma FJoin_segs:
  assumes "list_all good_seg R" "list_all good_seg segs" "segs \<noteq> []"
  shows "FJoin (abs_path R) (Join segs ''/'') = abs_path (R @ segs)"
proof -
  have a: "IsAbs (abs_path R @ CHR ''/'' # Join segs ''/'')" by (simp add: IsAbs_def abs_path_def)
  have "path_elems (abs_path R @ CHR ''/'' # Join segs ''/'')
      = clean_segs True [] (SplitByte CHR ''/'' (abs_path R) @ segs)"
    using a assms by (simp add: path_elems_def SplitByte_append_sep SplitByte_Join_good)
  also have "\<dots> = path_elems (abs_path R) @ segs"
    using assms by (simp add: clean_segs_append path_elems_def clean_segs_good)
  also have "\<dots> = R @ segs" using assms by simp
  finally show ?thesis using a by (simp add: FJoin_def Clean_abs abs_path_def)
qed

lemma openPath_visible:
  assumes share: "share_at fs (st_cfg s) ch"
    and e: "LogicalPath e = Join (ns # rest) ''/''" and el: "IsEligibleNamespace (st_cfg s) ns"
    and vis: "visible (NDir None True ch) (ns # rest)"
  shows "openPath fs s e = Inr (abs_path (root_elems (st_cfg s) @ ns # rest))"
proof -
  let ?R = "root_elems (st_cfg s)" let ?segs = "ns # rest"
  note wf = share_at_ReadDir(3) [OF share]
  have sh: "IsAbs (ContainerRoot (st_cfg s))" "plain_path fs ?R" "get_node fs ?R = Some (NDir None True ch)"
    using share by (simp_all add: share_at_def)
  have root: "store_NamespaceRoot s = abs_path ?R" and R: "list_all good_seg ?R"
    using sh by (simp_all add: store_NamespaceRoot_def NamespaceRoot_abs path_elems_good)
  obtain er c t where f: "get_node (NDir None True ch) ?segs = Some (NFile er c t)"
    using visible_file [OF vis] by blast
  have g: "list_all good_seg ?segs" using wf_node_get [OF wf f] by simp
  have plain: "plain_path fs (?R @ ?segs)"
    using sh visible_plain [OF vis] by (simp add: plain_path_append)
  have phys: "get_node fs (?R @ ?segs) = Some (NFile er c t)" using sh f by (simp add: get_node_append)
  have RS: "list_all good_seg (?R @ ?segs)" using R g by simp
  have clean: "TrimPrefix (Clean (''/'' @ LogicalPath e)) ''/'' = Join ?segs ''/''"
    unfolding e by (rule Clean_logical [OF g]) simp
  have shape: "Join ?segs ''/'' \<noteq> []" "Join ?segs ''/'' \<noteq> ''.''" "Join ?segs ''/'' \<noteq> ''..''"
    using Join_down [OF g] g by (auto simp: Join_eq_Nil good_seg_def simp del: Join.simps)
  have within: "withinRoot (abs_path ?R) (abs_path (?R @ ?segs))" using withinRoot_abs [OF R RS] by blast
  show ?thesis
    unfolding openPath_def Let_def clean root
    using shape el within FJoin_segs [OF R g] EvalSymlinks_plain [OF plain RS] Rel_abs_path [OF R g]
      CutByte_Join [OF g] Lookup_plain [OF plain RS phys, of False]
    by (simp del: Join.simps)
qed

section \<open>The cache\<close>

text \<open>
  \<open>coherent\<close>: an entry that matches a file of the tree by size and modification time was
  computed from that content. It is the invariant a scan of one tree keeps.
\<close>

definition coherent :: "Config \<Rightarrow> node \<Rightarrow> cache \<Rightarrow> bool" where
  "coherent cfg tree cache \<longleftrightarrow>
     (\<forall>segs e c t fc. get_node tree segs = Some (NFile e c t)
        \<longrightarrow> cache (cache_key cfg (abs_path (root_elems cfg @ segs))) = Some fc
        \<longrightarrow> fc_size fc = int (length c) \<longrightarrow> fc_mtime fc = t
        \<longrightarrow> e = None \<and> fc_hash fc = hash_of (HashAlgorithm cfg) c)"

lemma coherent_empty [simp]: "coherent cfg tree Map.empty"
  by (simp add: coherent_def)

lemma cache_slot_inject:
  assumes "IsAbs (ContainerRoot cfg)" "wf_node t1" "wf_node t2"
    "get_node t1 a = Some n" "get_node t2 b = Some m"
  shows "cache_key cfg (abs_path (root_elems cfg @ a)) = cache_key cfg (abs_path (root_elems cfg @ b)) \<longleftrightarrow> a = b"
  using wf_node_get [OF assms(2,4)] wf_node_get [OF assms(3,5)] path_elems_good [OF assms(1)]
  by (simp add: cache_key_inject abs_path_inject)

lemma tracks_coherent:
  assumes "IsAbs (ContainerRoot cfg)" "wf_node tree"
  shows "tracks cfg (root_elems cfg) tree (coherent cfg tree)"
  unfolding tracks_def
proof (intro conjI allI impI)
  fix cache segs c t
  assume co: "coherent cfg tree cache" and f: "get_node tree segs = Some (NFile None c t)"
  show "coherent cfg tree (record_file cfg (root_elems cfg) segs c t cache)"
    unfolding coherent_def record_file_def
  proof (intro allI impI)
    fix segs' e' c' t' fc
    assume f': "get_node tree segs' = Some (NFile e' c' t')"
      and hit: "(cache(cache_key cfg (abs_path (root_elems cfg @ segs)) \<mapsto>
           \<lparr>fc_size = int (length c), fc_mtime = t, fc_hash = hash_of (HashAlgorithm cfg) c\<rparr>))
         (cache_key cfg (abs_path (root_elems cfg @ segs'))) = Some fc"
      and m: "fc_size fc = int (length c')" "fc_mtime fc = t'"
    show "e' = None \<and> fc_hash fc = hash_of (HashAlgorithm cfg) c'"
    proof (cases "segs' = segs")
      case True
      then show ?thesis using f f' hit by auto
    next
      case False
      then show ?thesis
        using co f' hit m cache_slot_inject [OF assms assms(2) f' f]
        by (auto simp: coherent_def)
    qed
  qed
qed (auto simp: coherent_def)

text \<open>One scan, as its callers see it.\<close>

lemma scan_share:
  assumes share: "share_at fs (st_cfg s) ch" and co: "coherent (st_cfg s) (NDir None True ch) (st_cache s)"
  shows "\<exists>s'. scan fs s = (s', if ns_faulty (st_cfg s) ch then Inl (IOErr EOther)
              else Inr (spec_list (st_cfg s) True ch))
          \<and> st_cfg s' = st_cfg s \<and> coherent (st_cfg s) (NDir None True ch) (st_cache s')"
proof -
  have a: "IsAbs (ContainerRoot (st_cfg s))" "supported (HashAlgorithm (st_cfg s))"
    using share by (simp_all add: share_at_def)
  note r = share_at_ReadDir [OF share]
  have "ReadDir fs (store_NamespaceRoot s) = Inr (True, ch)"
    using r(1) by (simp add: store_NamespaceRoot_def NamespaceRoot_def)
  from scan_correct [OF a this r(3) tracks_coherent [OF a(1) r(3)] co] show ?thesis by auto
qed

lemma spec_list_openPath:
  assumes "share_at fs (st_cfg s) ch" "en \<in> set (spec_list (st_cfg s) True ch)"
  shows "openPath fs s en = Inr (NamespaceRoot (st_cfg s) @ (if root_elems (st_cfg s) = [] then [] else ''/'') @ LogicalPath en)"
proof -
  from assms(2) obtain ns rest e c t where f: "IsEligibleNamespace (st_cfg s) ns"
      "visible (NDir None True ch) (ns # rest)" "spec_entry (st_cfg s) (ns # rest, e, c, t) = Some en"
    using spec_list_set [OF share_at_ReadDir(3) [OF assms(1)]] by blast
  have lp: "LogicalPath en = Join (ns # rest) ''/''" using spec_entry_path [OF f(3)] .
  have "abs_path (root_elems (st_cfg s) @ ns # rest)
      = NamespaceRoot (st_cfg s) @ (if root_elems (st_cfg s) = [] then [] else ''/'') @ Join (ns # rest) ''/''"
    using assms(1) Join_append [of "root_elems (st_cfg s)" "ns # rest" "''/''"]
    by (cases "root_elems (st_cfg s) = []") (simp_all add: NamespaceRoot_abs share_at_def abs_path_def)
  then show ?thesis using openPath_visible [OF assms(1) lp f(1,2)] lp by simp
qed

section \<open>Resolution of a pair of hashes\<close>

definition matching :: "string \<Rightarrow> string \<Rightarrow> Entry \<Rightarrow> bool" where
  "matching d f e \<longleftrightarrow> DirHash e = d \<and> FileHash e = f"

text \<open>The path on disk of a listed entry.\<close>

definition disk_path :: "Config \<Rightarrow> Entry \<Rightarrow> string" where
  "disk_path cfg e =
     NamespaceRoot cfg @ (if root_elems cfg = [] then [] else ''/'') @ LogicalPath e"

definition resolve_spec ::
    "Config \<Rightarrow> (string \<times> node) list \<Rightarrow> string \<Rightarrow> string \<Rightarrow> (store_error, string \<times> Entry) result" where
  "resolve_spec cfg ch d f =
     (if \<not> ValidHex d (HashAlgorithm cfg) \<or> \<not> ValidHex f (HashAlgorithm cfg) then Inl Store_ErrInvalid
      else if ns_faulty cfg ch then Inl (IOErr EOther)
      else (case filter (matching d f) (spec_list cfg True ch) of
              [] \<Rightarrow> Inl Store_ErrNotFound
            | [e] \<Rightarrow> Inr (disk_path cfg e, e)
            | _ \<Rightarrow> Inl Store_ErrConflict))"

lemma resolveLocked_share:
  assumes "share_at fs (st_cfg s) ch" "coherent (st_cfg s) (NDir None True ch) (st_cache s)"
  shows "snd (resolveLocked fs d f s) = resolve_spec (st_cfg s) ch d f"
proof -
  obtain s' where s': "scan fs s = (s', if ns_faulty (st_cfg s) ch then Inl (IOErr EOther)
      else Inr (spec_list (st_cfg s) True ch))" "st_cfg s' = st_cfg s"
    using scan_share [OF assms] by auto
  have m: "(\<lambda>e. DirHash e = d \<and> FileHash e = f) = matching d f" by (simp add: matching_def fun_eq_iff)
  have op: "openPath fs s' en = Inr (disk_path (st_cfg s) en)"
    if "filter (matching d f) (spec_list (st_cfg s) True ch) = [en]" for en
  proof -
    have "en \<in> set (filter (matching d f) (spec_list (st_cfg s) True ch))" using that by simp
    then show ?thesis using spec_list_openPath [of fs s' ch en] s'(2) assms(1) by (simp add: disk_path_def)
  qed
  show ?thesis
    unfolding resolveLocked_def resolve_spec_def m
    using s'(1) op by (auto split: list.splits if_splits)
qed

section \<open>Histories\<close>

text \<open>
  The states of a store over a history: it starts empty and serves calls, each with the
  usable configuration in force and on the file system of that moment, one of \<open>T\<close>.
\<close>

definition usable :: "Config \<Rightarrow> bool" where
  "usable cfg \<longleftrightarrow> IsAbs (ContainerRoot cfg) \<and> supported (HashAlgorithm cfg)"

inductive store_run :: "node set \<Rightarrow> Store \<Rightarrow> bool" for T where
  start: "usable cfg \<Longrightarrow> store_run T (store_New cfg)"
| listed: "store_run T s \<Longrightarrow> fs \<in> T \<Longrightarrow> usable cfg \<Longrightarrow> store_run T (fst (ListWith fs cfg s))"
| resolved: "store_run T s \<Longrightarrow> fs \<in> T \<Longrightarrow> usable cfg \<Longrightarrow> store_run T (fst (ResolveWith fs cfg d f s))"

text \<open>
  What the cache relies on: over the history, a file of the share that has at one moment a
  content, and at another moment the same size and modification time, has then the same
  content and can still be read.
\<close>

definition disciplined :: "node set \<Rightarrow> bool" where
  "disciplined T \<longleftrightarrow> (\<forall>fs1 \<in> T. \<forall>fs2 \<in> T. \<forall>root t1 t2 segs c1 c2 e t.
     share_tree fs1 root = Some t1 \<longrightarrow> share_tree fs2 root = Some t2
     \<longrightarrow> get_node t1 segs = Some (NFile None c1 t) \<longrightarrow> get_node t2 segs = Some (NFile e c2 t)
     \<longrightarrow> length c1 = length c2 \<longrightarrow> e = None \<and> c1 = c2)"

text \<open>Every cached hash was computed from a file of some moment of the history.\<close>

definition honest :: "node set \<Rightarrow> Config \<Rightarrow> cache \<Rightarrow> bool" where
  "honest T cfg cache \<longleftrightarrow> (\<forall>key fc. cache key = Some fc \<longrightarrow>
     (\<exists>fs tree segs c t. fs \<in> T \<and> share_tree fs (ContainerRoot cfg) = Some tree
        \<and> get_node tree segs = Some (NFile None c t)
        \<and> key = cache_key cfg (abs_path (root_elems cfg @ segs))
        \<and> fc = \<lparr>fc_size = int (length c), fc_mtime = t, fc_hash = hash_of (HashAlgorithm cfg) c\<rparr>))"

lemma share_tree_wf: "wf_node fs \<Longrightarrow> share_tree fs root = Some tree \<Longrightarrow> wf_node tree"
  by (auto simp: share_tree_def simp del: wf_node.simps split: sum.splits dest: ReadDir_wf)

lemma tracks_honest:
  assumes disc: "disciplined T" and wf: "\<forall>fs \<in> T. wf_node fs" and abs: "IsAbs (ContainerRoot cfg)"
    and fs: "fs \<in> T" "share_tree fs (ContainerRoot cfg) = Some tree"
  shows "tracks cfg (root_elems cfg) tree (honest T cfg)"
  unfolding tracks_def
proof (intro conjI allI impI)
  fix cache segs e c t fc
  assume h: "honest T cfg cache" and f: "get_node tree segs = Some (NFile e c t)"
    and hit: "cache (cache_key cfg (abs_path (root_elems cfg @ segs))) = Some fc"
    and m: "fc_size fc = int (length c)" "fc_mtime fc = t"
  obtain fs' tree' segs' c' t' where o: "fs' \<in> T" "share_tree fs' (ContainerRoot cfg) = Some tree'"
      "get_node tree' segs' = Some (NFile None c' t')"
      "cache_key cfg (abs_path (root_elems cfg @ segs)) = cache_key cfg (abs_path (root_elems cfg @ segs'))"
      "fc = \<lparr>fc_size = int (length c'), fc_mtime = t', fc_hash = hash_of (HashAlgorithm cfg) c'\<rparr>"
    using h hit unfolding honest_def by blast
  have w: "wf_node tree" "wf_node tree'" using share_tree_wf wf fs o by blast+
  have "segs = segs'" using cache_slot_inject [OF abs w f o(3)] o(4) by simp
  moreover have "length c' = length c" "t' = t" using m o(5) by simp_all
  ultimately have "e = None \<and> c' = c"
    using disc fs o(1-3) f unfolding disciplined_def by blast
  then show "e = None" "fc_hash fc = hash_of (HashAlgorithm cfg) c" using o(5) by simp_all
next
  fix cache segs c t
  assume h: "honest T cfg cache" and f: "get_node tree segs = Some (NFile None c t)"
  show "honest T cfg (record_file cfg (root_elems cfg) segs c t cache)"
    unfolding honest_def record_file_def
  proof (intro allI impI)
    fix key fc
    assume a: "(cache(cache_key cfg (abs_path (root_elems cfg @ segs)) \<mapsto>
      \<lparr>fc_size = int (length c), fc_mtime = t, fc_hash = hash_of (HashAlgorithm cfg) c\<rparr>)) key = Some fc"
    show "\<exists>fs tree segs c t. fs \<in> T \<and> share_tree fs (ContainerRoot cfg) = Some tree
        \<and> get_node tree segs = Some (NFile None c t)
        \<and> key = cache_key cfg (abs_path (root_elems cfg @ segs))
        \<and> fc = \<lparr>fc_size = int (length c), fc_mtime = t, fc_hash = hash_of (HashAlgorithm cfg) c\<rparr>"
    proof (cases "key = cache_key cfg (abs_path (root_elems cfg @ segs))")
      case True
      then show ?thesis using a fs f by (intro exI [of _ fs] exI [of _ tree] exI [of _ segs] exI [of _ c] exI [of _ t]) simp
    next
      case False
      then show ?thesis using a h unfolding honest_def by auto
    qed
  qed
qed

lemma honest_empty [simp]: "honest T cfg Map.empty"
  by (simp add: honest_def)

lemma store_New_simps [simp]: "st_cfg (store_New cfg) = cfg" "st_cache (store_New cfg) = Map.empty"
  by (simp_all add: store_New_def)

lemma setConfig_cfg [simp]: "st_cfg (setConfigLocked cfg s) = cfg"
  by (simp add: setConfigLocked_def)

lemma setConfig_New [simp]: "setConfigLocked cfg (store_New cfg) = store_New cfg"
  by (simp add: setConfigLocked_def)

lemma setConfig_honest:
  "honest T (st_cfg s) (st_cache s) \<Longrightarrow> honest T cfg (st_cache (setConfigLocked cfg s))"
  by (auto simp: setConfigLocked_def)

lemma scan_history:
  assumes hist: "disciplined T" "\<forall>fs \<in> T. wf_node fs" "fs \<in> T"
    and cfg: "usable (st_cfg s)" and h: "honest T (st_cfg s) (st_cache s)"
  shows "snd (scan fs s) = snd (scan fs (store_New (st_cfg s))) \<and> st_cfg (fst (scan fs s)) = st_cfg s
    \<and> honest T (st_cfg s) (st_cache (fst (scan fs s)))"
proof (cases "ReadDir fs (NamespaceRoot (st_cfg s))")
  case (Inl e)
  then show ?thesis using h by (simp add: scan_def store_NamespaceRoot_def)
next
  case (Inr l)
  obtain srch ch where l: "ReadDir fs (NamespaceRoot (st_cfg s)) = Inr (srch, ch)" using Inr by (cases l) auto
  let ?s = "store_New (st_cfg s)"
  have u: "IsAbs (ContainerRoot (st_cfg s))" "supported (HashAlgorithm (st_cfg s))"
    using cfg by (simp_all add: usable_def)
  have wf: "wf_node (NDir None srch ch)" using ReadDir_wf l hist by blast
  have "share_tree fs (ContainerRoot (st_cfg s)) = Some (NDir None srch ch)"
    using l by (simp add: share_tree_def NamespaceRoot_def)
  note tr = tracks_honest [OF hist(1,2) u(1) hist(3) this]
  have r: "ReadDir fs (store_NamespaceRoot s) = Inr (srch, ch)" "ReadDir fs (store_NamespaceRoot ?s) = Inr (srch, ch)"
    using l by (simp_all add: store_NamespaceRoot_def)
  show ?thesis
    using scan_correct [OF u r(1) wf tr h] scan_correct [of ?s, unfolded store_New_simps, OF u r(2) wf tr honest_empty]
    by (auto split: if_splits)
qed

lemma ListWith_history:
  assumes "disciplined T" "\<forall>fs \<in> T. wf_node fs" "fs \<in> T" "usable cfg" "honest T (st_cfg s) (st_cache s)"
  shows "snd (ListWith fs cfg s) = snd (ListWith fs cfg (store_New cfg))"
    and "honest T (st_cfg (fst (ListWith fs cfg s))) (st_cache (fst (ListWith fs cfg s)))"
  using scan_history [OF assms(1-3), of "setConfigLocked cfg s"] assms(4) setConfig_honest [OF assms(5)]
  by (simp_all add: ListWith_def)

lemma scan_new:
  assumes "usable cfg" "ReadDir fs (NamespaceRoot cfg) = Inr (srch, ch)" "wf_node (NDir None srch ch)"
  shows "snd (scan fs (store_New cfg)) = (if srch \<and> ns_faulty cfg ch then Inl (IOErr EOther) else Inr (spec_list cfg srch ch))"
proof -
  have u: "IsAbs (ContainerRoot cfg)" "supported (HashAlgorithm cfg)" using assms(1) by (simp_all add: usable_def)
  have "ReadDir fs (store_NamespaceRoot (store_New cfg)) = Inr (srch, ch)"
    using assms(2) by (simp add: store_NamespaceRoot_def)
  moreover have "tracks cfg (root_elems cfg) (NDir None srch ch) (coherent cfg (NDir None srch ch))"
    by (rule tracks_coherent [OF u(1) assms(3)])
  moreover have "coherent cfg (NDir None srch ch) (st_cache (store_New cfg))" by (simp add: coherent_def)
  ultimately show ?thesis using scan_correct [of "store_New cfg" fs srch ch] u assms(3) by fastforce
qed

lemma openPath_cfg: "st_cfg a = st_cfg b \<Longrightarrow> openPath fs a e = openPath fs b e"
  by (simp only: openPath_def store_NamespaceRoot_def)

lemma resolveLocked_from_scan:
  assumes "snd (scan fs s) = snd (scan fs s0)" "st_cfg (fst (scan fs s)) = st_cfg s"
    "st_cfg (fst (scan fs s0)) = st_cfg s0" "st_cfg s0 = st_cfg s"
  shows "snd (resolveLocked fs d f s) = snd (resolveLocked fs d f s0)"
proof -
  obtain s1 s2 r where r: "scan fs s = (s1, r)" "scan fs s0 = (s2, r)" using assms(1) by (metis snd_conv surj_pair)
  then have "openPath fs s1 e = openPath fs s2 e" for e
    using assms(2-) by (intro openPath_cfg) simp
  then show ?thesis using r assms(4) by (simp add: resolveLocked_def split: sum.splits list.splits)
qed

lemma resolveLocked_store: "fst (resolveLocked fs d f s) \<in> {s, fst (scan fs s)}"
  by (auto simp: resolveLocked_def split: sum.splits prod.splits)

lemma ResolveWith_history:
  assumes "disciplined T" "\<forall>fs \<in> T. wf_node fs" "fs \<in> T" "usable cfg" "honest T (st_cfg s) (st_cache s)"
  shows "snd (ResolveWith fs cfg d f s) = snd (ResolveWith fs cfg d f (store_New cfg))"
    and "honest T (st_cfg (fst (ResolveWith fs cfg d f s))) (st_cache (fst (ResolveWith fs cfg d f s)))"
proof -
  let ?s = "setConfigLocked cfg s"
  have h: "honest T cfg (st_cache ?s)" using setConfig_honest [OF assms(5)] .
  note new = scan_history [OF assms(1-3), of "store_New cfg", unfolded store_New_simps, OF assms(4) honest_empty]
  note old = scan_history [OF assms(1-3), of ?s, unfolded setConfig_cfg, OF assms(4) h]
  show "snd (ResolveWith fs cfg d f s) = snd (ResolveWith fs cfg d f (store_New cfg))"
    using resolveLocked_from_scan [of fs ?s "store_New cfg"] new old by (simp add: ResolveWith_def)
  show "honest T (st_cfg (fst (ResolveWith fs cfg d f s))) (st_cache (fst (ResolveWith fs cfg d f s)))"
    using resolveLocked_store [of fs d f ?s] old h by (auto simp: ResolveWith_def)
qed

lemma store_run_honest:
  assumes "disciplined T" "\<forall>fs \<in> T. wf_node fs" "store_run T s"
  shows "honest T (st_cfg s) (st_cache s)"
  using assms(3)
proof (induction rule: store_run.induct)
  case (listed s fs cfg)
  then show ?case using ListWith_history(2) [OF assms(1,2)] by blast
next
  case (resolved s fs cfg d f)
  then show ?case using ResolveWith_history(2) [OF assms(1,2)] by blast
qed simp

lemma share_at_usable: "share_at fs cfg ch \<Longrightarrow> usable cfg"
  by (simp add: share_at_def usable_def)

lemma ListWith_new:
  assumes "share_at fs cfg ch"
  shows "snd (ListWith fs cfg (store_New cfg)) =
    (if ns_faulty cfg ch then Inl (IOErr EOther) else Inr (spec_list cfg True ch))"
  using scan_share [of fs "store_New cfg" ch] assms by (auto simp: ListWith_def)

lemma ResolveWith_new:
  assumes "share_at fs cfg ch"
  shows "snd (ResolveWith fs cfg d f (store_New cfg)) = resolve_spec cfg ch d f"
  using resolveLocked_share [of fs "store_New cfg" ch] assms by (auto simp: ResolveWith_def)

lemma spec_entry_hashes:
  assumes "spec_entry cfg (segs, e, c, t) = Some en" "supported (HashAlgorithm cfg)"
  shows "ValidHex (DirHash en) (HashAlgorithm cfg)" "ValidHex (FileHash en) (HashAlgorithm cfg)"
    "EntrySize en = int (length c)"
  using assms hash_of_ValidHex by (auto simp: Let_def split: if_splits)

lemma spec_list_node:
  assumes share: "share_at fs cfg ch" and en: "en \<in> set (spec_list cfg True ch)"
  shows "\<exists>ns rest e c t. disk_path cfg en = abs_path (root_elems cfg @ ns # rest)
    \<and> plain_path fs (root_elems cfg @ ns # rest) \<and> list_all good_seg (root_elems cfg @ ns # rest)
    \<and> get_node fs (root_elems cfg @ ns # rest) = Some (NFile e c t)
    \<and> spec_entry cfg (ns # rest, e, c, t) = Some en"
proof -
  note wf = share_at_ReadDir(3) [OF share]
  have sh: "IsAbs (ContainerRoot cfg)" "plain_path fs (root_elems cfg)"
      "get_node fs (root_elems cfg) = Some (NDir None True ch)"
    using share by (simp_all add: share_at_def)
  from en obtain ns rest e c t where f: "visible (NDir None True ch) (ns # rest)"
      "get_node (NDir None True ch) (ns # rest) = Some (NFile e c t)"
      "spec_entry cfg (ns # rest, e, c, t) = Some en"
    using spec_list_set [OF wf] by blast
  have "list_all good_seg (root_elems cfg @ ns # rest)"
    using wf_node_get [OF wf f(2)] path_elems_good [OF sh(1)] by simp
  moreover have "plain_path fs (root_elems cfg @ ns # rest)" "get_node fs (root_elems cfg @ ns # rest) = Some (NFile e c t)"
    using sh f visible_plain [OF f(1)] by (simp_all add: plain_path_append get_node_append)
  moreover have "disk_path cfg en = abs_path (root_elems cfg @ ns # rest)"
    using spec_entry_path [OF f(3)] sh Join_append [of "root_elems cfg" "ns # rest" "''/''"]
    by (cases "root_elems cfg = []") (simp_all add: disk_path_def NamespaceRoot_abs abs_path_def)
  ultimately show ?thesis using f(3) by blast
qed

lemma spec_list_file:
  assumes share: "share_at fs cfg ch" and en: "en \<in> set (spec_list cfg True ch)"
  shows "\<exists>e c t. Lstat fs (disk_path cfg en) = Inr (NFile e c t) \<and> EntrySize en = int (length c)"
    and "ValidHex (DirHash en) (HashAlgorithm cfg)" "ValidHex (FileHash en) (HashAlgorithm cfg)"
proof -
  obtain ns rest e c t where n: "disk_path cfg en = abs_path (root_elems cfg @ ns # rest)"
      "plain_path fs (root_elems cfg @ ns # rest)" "list_all good_seg (root_elems cfg @ ns # rest)"
      "get_node fs (root_elems cfg @ ns # rest) = Some (NFile e c t)" "spec_entry cfg (ns # rest, e, c, t) = Some en"
    using spec_list_node [OF assms] by blast
  have alg: "supported (HashAlgorithm cfg)" using share by (simp add: share_at_def)
  show "\<exists>e c t. Lstat fs (disk_path cfg en) = Inr (NFile e c t) \<and> EntrySize en = int (length c)"
    using Lookup_plain [OF n(2,3,4)] n(1) spec_entry_hashes(3) [OF n(5) alg] by auto
  show "ValidHex (DirHash en) (HashAlgorithm cfg)" "ValidHex (FileHash en) (HashAlgorithm cfg)"
    using spec_entry_hashes [OF n(5) alg] by simp_all
qed

lemma spec_list_relocated:
  assumes "SharePrefix c1 = SharePrefix c2" "HashTarget c1 = HashTarget c2" "HashAlgorithm c1 = HashAlgorithm c2"
  shows "spec_list c1 srch ch = spec_list c2 srch ch" "ns_faulty c1 ch = ns_faulty c2 ch"
proof -
  have e: "IsEligibleNamespace c1 = IsEligibleNamespace c2"
    using assms by (simp add: IsEligibleNamespace_def fun_eq_iff)
  have "spec_entry c1 fi = spec_entry c2 fi" for fi using assms by (cases fi) simp
  then have s: "spec_entry c1 = spec_entry c2" by blast
  show "spec_list c1 srch ch = spec_list c2 srch ch" unfolding spec_list_def ns_files_def e s ..
  show "ns_faulty c1 ch = ns_faulty c2 ch" using assms(2) unfolding ns_faulty_def e by simp
qed

lemma filter_single_cases:
  assumes "distinct xs" "x \<in> set xs" "P x"
  shows "(case filter P xs of [] \<Rightarrow> a | [y] \<Rightarrow> b y | _ \<Rightarrow> c) =
    (if \<exists>y \<in> set xs. y \<noteq> x \<and> P y then c else b x)"
proof (cases "\<exists>y \<in> set xs. y \<noteq> x \<and> P y")
  case True
  then obtain y where y: "y \<in> set (filter P xs)" "y \<noteq> x" by auto
  moreover have "x \<in> set (filter P xs)" using assms by simp
  ultimately obtain u v w where "filter P xs = u # v # w"
    by (cases "filter P xs" rule: list.exhaust [case_product list.exhaust]; cases "tl (filter P xs)") auto
  then show ?thesis using True by simp
next
  case False
  then have "filter P xs = [x]" using distinct_filter_unique [OF assms(1,2), of P] assms(3) by blast
  then show ?thesis using False by auto
qed

lemma listed_outcome:
  assumes "store_run T s" "disciplined T" "\<forall>fs \<in> T. wf_node fs" "fs \<in> T" "share_at fs cfg ch"
    and "snd (ListWith fs cfg s) = Inr es" "en \<in> set es"
  shows "snd (ResolveWith fs cfg (DirHash en) (FileHash en) s) =
      (if \<exists>en' \<in> set es. en' \<noteq> en \<and> DirHash en' = DirHash en \<and> FileHash en' = FileHash en
       then Inl Store_ErrConflict else Inr (disk_path cfg en, en))
    \<and> (\<exists>e c t. Lstat fs (disk_path cfg en) = Inr (NFile e c t) \<and> EntrySize en = int (length c))"
proof -
  note h = store_run_honest [OF assms(2,3,1)] and u = share_at_usable [OF assms(5)]
  let ?P = "matching (DirHash en) (FileHash en)"
  have l: "\<not> ns_faulty cfg ch" "es = spec_list cfg True ch"
    using ListWith_history(1) [OF assms(2-4) u h] ListWith_new [OF assms(5)] assms(6) by (auto split: if_splits)
  have en: "en \<in> set (spec_list cfg True ch)" using assms(7) l by simp
  have "distinct (map LogicalPath es)"
    using spec_list_strict [OF share_at_ReadDir(3) [OF assms(5)], of cfg] l sorted_wrt_less_distinct by blast
  then have dist: "distinct es" by (simp add: distinct_map)
  have r: "snd (ResolveWith fs cfg (DirHash en) (FileHash en) s) =
      (case filter ?P es of [] \<Rightarrow> Inl Store_ErrNotFound | [e] \<Rightarrow> Inr (disk_path cfg e, e) | _ \<Rightarrow> Inl Store_ErrConflict)"
    using ResolveWith_history(1) [OF assms(2-4) u h] ResolveWith_new [OF assms(5)] l
      spec_list_file(2,3) [OF assms(5) en] unfolding resolve_spec_def by simp
  have "(case filter ?P es of [] \<Rightarrow> Inl Store_ErrNotFound | [e] \<Rightarrow> Inr (disk_path cfg e, e) | _ \<Rightarrow> Inl Store_ErrConflict)
      = (if \<exists>en' \<in> set es. en' \<noteq> en \<and> ?P en' then Inl Store_ErrConflict else Inr (disk_path cfg en, en))"
    by (rule filter_single_cases [OF dist assms(7)]) (simp add: matching_def)
  then show ?thesis using r spec_list_file(1) [OF assms(5) en] by (simp add: matching_def)
qed

section \<open>Properties\<close>

text \<open>A share with two namespaces, an outsider directory, and a link that leaves the root.\<close>

definition demo_cfg :: Config where
  "demo_cfg = \<lparr>ContainerRoot = ''/srv'', SharePrefix = ''public'', PublicURL = ''http://h'',
     HashTarget = ''file'', HashAlgorithm = ''md5'', Port = ''8080'', AdminToken = ''tok'',
     LinksDir = ''/links'', SharedPath = [], WebGID = ''2001''\<rparr>"

definition demo_share :: "(string \<times> node) list" where
  "demo_share = [(''Private'', NDir None True [(''x'', NFile None ''secret'' 1)]),
     (''alice'', NDir None True [(''a.txt'', NFile None ''aaa'' 1),
        (''docs'', NDir None True [(''b.txt'', NFile None ''bbb'' 2)]), (''out'', NSymlink ''/etc/passwd'')]),
     (''public'', NDir None True [(''c.txt'', NFile None ''ccc'' 3)])]"

definition demo_fs :: node where
  "demo_fs = NDir None True [(''etc'', NDir None True [(''passwd'', NFile None ''root'' 0)]),
     (''srv'', NDir None True demo_share)]"

definition demo_entry :: "string \<Rightarrow> Entry" where
  "demo_entry p = \<lparr>LogicalPath = p, LogicalDir = [], DirHash = [], FileHash = [], EntrySize = 0\<rparr>"

lemma demo_share_at: "share_at demo_fs demo_cfg demo_share"
  by code_simp

lemma demo_run: "store_run {demo_fs} (store_New demo_cfg)"
  by (rule store_run.start) code_simp

lemma demo_wf: "\<forall>fs \<in> {demo_fs}. wf_node fs"
  by code_simp

lemma singleton_disciplined: "disciplined {fs}"
  by (auto simp: disciplined_def)

text \<open>
  C1: containment. Whatever the entry and whatever the tree, links included, a path that
  \<open>openPath\<close> returns lies strictly below the share root, in an eligible namespace, goes
  through real directories only (no link is left to follow), and names a regular file.
\<close>

theorem openPath_contained:
  assumes "IsAbs (ContainerRoot (st_cfg s))" "openPath fs s e = Inr p"
  shows "\<exists>ns rest err c t. p = abs_path (path_elems (ContainerRoot (st_cfg s)) @ ns # rest)
    \<and> IsEligibleNamespace (st_cfg s) ns
    \<and> plain_path fs (path_elems (ContainerRoot (st_cfg s)) @ ns # rest)
    \<and> get_node fs (path_elems (ContainerRoot (st_cfg s)) @ ns # rest) = Some (NFile err c t)"
  using openPath_physical [OF assms] .

theorem openPath_contained_witness:
  "openPath demo_fs (store_New demo_cfg) (demo_entry ''alice/out'') = Inl Store_ErrNotFound
   \<and> openPath demo_fs (store_New demo_cfg) (demo_entry ''Private/x'') = Inl Store_ErrNotFound
   \<and> (\<exists>ns rest err c t. ''/srv/alice/docs/b.txt'' = abs_path (path_elems (ContainerRoot demo_cfg) @ ns # rest)
    \<and> IsEligibleNamespace demo_cfg ns \<and> plain_path demo_fs (path_elems (ContainerRoot demo_cfg) @ ns # rest)
    \<and> get_node demo_fs (path_elems (ContainerRoot demo_cfg) @ ns # rest) = Some (NFile err c t))"
proof -
  have ok: "IsAbs (ContainerRoot (st_cfg (store_New demo_cfg)))"
    "openPath demo_fs (store_New demo_cfg) (demo_entry ''alice/docs/b.txt'') = Inr ''/srv/alice/docs/b.txt''"
    by code_simp+
  have "openPath demo_fs (store_New demo_cfg) (demo_entry ''alice/out'') = Inl Store_ErrNotFound"
    "openPath demo_fs (store_New demo_cfg) (demo_entry ''Private/x'') = Inl Store_ErrNotFound"
    by code_simp+
  then show ?thesis using openPath_contained [OF ok] by simp
qed

text \<open>
  C2: the listing, after a history in which a file that keeps its path, size and modification time
  keeps its content and stays readable (the condition on which the hash cache rests). If the
  share root cannot be read, the listing is empty when the root is missing or forbidden and else fails with that
  error. If it can, the entries are exactly the regular files that can be
  reached through readable directories of the eligible namespaces (and, when content is
  hashed, can be read), each with its logical path, the hash of its logical directory, its
  file hash and its size, in strictly increasing order of path; and the listing fails exactly
  when a directory or file it must read fails with an unexpected error.
\<close>

theorem ListWith_exact:
  assumes "store_run T s" "disciplined T" "\<forall>fs \<in> T. wf_node fs" "fs \<in> T" "usable cfg"
  shows "case ReadDir fs (NamespaceRoot cfg) of
      Inl e \<Rightarrow> snd (ListWith fs cfg s) = (if IsNotExist e \<or> IsPermission e then Inr [] else Inl (IOErr e))
    | Inr (srch, ch) \<Rightarrow>
        if srch \<and> ns_faulty cfg ch then snd (ListWith fs cfg s) = Inl (IOErr EOther)
        else \<exists>es. snd (ListWith fs cfg s) = Inr es
          \<and> set es = {en. srch \<and> (\<exists>ns rest e c t. rest \<noteq> [] \<and> IsEligibleNamespace cfg ns
               \<and> visible (NDir None True ch) (ns # rest)
               \<and> get_node (NDir None True ch) (ns # rest) = Some (NFile e c t)
               \<and> spec_entry cfg (ns # rest, e, c, t) = Some en)}
          \<and> sorted_wrt (<) (map LogicalPath es)"
proof -
  have new: "snd (ListWith fs cfg s) = snd (scan fs (store_New cfg))"
    using ListWith_history(1) [OF assms(2-5) store_run_honest [OF assms(2,3,1)]] by (simp add: ListWith_def)
  show ?thesis
  proof (cases "ReadDir fs (NamespaceRoot cfg)")
    case (Inl e)
    then show ?thesis using new by (simp add: scan_def store_NamespaceRoot_def)
  next
    case (Inr l)
    obtain srch ch where l: "ReadDir fs (NamespaceRoot cfg) = Inr (srch, ch)" using Inr by (cases l) auto
    have wf: "wf_node (NDir None srch ch)" using ReadDir_wf l assms(3,4) by blast
    then have wf': "wf_node (NDir None True ch)" by simp
    have r: "snd (scan fs (store_New cfg)) = (if srch \<and> ns_faulty cfg ch then Inl (IOErr EOther) else Inr (spec_list cfg srch ch))"
      using scan_new [OF assms(5) l wf] by simp
    show ?thesis
      unfolding new r l
      using spec_list_set [OF wf', of cfg] spec_list_strict [OF wf', of cfg]
      by (cases srch) (simp_all add: spec_list_def [of cfg False] del: visible.simps get_node.simps spec_entry.simps)
  qed
qed

theorem ListWith_exact_witness:
  "\<exists>es. snd (ListWith demo_fs demo_cfg (store_New demo_cfg)) = Inr es
      \<and> set es = {en. \<exists>ns rest e c t. rest \<noteq> [] \<and> IsEligibleNamespace demo_cfg ns
           \<and> visible (NDir None True demo_share) (ns # rest)
           \<and> get_node (NDir None True demo_share) (ns # rest) = Some (NFile e c t)
           \<and> spec_entry demo_cfg (ns # rest, e, c, t) = Some en}
      \<and> sorted_wrt (<) (map LogicalPath es)"
proof -
  have "ReadDir demo_fs (NamespaceRoot demo_cfg) = Inr (True, demo_share)" "\<not> ns_faulty demo_cfg demo_share" "usable demo_cfg"
    by code_simp+
  then show ?thesis
    using ListWith_exact [OF demo_run singleton_disciplined demo_wf insertI1, of demo_cfg]
    by (simp del: visible.simps get_node.simps spec_entry.simps)
qed

text \<open>
  C10: the content-hash cache is invisible to a tree whose files change their size or modification time when their
  content changes or they stop being readable. Over the trees of such a history, with any sequence of listings and
  resolutions under any sequence of configurations and while the tree changed in between, a listing and
  a resolution answer what a store that was created at that moment would answer. (A file that is rewritten
  within its size and time keeps its old hash: \<open>stale_hash\<close> below.)
\<close>

theorem cache_transparent:
  assumes "store_run T s" "disciplined T" "\<forall>fs \<in> T. wf_node fs" "fs \<in> T" "usable cfg"
  shows "snd (ListWith fs cfg s) = snd (ListWith fs cfg (store_New cfg))
    \<and> snd (ResolveWith fs cfg d f s) = snd (ResolveWith fs cfg d f (store_New cfg))"
  using ListWith_history(1) [OF assms(2-5)] ResolveWith_history(1) [OF assms(2-5)]
    store_run_honest [OF assms(2,3,1)] by blast

theorem cache_transparent_witness:
  "snd (ListWith demo_fs demo_cfg (fst (ListWith demo_fs (demo_cfg\<lparr>HashAlgorithm := ''sha256''\<rparr>) (store_New demo_cfg))))
     = snd (ListWith demo_fs demo_cfg (store_New demo_cfg))"
proof -
  have "usable (demo_cfg\<lparr>HashAlgorithm := ''sha256''\<rparr>)" "usable demo_cfg" by code_simp+
  then show ?thesis
    using cache_transparent [OF store_run.listed [OF demo_run insertI1] singleton_disciplined demo_wf insertI1]
    by blast
qed

text \<open>
  The condition cannot be dropped: a store that has hashed a file hands out the old hash for a new
  content of the same size and time.
\<close>

lemma stale_hash:
  assumes "contentHash cfg p None c1 t cache = (cache', Inr h)" "length c2 = length c1"
  shows "contentHash cfg p err c2 t cache' = (cache', Inr h)"
proof -
  have "case cache' (cache_key cfg p) of
      None \<Rightarrow> False | Some fc \<Rightarrow> fc_size fc = int (length c1) \<and> fc_mtime fc = t \<and> fc_hash fc = h"
    using assms(1) by (auto simp: contentHash_def Let_def split: option.splits if_splits sum.splits)
  then show ?thesis using assms(2) by (auto simp: contentHash_def Let_def split: option.splits)
qed


lemma demo_list: "snd (ListWith demo_fs demo_cfg (store_New demo_cfg)) = Inr (spec_list demo_cfg True demo_share)"
proof -
  have "\<not> ns_faulty demo_cfg demo_share" by code_simp
  then show ?thesis using ListWith_new [OF demo_share_at] by simp
qed


text \<open>
  The links the service hands out work. The two hashes of a listed entry are valid, and
  resolving them yields that entry and its path on disk, where a regular file of the listed
  size is; the one exception is a second listed entry with the same two hashes, which makes
  it a conflict and never another file.
\<close>

theorem listed_resolves:
  assumes "store_run T s" "disciplined T" "\<forall>fs \<in> T. wf_node fs" "fs \<in> T" "share_at fs cfg ch"
    and "snd (ListWith fs cfg s) = Inr es" "en \<in> set es"
  shows "snd (ResolveWith fs cfg (DirHash en) (FileHash en) s) =
      (if \<exists>en' \<in> set es. en' \<noteq> en \<and> DirHash en' = DirHash en \<and> FileHash en' = FileHash en
       then Inl Store_ErrConflict else Inr (disk_path cfg en, en))
    \<and> (\<exists>e c t. Lstat fs (disk_path cfg en) = Inr (NFile e c t) \<and> EntrySize en = int (length c))"
  by (rule listed_outcome [OF assms])

theorem listed_resolves_witness:
  "\<exists>en. LogicalPath en = ''alice/a.txt''
     \<and> snd (ResolveWith demo_fs demo_cfg (DirHash en) (FileHash en) (store_New demo_cfg))
         \<in> {Inl Store_ErrConflict, Inr (''/srv/alice/a.txt'', en)}"
proof -
  obtain en where en: "spec_entry demo_cfg ([''alice'', ''a.txt''], None, ''aaa'', 1) = Some en"
    by (simp add: demo_cfg_def Let_def)
  have f: "IsEligibleNamespace demo_cfg ''alice''" "visible (NDir None True demo_share) [''alice'', ''a.txt'']"
    "get_node (NDir None True demo_share) [''alice'', ''a.txt''] = Some (NFile None ''aaa'' 1)"
    by code_simp+
  have lp: "LogicalPath en = ''alice/a.txt''" using spec_entry_path [OF en] by simp
  have mem: "en \<in> set (spec_list demo_cfg True demo_share)"
    using spec_list_set [OF share_at_ReadDir(3) [OF demo_share_at]] f en by blast
  have "disk_path demo_cfg en = ''/srv/alice/a.txt''"
  proof -
    have "NamespaceRoot demo_cfg = ''/srv''" "root_elems demo_cfg \<noteq> []" by code_simp+
    then show ?thesis using lp by (simp add: disk_path_def)
  qed
  then show ?thesis
    using listed_resolves [OF demo_run singleton_disciplined demo_wf insertI1 demo_share_at demo_list mem] lp
    by (intro exI [of _ en]) simp
qed

text \<open>
  Host-path independence. Two deployments that mount the same tree at different roots,
  with the same prefix and hash settings, list the same entries: the same paths and hashes,
  so the same share URLs.
\<close>

theorem listing_host_independent:
  assumes "share_at fs1 c1 ch" "share_at fs2 c2 ch" "SharePrefix c1 = SharePrefix c2"
    "HashTarget c1 = HashTarget c2" "HashAlgorithm c1 = HashAlgorithm c2"
  shows "snd (ListWith fs1 c1 (store_New c1)) = snd (ListWith fs2 c2 (store_New c2))"
  using ListWith_new [OF assms(1)] ListWith_new [OF assms(2)] spec_list_relocated [OF assms(3-5)] by simp

definition demo_fs2 :: node where
  "demo_fs2 = NDir None True [(''data'', NDir None True [(''share'', NDir None True demo_share)])]"

theorem listing_host_independent_witness:
  "snd (ListWith demo_fs demo_cfg (store_New demo_cfg)) =
   snd (ListWith demo_fs2 (demo_cfg\<lparr>ContainerRoot := ''/data/./share/''\<rparr>)
     (store_New (demo_cfg\<lparr>ContainerRoot := ''/data/./share/''\<rparr>)))"
proof (rule listing_host_independent [OF demo_share_at])
  show "share_at demo_fs2 (demo_cfg\<lparr>ContainerRoot := ''/data/./share/''\<rparr>) demo_share" by code_simp
qed simp_all

end
