(* ===== verification/Go_Time.thy ===== *)
theory Go_Time
  imports Go_Strings
begin

text \<open>
  Go's package \<open>time\<close> as far as the program uses it: instants with nanosecond precision,
  the civil calendar, the RFC 3339 text of an instant in UTC (the form in which times are
  stored in JSON), and the parsing of RFC 3339 and of a browser's local date and time.
  The text of a stored time parses back to the same instant.

  A \<open>time.Time\<close> is its instant. The zone a value carries is not modelled: the program
  converts every time it stores to UTC.
\<close>

section \<open>The calendar\<close>

definition leap :: "nat \<Rightarrow> bool" where
  "leap y \<longleftrightarrow> y mod 4 = 0 \<and> (y mod 100 \<noteq> 0 \<or> y mod 400 = 0)"

definition year_len :: "nat \<Rightarrow> nat" where
  "year_len y = (if leap y then 366 else 365)"

definition month_lens :: "nat \<Rightarrow> nat list" where
  "month_lens y = [31, if leap y then 29 else 28, 31, 30, 31, 30, 31, 31, 30, 31, 30, 31]"

text \<open>Days from the first day of year 0 to the first day of year \<open>y\<close>.\<close>

definition year_start :: "nat \<Rightarrow> nat" where
  "year_start y = 365 * y + (y + 3) div 4 - (y + 99) div 100 + (y + 399) div 400"

definition day_number :: "nat \<Rightarrow> nat \<Rightarrow> nat \<Rightarrow> nat" where
  "day_number y m d = year_start y + sum_list (take (m - 1) (month_lens y)) + (d - 1)"

function find_year :: "nat \<Rightarrow> nat \<Rightarrow> nat \<times> nat" where
  "find_year y r = (if r < year_len y then (y, r) else find_year (y + 1) (r - year_len y))"
  by pat_completeness auto
termination by (relation "measure snd") (auto simp: year_len_def)

fun find_month :: "nat list \<Rightarrow> nat \<Rightarrow> nat \<Rightarrow> nat \<times> nat" where
  "find_month [] m r = (m, r)"
| "find_month (l # ls) m r = (if r < l then (m, r) else find_month ls (m + 1) (r - l))"

text \<open>Year, month and day of a day number; the calendar repeats every 146097 days.\<close>

definition civil :: "nat \<Rightarrow> nat \<times> nat \<times> nat" where
  "civil n =
     (let (y, r) = find_year (400 * (n div 146097)) (n mod 146097);
          (m, d) = find_month (month_lens y) 1 r
      in (y, m, d + 1))"

definition unix_epoch_day :: nat where
  "unix_epoch_day = 719528"

definition second :: int where
  "second = 1000000000"

section \<open>Formatting\<close>

definition digit :: "nat \<Rightarrow> char" where
  "digit d = char_of (48 + d mod 10)"

definition two :: "nat \<Rightarrow> string" where
  "two n = [digit (n div 10), digit n]"

definition four :: "nat \<Rightarrow> string" where
  "four n = [digit (n div 1000), digit (n div 100), digit (n div 10), digit n]"

fun digits_of :: "nat \<Rightarrow> nat \<Rightarrow> string" where
  "digits_of 0 n = []"
| "digits_of (Suc k) n = digits_of k (n div 10) @ [digit n]"

definition frac :: "nat \<Rightarrow> string" where
  "frac n = (if n = 0 then [] else CHR ''.'' # TrimRightByte (digits_of 9 n) CHR ''0'')"

text \<open>
  \<open>MarshalJSON\<close> of a time in UTC: RFC 3339 with the nanoseconds it needs, an error when the
  year is outside 0 to 9999.
\<close>

definition MarshalTime :: "time \<Rightarrow> string option" where
  "MarshalTime t =
     (let secs = t div second; ns = nat (t mod second);
          day = secs div 86400 + int unix_epoch_day; sod = nat (secs mod 86400)
      in if day < 0 then None
         else (let (y, m, d) = civil (nat day) in
               if 9999 < y then None
               else Some (four y @ ''-'' @ two m @ ''-'' @ two d @ ''T'' @ two (sod div 3600) @ '':''
                 @ two (sod div 60 mod 60) @ '':'' @ two (sod mod 60) @ frac ns @ ''Z'')))"

section \<open>Parsing\<close>

definition dig :: "char \<Rightarrow> nat" where
  "dig c = of_char c - 48"

definition isDigit :: "string \<Rightarrow> nat \<Rightarrow> bool" where
  "isDigit s i = (i < length s \<and> is_digit (s ! i))"

definition getnum :: "string \<Rightarrow> bool \<Rightarrow> (nat \<times> string) option" where
  "getnum s fixed =
     (if \<not> isDigit s 0 then None
      else if \<not> isDigit s 1 then (if fixed then None else Some (dig (s ! 0), drop 1 s))
      else Some (dig (s ! 0) * 10 + dig (s ! 1), drop 2 s))"

definition getyear :: "string \<Rightarrow> (nat \<times> string) option" where
  "getyear s =
     (if isDigit s 0 \<and> isDigit s 1 \<and> isDigit s 2 \<and> isDigit s 3
      then Some (dig (s ! 0) * 1000 + dig (s ! 1) * 100 + dig (s ! 2) * 10 + dig (s ! 3), drop 4 s) else None)"

definition skip_lit :: "char \<Rightarrow> string \<Rightarrow> string option" where
  "skip_lit c s = (case s of [] \<Rightarrow> None | x # xs \<Rightarrow> if x = c then Some xs else None)"

definition guard_opt :: "bool \<Rightarrow> 'a option \<Rightarrow> 'a option" where
  "guard_opt b r = (if b then r else None)"

text \<open>A fraction after the seconds, which the layout does not have to mention; nine digits count.\<close>

definition getfrac :: "string \<Rightarrow> (nat \<times> string)" where
  "getfrac s =
     (if 2 \<le> length s \<and> (s ! 0 = CHR ''.'' \<or> s ! 0 = CHR '','') \<and> isDigit s 1
      then (let ds = takeWhile is_digit (tl s); nd = take 9 ds
            in (digits_val 0 nd * 10 ^ (9 - length nd), drop (length ds + 1) s))
      else (0, s))"

text \<open>The zone: \<open>Z\<close> or a sign, hours and minutes; the offset in seconds. The ranges include 24 and 60.\<close>

definition getzone :: "string \<Rightarrow> (int \<times> string) option" where
  "getzone s =
     (if HasPrefix s ''Z'' then Some (0, drop 1 s)
      else if length s < 6 \<or> s ! 3 \<noteq> CHR '':'' then None
      else (case (getnum (take 2 (drop 1 s)) True, getnum (take 2 (drop 4 s)) True) of
          (Some (h, _), Some (mi, _)) \<Rightarrow>
            if 24 < h \<or> 60 < mi then None
            else if s ! 0 = CHR ''+'' then Some (int ((h * 60 + mi) * 60), drop 6 s)
            else if s ! 0 = CHR ''-'' then Some (- int ((h * 60 + mi) * 60), drop 6 s)
            else None
        | _ \<Rightarrow> None))"

text \<open>\<open>2006-01-02T15:04\<close>: the day number and the minute of the day, and the rest of the text.\<close>

definition getdate :: "string \<Rightarrow> ((nat \<times> nat \<times> nat) \<times> string) option" where
  "getdate s =
     Option.bind (getyear s) (\<lambda>(y, s).
     Option.bind (skip_lit CHR ''-'' s) (\<lambda>s.
     Option.bind (getnum s True) (\<lambda>(m, s).
     guard_opt (1 \<le> m \<and> m \<le> 12) (
     Option.bind (skip_lit CHR ''-'' s) (\<lambda>s.
     Option.bind (getnum s True) (\<lambda>(d, s).
     Some ((y, m, d), s)))))))"

definition gethm :: "string \<Rightarrow> ((nat \<times> nat) \<times> string) option" where
  "gethm s =
     Option.bind (skip_lit CHR ''T'' s) (\<lambda>s.
     Option.bind (getnum s False) (\<lambda>(h, s).
     guard_opt (h < 24) (
     Option.bind (skip_lit CHR '':'' s) (\<lambda>s.
     Option.bind (getnum s True) (\<lambda>(mi, s).
     guard_opt (mi < 60) (Some ((h, mi), s)))))))"

definition instant :: "nat \<times> nat \<times> nat \<Rightarrow> nat \<Rightarrow> nat \<Rightarrow> int \<Rightarrow> time option" where
  "instant ymd sod ns off =
     (case ymd of (y, m, d) \<Rightarrow>
        if 1 \<le> d \<and> d \<le> month_lens y ! (m - 1)
        then Some (((int (day_number y m d) - int unix_epoch_day) * 86400 + int sod - off) * second + int ns)
        else None)"

text \<open>\<open>time.Parse(time.RFC3339, s)\<close>.\<close>

definition ParseRFC3339 :: "string \<Rightarrow> time option" where
  "ParseRFC3339 s =
     Option.bind (getdate s) (\<lambda>(ymd, s).
     Option.bind (gethm s) (\<lambda>((h, mi), s).
     Option.bind (skip_lit CHR '':'' s) (\<lambda>s.
     Option.bind (getnum s True) (\<lambda>(sec, s).
     guard_opt (sec < 60) (
     let (ns, s) = getfrac s in
     Option.bind (getzone s) (\<lambda>(off, s).
     guard_opt (s = []) (instant ymd (h * 3600 + mi * 60 + sec) ns off)))))))"

text \<open>
  \<open>UnmarshalJSON\<close> of a time: what \<open>time.Parse\<close> accepts for RFC 3339, since the library leaves its stricter
  checks (two digits for the hour, a period before the fraction, an offset below 24:60) switched off.
\<close>

definition UnmarshalTime :: "string \<Rightarrow> time option" where
  "UnmarshalTime s = ParseRFC3339 s"

text \<open>\<open>time.ParseInLocation(''2006-01-02T15:04'', s, zone)\<close>, \<open>off\<close> seconds east of UTC.\<close>

definition ParseLocal :: "string \<Rightarrow> int \<Rightarrow> time option" where
  "ParseLocal s off =
     Option.bind (getdate s) (\<lambda>(ymd, s).
     Option.bind (gethm s) (\<lambda>((h, mi), s).
     guard_opt (s = []) (instant ymd (h * 3600 + mi * 60) 0 off)))"

text \<open>\<open>t.Truncate(time.Second)\<close>, whose zero time is a full second.\<close>

definition truncate_second :: "time \<Rightarrow> time" where
  "truncate_second t = t div second * second"

section \<open>The calendar is consistent\<close>

lemma ceil_div_Suc:
  assumes "0 < k"
  shows "(Suc y + (k - 1)) div k = (y + (k - 1)) div k + (if y mod k = 0 then 1 else 0)"
proof -
  let ?q = "y div k" let ?r = "y mod k"
  have y: "y = ?q * k + ?r" "?r < k" using assms by simp_all
  have e: "y + (k - 1) = ?q * k + (?r + (k - 1))" "Suc y + (k - 1) = ?q * k + (?r + k)"
    using y(1) assms by linarith+
  have "(?r + k) div k = 1" using y(2) by (intro div_nat_eqI) simp_all
  moreover have "(r + (k - 1)) div k = (if r = 0 then 0 else 1)" if "r < k" for r
    using that assms by (auto intro!: div_nat_eqI)
  moreover have "(Suc y + (k - 1)) div k = ?q + (?r + k) div k" "(y + (k - 1)) div k = ?q + (?r + (k - 1)) div k"
    unfolding e by (rule div_mult_self3, use assms in simp)+
  ultimately show ?thesis using y(2) by simp
qed

lemma year_start_bound: "((y::nat) + 99) div 100 \<le> 365 * y + (y + 3) div 4"
  by linarith

lemma year_start_Suc: "year_start (Suc y) = year_start y + year_len y"
proof -
  have step: "(Suc y + 3) div 4 = (y + 3) div 4 + (if y mod 4 = 0 then 1 else 0)"
    "(Suc y + 99) div 100 = (y + 99) div 100 + (if y mod 100 = 0 then 1 else 0)"
    "(Suc y + 399) div 400 = (y + 399) div 400 + (if y mod 400 = 0 then 1 else 0)"
    using ceil_div_Suc [of 4 y] ceil_div_Suc [of 100 y] ceil_div_Suc [of 400 y] by simp_all
  have nest: "y mod 100 = 0 \<and> y mod 4 = 0" if "y mod 400 = 0"
    using that mod_mod_cancel [of 100 400 y] mod_mod_cancel [of 4 400 y] by simp
  have nest4: "y mod 4 = 0" if "y mod 100 = 0"
    using that mod_mod_cancel [of 4 100 y] by simp
  define a b c where "a = (y + 3) div 4" and "b = (y + 99) div 100" and "c = (y + 399) div 400"
  have "b \<le> 365 * y + a" using year_start_bound [of y] by (simp add: a_def b_def)
  then show ?thesis
    using nest nest4 unfolding year_start_def year_len_def leap_def step a_def [symmetric] b_def [symmetric] c_def [symmetric]
    by (cases "y mod 4 = 0"; cases "y mod 100 = 0"; cases "y mod 400 = 0") simp_all
qed

lemma year_start_mono: "y \<le> z \<Longrightarrow> year_start y \<le> year_start z"
  by (rule lift_Suc_mono_le [of year_start]) (simp_all add: year_start_Suc)

lemma find_year_correct:
  "find_year y r = (y', r') \<Longrightarrow> year_start y + r = year_start y' + r' \<and> r' < year_len y' \<and> y \<le> y'"
proof (induction y r arbitrary: y' r' rule: find_year.induct)
  case (1 y r)
  show ?case
  proof (cases "r < year_len y")
    case True
    then show ?thesis using "1.prems" by simp
  next
    case False
    then have "find_year (y + 1) (r - year_len y) = (y', r')" using "1.prems" by (simp del: find_year.simps add: find_year.simps [of y])
    from "1.IH" [OF False this] show ?thesis using False year_start_Suc [of y] by simp
  qed
qed

lemma sum_month_lens: "sum_list (month_lens y) = year_len y"
  by (simp add: month_lens_def year_len_def)

lemma find_month_correct:
  assumes "find_month ls m r = (m', r')" "r < sum_list ls"
  shows "m \<le> m' \<and> m' < m + length ls \<and> r = sum_list (take (m' - m) ls) + r' \<and> r' < ls ! (m' - m)"
  using assms
proof (induction ls m r rule: find_month.induct)
  case (2 l ls m r)
  show ?case
  proof (cases "r < l")
    case False
    then have "m + 1 \<le> m' \<and> m' < m + 1 + length ls \<and> r - l = sum_list (take (m' - (m + 1)) ls) + r' \<and> r' < ls ! (m' - (m + 1))"
      using 2 by auto
    moreover then have "m' - m = Suc (m' - (m + 1))" by linarith
    ultimately show ?thesis using False by (simp only: take_Suc_Cons nth_Cons_Suc sum_list.Cons) (auto simp: not_less)
  qed (use 2 in auto)
qed simp

lemma year_start_cycle: "year_start (400 * q) = 146097 * q"
proof -
  have "(400 * q + 3) div 4 = 100 * q" "(400 * q + 99) div 100 = 4 * q" "(400 * q + 399) div 400 = q"
    by linarith+
  then show ?thesis by (simp add: year_start_def)
qed

lemma civil_correct:
  assumes "civil n = (y, m, d)"
  shows "day_number y m d = n" "1 \<le> m" "m \<le> 12" "1 \<le> d" "d \<le> month_lens y ! (m - 1)" "d \<le> 31"
proof -
  obtain r where y: "find_year (400 * (n div 146097)) (n mod 146097) = (y, r)"
      "find_month (month_lens y) 1 r = (m, d - 1)" "1 \<le> d"
    using assms unfolding civil_def Let_def by (auto simp del: find_year.simps split: prod.splits)
  have yr: "year_start (400 * (n div 146097)) + n mod 146097 = year_start y + r" "r < year_len y"
    using find_year_correct [OF y(1)] by simp_all
  have mo: "1 \<le> m" "m < 1 + length (month_lens y)" "r = sum_list (take (m - 1) (month_lens y)) + (d - 1)"
      "d - 1 < month_lens y ! (m - 1)"
    using find_month_correct [OF y(2)] yr(2) sum_month_lens by simp_all
  show "1 \<le> m" "m \<le> 12" "1 \<le> d" "d \<le> month_lens y ! (m - 1)"
    using mo y(3) by (simp_all add: month_lens_def)
  have "n = 146097 * (n div 146097) + n mod 146097" by simp
  then show "day_number y m d = n" using yr mo(3) by (simp add: day_number_def year_start_cycle)
  have "m - 1 \<in> {0..<12}" using mo(1,2) by (auto simp: month_lens_def)
  moreover have "\<forall>i \<in> {0..<12}. month_lens y ! i \<le> 31"
    by (simp add: month_lens_def atLeastLessThan_nat_numeral)
  ultimately show "d \<le> 31" using mo(4) by fastforce
qed

section \<open>Round trip\<close>

lemma of_char_digit_of: "of_char (digit n) = 48 + n mod 10"
proof -
  have "48 + n mod 10 < 256" by simp
  then show ?thesis by (simp add: digit_def of_char_of)
qed

lemma is_digit_digit [simp]: "is_digit (digit n)"
  using of_char_digit_of [of n] by (simp add: is_digit_def in_range_def)

lemma dig_digit [simp]: "dig (digit n) = n mod 10"
  by (simp add: dig_def of_char_digit_of)

lemma getnum_two [simp]: "n < 100 \<Longrightarrow> getnum (two n @ s) fixed = Some (n, s)"
  by (simp add: getnum_def two_def isDigit_def)

lemma skip_lit_Cons [simp]: "skip_lit c (c # s) = Some s"
  by (simp add: skip_lit_def)

lemma digits_of_digits: "length (digits_of k n) = k" "list_all is_digit (digits_of k n)"
  by (induction k arbitrary: n) simp_all

lemma digits_val_snoc: "digits_val a (s @ [c]) = digits_val a s * 10 + dig c"
  by (simp add: digits_val_append dig_def)

lemma digits_val_digits_of: "digits_val 0 (digits_of k n) = n mod 10 ^ k"
proof (induction k arbitrary: n)
  case (Suc k)
  have "n mod 10 ^ Suc k = n div 10 mod 10 ^ k * 10 + n mod 10"
    by (metis mod_mult2_eq mult.commute power_Suc)
  then show ?case using Suc by (simp add: digits_val_snoc)
qed simp

lemma getyear_four [simp]:
  assumes "y < 10000"
  shows "getyear (four y @ s) = Some (y, s)"
proof -
  have "four y = digits_of (Suc (Suc (Suc (Suc 0)))) y" by (simp add: four_def div_mult2_eq [symmetric])
  then have "digits_val 0 (four y) = y" using digits_val_digits_of [of "Suc (Suc (Suc (Suc 0)))" y] assms by simp
  then show ?thesis by (simp add: getyear_def four_def isDigit_def nth_Cons' dig_def)
qed

lemma TrimRightByte_split: "\<exists>k. s = TrimRightByte s c @ replicate k c"
proof (induction s rule: rev_induct)
  case (snoc x xs)
  then obtain k where k: "xs = TrimRightByte xs c @ replicate k c" by blast
  show ?case
  proof (cases "x = c")
    case True
    then have "TrimRightByte (xs @ [x]) c = TrimRightByte xs c" by (simp add: TrimRightByte_def)
    then have "xs @ [x] = TrimRightByte (xs @ [x]) c @ replicate (Suc k) c"
      using k True by (metis append_assoc replicate_append_same replicate_Suc)
    then show ?thesis by blast
  next
    case False
    then show ?thesis by (intro exI [of _ 0]) (simp add: TrimRightByte_def)
  qed
qed (simp add: TrimRightByte_def)

lemma digits_val_zeros: "digits_val a (replicate k CHR ''0'') = a * 10 ^ k"
  by (induction k arbitrary: a) simp_all

lemma getfrac_frac:
  assumes "n < 1000000000"
  shows "getfrac (frac n @ ''Z'') = (n, ''Z'')"
proof (cases "n = 0")
  case True
  then show ?thesis by (simp add: frac_def getfrac_def)
next
  case False
  let ?ds = "digits_of 9 n" let ?t = "TrimRightByte ?ds CHR ''0''"
  obtain k where k: "?ds = ?t @ replicate k CHR ''0''" using TrimRightByte_split by blast
  have len: "length ?t + k = 9" using k digits_of_digits(1) [of 9 n] by (metis length_append length_replicate)
  have dg: "list_all is_digit ?t" using k digits_of_digits(2) [of 9 n] by (metis list_all_append)
  have v: "digits_val 0 ?t * 10 ^ k = n"
  proof -
    have "digits_val 0 ?ds = n" using digits_val_digits_of [of 9 n] assms by simp
    then show ?thesis using k digits_val_append [of 0 ?t] by (metis digits_val_zeros)
  qed
  have "?t \<noteq> []" using v False by auto
  then obtain c cs where c: "?t = c # cs" by (cases ?t) auto
  have tw: "takeWhile is_digit (?t @ ''Z'') = ?t"
    using dg by (simp add: takeWhile_append2 list_all_iff is_digit_def in_range_def)
  have "take 9 ?t = ?t" "9 - length ?t = k" using len by simp_all
  then show ?thesis
    using False tw v c dg unfolding getfrac_def frac_def by (simp add: isDigit_def Let_def)
qed

lemma getzone_Z [simp]: "getzone ''Z'' = Some (0, [])"
  by (simp add: getzone_def)

lemma guard_opt_True [simp]: "P \<Longrightarrow> guard_opt P r = r"
  by (simp add: guard_opt_def)

lemma ParseRFC3339_text:
  assumes "y < 10000" "1 \<le> m" "m \<le> 12" "1 \<le> d" "d \<le> 31" "h < 24" "mi < 60" "sec < 60" "ns < 1000000000"
  shows "ParseRFC3339 (four y @ ''-'' @ two m @ ''-'' @ two d @ ''T'' @ two h @ '':'' @ two mi @ '':''
      @ two sec @ frac ns @ ''Z'') = instant (y, m, d) (h * 3600 + mi * 60 + sec) ns 0"
proof -
  let ?s3 = "two sec @ frac ns @ ''Z''"
  let ?s2 = "''T'' @ two h @ '':'' @ two mi @ '':'' @ ?s3"
  have d: "getdate (four y @ ''-'' @ two m @ ''-'' @ two d @ ?s2) = Some ((y, m, d), ?s2)"
    using assms unfolding getdate_def by simp
  have t: "gethm ?s2 = Some ((h, mi), '':'' @ ?s3)"
    using assms unfolding gethm_def by simp
  show ?thesis
    unfolding ParseRFC3339_def d using t assms getfrac_frac [OF assms(9)] by simp
qed

text \<open>The text stored for a time is read back as the same instant.\<close>

lemma UnmarshalTime_MarshalTime:
  assumes "MarshalTime t = Some s"
  shows "UnmarshalTime s = Some t"
proof -
  define secs where "secs = t div second"
  define sod where "sod = nat (secs mod 86400)"
  define ns where "ns = nat (t mod second)"
  define day where "day = secs div 86400 + int unix_epoch_day"
  obtain y m d where c: "civil (nat day) = (y, m, d)" by (cases "civil (nat day)") auto
  have s: "day \<ge> 0" "y \<le> 9999" "s = four y @ ''-'' @ two m @ ''-'' @ two d @ ''T'' @ two (sod div 3600) @ '':''
      @ two (sod div 60 mod 60) @ '':'' @ two (sod mod 60) @ frac ns @ ''Z''"
    using assms c unfolding MarshalTime_def Let_def secs_def [symmetric] sod_def [symmetric] ns_def [symmetric] day_def [symmetric]
    by (auto split: if_splits)
  note cv = civil_correct [OF c]
  have sod: "sod < 86400" "int sod = secs mod 86400" by (simp_all add: sod_def nat_less_iff)
  have ns: "ns < 1000000000" "int ns = t mod second" by (simp_all add: ns_def nat_less_iff second_def)
  have "ParseRFC3339 s = instant (y, m, d) (sod div 3600 * 3600 + sod div 60 mod 60 * 60 + sod mod 60) ns 0"
    unfolding s(3) by (rule ParseRFC3339_text) (use cv s(2) sod ns in auto)
  also have "sod div 3600 * 3600 + sod div 60 mod 60 * 60 + sod mod 60 = sod"
  proof -
    have "sod div 3600 = sod div 60 div 60" by (simp add: div_mult2_eq [symmetric])
    moreover have "sod div 60 div 60 * 60 + sod div 60 mod 60 = sod div 60" "sod div 60 * 60 + sod mod 60 = sod"
      by simp_all
    ultimately show ?thesis by linarith
  qed
  also have "instant (y, m, d) sod ns 0 = Some (((day - int unix_epoch_day) * 86400 + int sod) * second + int ns)"
    using cv s(1) by (simp add: instant_def)
  also have "(day - int unix_epoch_day) * 86400 + int sod = secs" using sod(2) by (simp add: day_def)
  also have "secs * second + int ns = t" using ns(2) by (simp add: secs_def)
  finally have "ParseRFC3339 s = Some t" .
  then show ?thesis by (simp add: UnmarshalTime_def)
qed

end
