(* ===== verification/Go_Json.thy ===== *)
theory Go_Json
  imports Go_Time
begin

text \<open>
  Go's \<open>encoding/json\<close> on document trees. The text of a document is either malformed or a
  tree; the escapes and the layout of the text are not modelled. Decoding follows
  \<open>json.Unmarshal\<close>: a member goes to the field with its exact name, or else to one whose
  name is equal under case folding; unknown members are ignored, \<open>null\<close> leaves a plain
  field alone and clears a pointer, map or slice, and a value of another type is an error.
  Encoding replaces invalid UTF-8 by the replacement character.
\<close>

datatype json =
    JNull
  | JBool bool
  | JNum string
  | JStr string
  | JArr "json list"
  | JObj "(string \<times> json) list"

datatype doc = Malformed | Doc json

section \<open>Strings\<close>

definition fix_utf8 :: "string \<Rightarrow> string" where
  "fix_utf8 s =
     concat (map (\<lambda>(r, b). if r = RuneError \<and> length b = 1 then [CHR 0xEF, CHR 0xBF, CHR 0xBD] else b) (runes s))"

abbreviation valid_utf8 :: "string \<Rightarrow> bool" where
  "valid_utf8 s \<equiv> fix_utf8 s = s"

lemma valid_utf8_ascii: "ascii s \<Longrightarrow> valid_utf8 s"
proof -
  assume a: "ascii s"
  then have "fix_utf8 s = concat (map (\<lambda>c. [c]) s)"
    unfolding fix_utf8_def runes_ascii [OF a] map_map
    by (intro arg_cong [of _ _ concat] map_cong) (auto simp: RuneError_def list_all_iff)
  then show ?thesis by simp
qed

text \<open>Case folding of member names: the ASCII letters, and the two runes that fold to one.\<close>

definition fold_name :: "string \<Rightarrow> string" where
  "fold_name s = concat (map (\<lambda>(r, b).
      if r = 383 then ''S'' else if r = 8490 then ''K''
      else if 97 \<le> r \<and> r \<le> 122 then [char_of (r - 32)] else b) (runes s))"

section \<open>Decoding\<close>

type_synonym 's field = "string \<times> (json \<Rightarrow> 's \<Rightarrow> 's option)"

definition find_field :: "'s field list \<Rightarrow> string \<Rightarrow> (json \<Rightarrow> 's \<Rightarrow> 's option) option" where
  "find_field fields k =
     (case map_of fields k of
        Some f \<Rightarrow> Some f
      | None \<Rightarrow> map_option snd (find (\<lambda>(n, f). fold_name n = fold_name k) fields))"

fun decode_members :: "'s field list \<Rightarrow> (string \<times> json) list \<Rightarrow> 's \<Rightarrow> 's option" where
  "decode_members fields [] s = Some s"
| "decode_members fields ((k, v) # ms) s =
     (case find_field fields k of
        None \<Rightarrow> decode_members fields ms s
      | Some f \<Rightarrow> Option.bind (f v s) (decode_members fields ms))"

definition decode_struct :: "'s field list \<Rightarrow> json \<Rightarrow> 's \<Rightarrow> 's option" where
  "decode_struct fields j s =
     (case j of JNull \<Rightarrow> Some s | JObj ms \<Rightarrow> decode_members fields ms s | _ \<Rightarrow> None)"

text \<open>Decoders of one value; \<open>upd\<close> is the update function of the record field.\<close>

definition dec_string :: "((string \<Rightarrow> string) \<Rightarrow> 's \<Rightarrow> 's) \<Rightarrow> json \<Rightarrow> 's \<Rightarrow> 's option" where
  "dec_string upd j s = (case j of JNull \<Rightarrow> Some s | JStr x \<Rightarrow> Some (upd (\<lambda>_. x) s) | _ \<Rightarrow> None)"

definition dec_bool :: "((bool \<Rightarrow> bool) \<Rightarrow> 's \<Rightarrow> 's) \<Rightarrow> json \<Rightarrow> 's \<Rightarrow> 's option" where
  "dec_bool upd j s = (case j of JNull \<Rightarrow> Some s | JBool b \<Rightarrow> Some (upd (\<lambda>_. b) s) | _ \<Rightarrow> None)"

definition dec_int :: "((int \<Rightarrow> int) \<Rightarrow> 's \<Rightarrow> 's) \<Rightarrow> json \<Rightarrow> 's \<Rightarrow> 's option" where
  "dec_int upd j s =
     (case j of JNull \<Rightarrow> Some s | JNum x \<Rightarrow> map_option (\<lambda>i. upd (\<lambda>_. i) s) (ParseInt64 x) | _ \<Rightarrow> None)"

definition dec_time :: "((time \<Rightarrow> time) \<Rightarrow> 's \<Rightarrow> 's) \<Rightarrow> json \<Rightarrow> 's \<Rightarrow> 's option" where
  "dec_time upd j s =
     (case j of JNull \<Rightarrow> Some s | JStr x \<Rightarrow> map_option (\<lambda>t. upd (\<lambda>_. t) s) (UnmarshalTime x) | _ \<Rightarrow> None)"

definition dec_time_ptr :: "((time option \<Rightarrow> time option) \<Rightarrow> 's \<Rightarrow> 's) \<Rightarrow> json \<Rightarrow> 's \<Rightarrow> 's option" where
  "dec_time_ptr upd j s =
     (case j of JNull \<Rightarrow> Some (upd (\<lambda>_. None) s)
      | JStr x \<Rightarrow> map_option (\<lambda>t. upd (\<lambda>_. Some t) s) (UnmarshalTime x) | _ \<Rightarrow> None)"

definition dec_string_ptr :: "((string option \<Rightarrow> string option) \<Rightarrow> 's \<Rightarrow> 's) \<Rightarrow> json \<Rightarrow> 's \<Rightarrow> 's option" where
  "dec_string_ptr upd j s =
     (case j of JNull \<Rightarrow> Some (upd (\<lambda>_. None) s) | JStr x \<Rightarrow> Some (upd (\<lambda>_. Some x) s) | _ \<Rightarrow> None)"

text \<open>A slice starts empty and takes each element; a map is kept and takes each member.\<close>

fun dec_elems :: "(json \<Rightarrow> 'a option) \<Rightarrow> json list \<Rightarrow> 'a list option" where
  "dec_elems f [] = Some []"
| "dec_elems f (j # js) = Option.bind (f j) (\<lambda>x. map_option ((#) x) (dec_elems f js))"

definition dec_slice :: "(json \<Rightarrow> 'a option) \<Rightarrow> json \<Rightarrow> 'a list option" where
  "dec_slice f j = (case j of JNull \<Rightarrow> Some [] | JArr js \<Rightarrow> dec_elems f js | _ \<Rightarrow> None)"

fun dec_map_members :: "(json \<Rightarrow> 'a option) \<Rightarrow> (string \<times> json) list \<Rightarrow> (string \<times> 'a) list \<Rightarrow> (string \<times> 'a) list option" where
  "dec_map_members f [] al = Some al"
| "dec_map_members f ((k, v) # ms) al = Option.bind (f v) (\<lambda>x. dec_map_members f ms (AList.update k x al))"

definition dec_elem_string :: "json \<Rightarrow> string option" where
  "dec_elem_string j = (case j of JNull \<Rightarrow> Some [] | JStr x \<Rightarrow> Some x | _ \<Rightarrow> None)"

lemmas json_dec_defs = dec_string_def dec_bool_def dec_int_def dec_time_def dec_time_ptr_def dec_string_ptr_def

section \<open>Encoding\<close>

definition enc_string :: "string \<Rightarrow> json" where
  "enc_string s = JStr (fix_utf8 s)"

definition omit_empty :: "string \<Rightarrow> string \<Rightarrow> (string \<times> json) list" where
  "omit_empty name s = (if s = [] then [] else [(name, enc_string s)])"

lemma dec_elems_map:
  "(\<And>x. x \<in> set xs \<Longrightarrow> f (g x) = Some x) \<Longrightarrow> dec_elems f (map g xs) = Some xs"
  by (induction xs) auto

lemma dec_map_members_enc:
  assumes "\<And>k v. (k, v) \<in> set kvs \<Longrightarrow> f (g v) = Some v"
    and "distinct (keys_of (al @ kvs))"
  shows "dec_map_members f (map (\<lambda>(k, v). (k, g v)) kvs) al = Some (al @ kvs)"
  using assms
proof (induction kvs arbitrary: al)
  case (Cons a kvs)
  obtain k v where a: "a = (k, v)" by (cases a)
  have "k \<notin> set (keys_of al)" using Cons.prems(2) a by auto
  then have "AList.update k v al = al @ [(k, v)]" by (induction al) auto
  moreover have "f (g v) = Some v" by (rule Cons.prems(1) [of k]) (simp add: a)
  ultimately show ?case using Cons.IH [of "al @ [(k, v)]"] Cons.prems a by auto
qed simp

lemma dec_map_members_distinct:
  "dec_map_members f ms al = Some al' \<Longrightarrow> distinct (keys_of al) \<Longrightarrow> distinct (keys_of al')"
  by (induction f ms al rule: dec_map_members.induct)
    (auto simp: Option.bind_eq_Some_conv distinct_update)

end
