(* ===== verification/Control_Files.thy ===== *)
theory Control_Files
  imports Go_Json Go_Paths
begin

text \<open>
  The small control files of the two services (the shared configuration, the link store,
  the user manifest and the key notes) and the way they are written: to a temporary file
  in the same directory that is synced and then renamed over the target. A write is a
  sequence of system calls, each of which may fail; its model is the list of all states of
  the file system that another process can observe, the last one being the final state.
\<close>

section \<open>Files and system calls\<close>

record cfile =
  cf_doc :: doc
  cf_mode :: nat
  cf_gid :: int

type_synonym cfs = "string \<rightharpoonup> cfile"

text \<open>
  What one run of a service meets: the read faults per path, and for the calls of one write
  the faults, the name and group of the new temporary file, and the group of the directory.
\<close>

record io_env =
  io_read :: "string \<Rightarrow> ioerr option"
  io_mkdir :: "ioerr option"
  io_create :: "ioerr option"
  io_fchmod :: "ioerr option"
  io_write :: "ioerr option"
  io_sync :: "ioerr option"
  io_close :: "ioerr option"
  io_chown :: "ioerr option"
  io_chmod :: "ioerr option"
  io_rename :: "ioerr option"
  io_remove :: "ioerr option"
  io_tmp :: string
  io_gid :: int
  io_dirgid :: "int option"

definition ReadFile :: "io_env \<Rightarrow> cfs \<Rightarrow> string \<Rightarrow> (ioerr, doc) result" where
  "ReadFile io fs p =
     (case io_read io p of
        Some e \<Rightarrow> Inl e
      | None \<Rightarrow> (case fs p of None \<Rightarrow> Inl ENotExist | Some f \<Rightarrow> Inr (cf_doc f)))"

lemma ReadFile_cong: "st p = fs p \<Longrightarrow> ReadFile io st p = ReadFile io fs p"
  by (simp only: ReadFile_def)

text \<open>One call: its fault, and its effect when it succeeds.\<close>

type_synonym call = "ioerr option \<times> (cfs \<Rightarrow> cfs)"

fun run_calls :: "call list \<Rightarrow> cfs \<Rightarrow> cfs list \<times> ioerr option" where
  "run_calls [] fs = ([fs], None)"
| "run_calls ((Some e, f) # cs) fs = ([fs], Some e)"
| "run_calls ((None, f) # cs) fs = (case run_calls cs (f fs) of (tr, r) \<Rightarrow> (fs # tr, r))"

text \<open>The state a run ends in.\<close>

definition final :: "cfs list \<times> ioerr option \<Rightarrow> cfs" where
  "final r = last (fst r)"

definition unlink :: "string \<Rightarrow> cfs \<Rightarrow> cfs" where
  "unlink p fs = fs(p := None)"

definition set_mode :: "string \<Rightarrow> nat \<Rightarrow> cfs \<Rightarrow> cfs" where
  "set_mode p m fs = (case fs p of None \<Rightarrow> fs | Some f \<Rightarrow> fs(p \<mapsto> f\<lparr>cf_mode := m\<rparr>))"

definition set_gid :: "string \<Rightarrow> int \<Rightarrow> cfs \<Rightarrow> cfs" where
  "set_gid p g fs = (case fs p of None \<Rightarrow> fs | Some f \<Rightarrow> fs(p \<mapsto> f\<lparr>cf_gid := g\<rparr>))"

definition set_doc :: "string \<Rightarrow> doc \<Rightarrow> cfs \<Rightarrow> cfs" where
  "set_doc p d fs = (case fs p of None \<Rightarrow> fs | Some f \<Rightarrow> fs(p \<mapsto> f\<lparr>cf_doc := d\<rparr>))"

definition rename_file :: "string \<Rightarrow> string \<Rightarrow> cfs \<Rightarrow> cfs" where
  "rename_file p q fs = (case fs p of None \<Rightarrow> fs | Some f \<Rightarrow> fs(p := None, q \<mapsto> f))"

text \<open>\<open>os.CreateTemp\<close> opens a new file with mode 0600 (384); an error of the deferred removal is ignored.\<close>

definition create_temp :: "io_env \<Rightarrow> cfs \<Rightarrow> cfs" where
  "create_temp io fs = fs(io_tmp io \<mapsto> \<lparr>cf_doc = Malformed, cf_mode = 384, cf_gid = io_gid io\<rparr>)"

definition deferred_remove :: "io_env \<Rightarrow> cfs list \<times> ioerr option \<Rightarrow> cfs list \<times> ioerr option" where
  "deferred_remove io r =
     (fst r @ [if io_remove io = None then unlink (io_tmp io) (final r) else final r], snd r)"

text \<open>
  The body of a write after the temporary file exists. A failing \<open>Write\<close> leaves a prefix of the
  text, which is no document; \<open>Malformed\<close> stands for it. The best-effort change of group
  never fails the write.
\<close>

definition adopt_group :: "io_env \<Rightarrow> cfs \<Rightarrow> cfs" where
  "adopt_group io fs =
     (case io_dirgid io of
        None \<Rightarrow> fs
      | Some g \<Rightarrow> (if io_chown io = None then set_gid (io_tmp io) g fs else fs))"

text \<open>
  The two styles of the code: a file shared with the other service is owner-only while it is
  written and gets the directory's group and mode 0640 (416) when published; a private file
  gets mode 0600 before it is published.
\<close>

definition write_shared :: "io_env \<Rightarrow> string \<Rightarrow> doc \<Rightarrow> cfs \<Rightarrow> cfs list \<times> ioerr option" where
  "write_shared io path d fs =
     (case io_create io of
        Some e \<Rightarrow> ([fs], Some e)
      | None \<Rightarrow>
          (case deferred_remove io (run_calls
             [(io_fchmod io, set_mode (io_tmp io) 384),
              (io_write io, set_doc (io_tmp io) d),
              (io_sync io, id), (io_close io, id),
              (None, adopt_group io),
              (io_rename io, rename_file (io_tmp io) path),
              (io_chmod io, set_mode path 416)] (create_temp io fs)) of
             (tr, r) \<Rightarrow> (fs # tr, r)))"

definition write_private :: "io_env \<Rightarrow> string \<Rightarrow> doc \<Rightarrow> cfs \<Rightarrow> cfs list \<times> ioerr option" where
  "write_private io path d fs =
     (case io_mkdir io of
        Some e \<Rightarrow> ([fs], Some e)
      | None \<Rightarrow>
     (case io_create io of
        Some e \<Rightarrow> ([fs], Some e)
      | None \<Rightarrow>
          (case deferred_remove io (run_calls
             [(io_write io, set_doc (io_tmp io) d),
              (io_sync io, id), (io_close io, id),
              (io_chmod io, set_mode (io_tmp io) 384),
              (io_rename io, rename_file (io_tmp io) path)] (create_temp io fs)) of
             (tr, r) \<Rightarrow> (fs # tr, r))))"

section \<open>What readers observe\<close>

lemma run_calls_Cons:
  "run_calls ((x, f) # cs) fs =
     (case x of Some e \<Rightarrow> ([fs], Some e)
      | None \<Rightarrow> (fs # fst (run_calls cs (f fs)), snd (run_calls cs (f fs))))"
  by (cases x) (simp_all add: case_prod_unfold)

lemma run_calls_nonempty [simp]: "fst (run_calls cs fs) \<noteq> []"
  by (induction cs fs rule: run_calls.induct) (simp_all add: case_prod_unfold)

lemmas call_effects = unlink_def set_mode_def set_gid_def set_doc_def rename_file_def create_temp_def
  adopt_group_def deferred_remove_def final_def

text \<open>The contract of a writer, under the name of the temporary file it is given.\<close>

locale atomic_writer =
  fixes write_file :: "io_env \<Rightarrow> string \<Rightarrow> doc \<Rightarrow> cfs \<Rightarrow> cfs list \<times> ioerr option"
    and mode :: nat
  assumes observed: "io_tmp io \<noteq> path \<Longrightarrow> st \<in> set (fst (write_file io path d fs))
      \<Longrightarrow> st path = fs path \<or> (\<exists>f. st path = Some f \<and> cf_doc f = d)"
    and published: "io_tmp io \<noteq> path \<Longrightarrow> snd (write_file io path d fs) = None
      \<Longrightarrow> \<exists>f. final (write_file io path d fs) path = Some f \<and> cf_doc f = d \<and> cf_mode f = mode"
    and others: "p \<noteq> path \<Longrightarrow> p \<noteq> io_tmp io \<Longrightarrow> st \<in> set (fst (write_file io path d fs)) \<Longrightarrow> st p = fs p"
    and owner_only: "io_tmp io \<noteq> path \<Longrightarrow> fs (io_tmp io) = None \<Longrightarrow> st \<in> set (fst (write_file io path d fs))
      \<Longrightarrow> st (io_tmp io) = Some f \<Longrightarrow> cf_mode f = 384"
    and cleaned: "io_tmp io \<noteq> path \<Longrightarrow> fs (io_tmp io) = None \<Longrightarrow> io_remove io = None
      \<Longrightarrow> final (write_file io path d fs) (io_tmp io) = None"
    and some_state: "fst (write_file io path d fs) \<noteq> []"
begin

lemma read_old_or_new:
  assumes "io_tmp io \<noteq> path" "st \<in> set (fst (write_file io path d fs))"
  shows "ReadFile rio st path \<in> {ReadFile rio fs path, Inr d}"
  using observed [OF assms] by (auto simp: ReadFile_def split: option.splits)

lemma final_state: "final (write_file io path d fs) \<in> set (fst (write_file io path d fs))"
  using some_state by (simp add: final_def)

lemma read_after:
  assumes "io_tmp io \<noteq> path" "snd (write_file io path d fs) = None" "io_read rio path = None"
  shows "ReadFile rio (final (write_file io path d fs)) path = Inr d"
  using published [OF assms(1,2)] assms(3) by (auto simp: ReadFile_def)

lemma read_other:
  assumes "p \<noteq> path" "p \<noteq> io_tmp io" "st \<in> set (fst (write_file io path d fs))"
  shows "ReadFile rio st p = ReadFile rio fs p"
  by (rule ReadFile_cong) (rule others [OF assms])

end

text \<open>A writer that never publishes when it reports an error.\<close>

locale strict_writer = atomic_writer +
  assumes failed: "io_tmp io \<noteq> path \<Longrightarrow> snd (write_file io path d fs) \<noteq> None
      \<Longrightarrow> st \<in> set (fst (write_file io path d fs)) \<Longrightarrow> st path = fs path"
begin

lemma read_failed:
  assumes "io_tmp io \<noteq> path" "snd (write_file io path d fs) = Some e"
  shows "ReadFile rio (final (write_file io path d fs)) path = ReadFile rio fs path"
  by (rule ReadFile_cong, rule failed [OF assms(1) _ final_state]) (simp add: assms(2))

end

interpretation shared_file: atomic_writer write_shared 416
  by unfold_locales
    (auto simp: write_shared_def run_calls_Cons call_effects split: option.splits if_splits)

interpretation private_file: strict_writer write_private 384
  by unfold_locales
    (auto simp: write_private_def run_calls_Cons call_effects split: option.splits if_splits)

end
