(* ===== verification/Shared_Config.thy ===== *)
theory Shared_Config
  imports Config_Pkg Control_Files
begin

text \<open>
  The package \<open>internal/config\<close>, file \<open>shared.go\<close>: the runtime settings that the admin
  service writes and both services read, their validation, loading and atomic saving.
\<close>

definition DefaultSharedConfigPath :: string where
  "DefaultSharedConfigPath = ''/etc/app/config.json''"

record SharedConfig =
  sc_HashAlgorithm :: string
  sc_HashTarget :: string
  sc_PublicURL :: string
  sc_AdminToken :: string
  sc_SftpAdminPassword :: string

definition shared_zero :: SharedConfig where
  "shared_zero = \<lparr>sc_HashAlgorithm = [], sc_HashTarget = [], sc_PublicURL = [], sc_AdminToken = [],
     sc_SftpAdminPassword = []\<rparr>"

definition shared_Validate :: "SharedConfig \<Rightarrow> config_error option" where
  "shared_Validate c =
     (if sc_HashTarget c \<noteq> ''file'' \<and> sc_HashTarget c \<noteq> ''filename''
      then Some (InvalidHashTarget (sc_HashTarget c))
      else if sc_HashAlgorithm c \<noteq> ''md5'' \<and> sc_HashAlgorithm c \<noteq> ''sha256''
      then Some (InvalidHashAlgorithm (sc_HashAlgorithm c))
      else if sc_PublicURL c = [] then Some InvalidPublicURL
      else if sc_AdminToken c = [] then Some InvalidAdminToken
      else if sc_SftpAdminPassword c = [] then Some InvalidSftpAdminPassword
      else None)"

text \<open>The struct tags.\<close>

definition shared_fields :: "SharedConfig field list" where
  "shared_fields =
     [(''hash_algorithm'', dec_string sc_HashAlgorithm_update),
      (''hash_target'', dec_string sc_HashTarget_update),
      (''public_url'', dec_string sc_PublicURL_update),
      (''admin_token'', dec_string sc_AdminToken_update),
      (''sftp_admin_password'', dec_string sc_SftpAdminPassword_update)]"

definition shared_decode :: "doc \<Rightarrow> SharedConfig option" where
  "shared_decode d = (case d of Malformed \<Rightarrow> None | Doc j \<Rightarrow> decode_struct shared_fields j shared_zero)"

definition shared_encode :: "SharedConfig \<Rightarrow> doc" where
  "shared_encode c = Doc (JObj
     [(''hash_algorithm'', enc_string (sc_HashAlgorithm c)),
      (''hash_target'', enc_string (sc_HashTarget c)),
      (''public_url'', enc_string (sc_PublicURL c)),
      (''admin_token'', enc_string (sc_AdminToken c)),
      (''sftp_admin_password'', enc_string (sc_SftpAdminPassword c))])"

datatype shared_error = SharedIO ioerr | SharedSyntax | SharedInvalid config_error

definition LoadShared :: "io_env \<Rightarrow> cfs \<Rightarrow> string \<Rightarrow> (shared_error, SharedConfig) result" where
  "LoadShared io fs path =
     (case ReadFile io fs path of
        Inl e \<Rightarrow> Inl (SharedIO e)
      | Inr raw \<Rightarrow>
          (case shared_decode raw of
             None \<Rightarrow> Inl SharedSyntax
           | Some c \<Rightarrow> (case shared_Validate c of Some e \<Rightarrow> Inl (SharedInvalid e) | None \<Rightarrow> Inr c)))"

text \<open>\<open>Save\<close>: the states other processes can observe, and the result.\<close>

definition shared_Save :: "io_env \<Rightarrow> string \<Rightarrow> SharedConfig \<Rightarrow> cfs \<Rightarrow> cfs list \<times> shared_error option" where
  "shared_Save io path c fs =
     (case shared_Validate c of
        Some e \<Rightarrow> ([fs], Some (SharedInvalid e))
      | None \<Rightarrow>
          (case io_mkdir io of
             Some e \<Rightarrow> ([fs], Some (SharedIO e))
           | None \<Rightarrow>
               (case write_shared io path (shared_encode c) fs of
                  (tr, r) \<Rightarrow> (tr, map_option SharedIO r))))"

section \<open>Loading and saving\<close>

lemma shared_decode_encode:
  assumes "valid_utf8 (sc_HashAlgorithm c)" "valid_utf8 (sc_HashTarget c)" "valid_utf8 (sc_PublicURL c)"
    "valid_utf8 (sc_AdminToken c)" "valid_utf8 (sc_SftpAdminPassword c)"
  shows "shared_decode (shared_encode c) = Some c"
  using assms
  by (simp add: shared_decode_def shared_encode_def decode_struct_def shared_fields_def find_field_def
      dec_string_def enc_string_def shared_zero_def)

lemma shared_Validate_None:
  "shared_Validate c = None \<longleftrightarrow> sc_HashTarget c \<in> {''file'', ''filename''}
     \<and> sc_HashAlgorithm c \<in> {''md5'', ''sha256''} \<and> sc_PublicURL c \<noteq> [] \<and> sc_AdminToken c \<noteq> []
     \<and> sc_SftpAdminPassword c \<noteq> []"
  by (auto simp: shared_Validate_def)

lemma LoadShared_valid: "LoadShared io fs path = Inr c \<Longrightarrow> shared_Validate c = None"
  by (auto simp: LoadShared_def split: sum.splits option.splits)

lemma LoadShared_cong: "ReadFile io st path = ReadFile io fs path \<Longrightarrow> LoadShared io st path = LoadShared io fs path"
  by (simp only: LoadShared_def)

text \<open>The texts of a configuration that can be written in JSON without loss.\<close>

definition shared_text :: "SharedConfig \<Rightarrow> bool" where
  "shared_text c \<longleftrightarrow> valid_utf8 (sc_PublicURL c) \<and> valid_utf8 (sc_AdminToken c) \<and> valid_utf8 (sc_SftpAdminPassword c)"

lemma LoadShared_new:
  assumes "ReadFile io st path = Inr (shared_encode c)" "shared_Validate c = None" "shared_text c"
  shows "LoadShared io st path = Inr c"
proof -
  have "valid_utf8 (sc_HashAlgorithm c)" "valid_utf8 (sc_HashTarget c)"
    using assms(2) valid_utf8_ascii by (auto simp: shared_Validate_None)
  then show ?thesis using assms shared_decode_encode [of c] by (simp add: LoadShared_def shared_text_def)
qed

lemma shared_Save_trace:
  "st \<in> set (fst (shared_Save io path c fs)) \<Longrightarrow>
     st = fs \<or> shared_Validate c = None \<and> st \<in> set (fst (write_shared io path (shared_encode c) fs))"
  by (auto simp: shared_Save_def split: option.splits prod.splits)

lemma shared_Save_ok:
  assumes "snd (shared_Save io path c fs) = None"
  shows "shared_Validate c = None" "snd (write_shared io path (shared_encode c) fs) = None"
    "fst (shared_Save io path c fs) = fst (write_shared io path (shared_encode c) fs)"
  using assms by (auto simp: shared_Save_def split: option.splits prod.splits)

text \<open>
  A reader of the shared configuration never sees a torn file. In every state that a
  save goes through, whatever system call fails, loading gives what it gave before the save
  or the saved configuration; after a successful save it gives the saved configuration, in
  a file of mode 0640.
\<close>

theorem shared_Save_atomic:
  assumes "shared_text c" "io_tmp io \<noteq> path" "io_read rio path = None"
  shows "(\<forall>st \<in> set (fst (shared_Save io path c fs)). LoadShared rio st path \<in> {LoadShared rio fs path, Inr c})
    \<and> (snd (shared_Save io path c fs) = None \<longrightarrow>
         LoadShared rio (last (fst (shared_Save io path c fs))) path = Inr c
         \<and> (\<exists>f. last (fst (shared_Save io path c fs)) path = Some f \<and> cf_mode f = 416))"
proof (intro conjI ballI impI)
  fix st assume "st \<in> set (fst (shared_Save io path c fs))"
  from shared_Save_trace [OF this] show "LoadShared rio st path \<in> {LoadShared rio fs path, Inr c}"
  proof (elim disjE conjE)
    assume v: "shared_Validate c = None" and st: "st \<in> set (fst (write_shared io path (shared_encode c) fs))"
    show ?thesis
      using shared_file.read_old_or_new [OF assms(2) st, of rio] LoadShared_cong LoadShared_new v assms(1) by blast
  qed simp
next
  assume ok: "snd (shared_Save io path c fs) = None"
  note s = shared_Save_ok [OF ok]
  show "LoadShared rio (last (fst (shared_Save io path c fs))) path = Inr c"
    using shared_file.read_after [OF assms(2) s(2) assms(3)] LoadShared_new s assms(1) by (simp add: final_def)
  show "\<exists>f. last (fst (shared_Save io path c fs)) path = Some f \<and> cf_mode f = 416"
    using shared_file.published [OF assms(2) s(2)] s(3) by (auto simp: final_def)
qed

definition io_ok :: io_env where
  "io_ok = \<lparr>io_read = (\<lambda>_. None), io_mkdir = None, io_create = None, io_fchmod = None, io_write = None,
     io_sync = None, io_close = None, io_chown = None, io_chmod = None, io_rename = None, io_remove = None,
     io_tmp = ''/tmp-1'', io_gid = 0, io_dirgid = Some 2001\<rparr>"

definition demo_shared :: SharedConfig where
  "demo_shared = \<lparr>sc_HashAlgorithm = ''md5'', sc_HashTarget = ''file'', sc_PublicURL = ''http://h'',
     sc_AdminToken = ''tok'', sc_SftpAdminPassword = ''pw''\<rparr>"

theorem shared_Save_atomic_witness:
  "LoadShared io_ok (last (fst (shared_Save io_ok ''/etc/c'' demo_shared Map.empty))) ''/etc/c'' = Inr demo_shared"
proof -
  have "shared_text demo_shared" "io_tmp io_ok \<noteq> ''/etc/c''" "io_read io_ok ''/etc/c'' = None"
    "snd (shared_Save io_ok ''/etc/c'' demo_shared Map.empty) = None"
    by (code_simp | simp add: io_ok_def)+
  then show ?thesis using shared_Save_atomic by blast
qed

end
