(* ===== verification/Links_Pkg.thy ===== *)
theory Links_Pkg
  imports Shared_Config Go_Base64
begin

text \<open>
  The package \<open>internal/links\<close>: scoped share links, their password and expiry, and the
  store of links that a service keeps in memory and persists as \<open>links.json\<close>. The two
  bcrypt functions are parameters: \<open>gen\<close> is the result of hashing one password
  (\<^const>\<open>None\<close> on error), \<open>cmp hash password\<close> whether a password matches. The clock is read
  once per operation.
\<close>

section \<open>Data\<close>

datatype link_error =
    Links_ErrExists
  | Links_ErrNotFound
  | LinkIO ioerr
  | LinkSyntax
  | LinkMarshal
  | LinkInput
  | LinkHash

datatype scope_error = AdminScopeUser | InvalidScopeUser string | InvalidScopeType string

record Scope =
  sp_Type :: string
  sp_User :: string

definition ScopeAdmin :: string where
  "ScopeAdmin = ''admin''"

definition ScopeUser :: string where
  "ScopeUser = ''user''"

definition scope_Validate :: "Scope \<Rightarrow> scope_error option" where
  "scope_Validate s =
     (if sp_Type s = ScopeAdmin then (if sp_User s \<noteq> [] then Some AdminScopeUser else None)
      else if sp_Type s = ScopeUser
      then (if \<not> ValidUsername (sp_User s) then Some (InvalidScopeUser (sp_User s)) else None)
      else Some (InvalidScopeType (sp_Type s)))"

record Link =
  lk_ID :: string
  lk_PasswordHash :: string
  lk_Scope :: Scope
  lk_CreatedAt :: time
  lk_ExpiresAt :: "time option"
  lk_CreatedBy :: string
  lk_Description :: string

definition HasPassword :: "Link \<Rightarrow> bool" where
  "HasPassword l = (lk_PasswordHash l \<noteq> [])"

definition Expired :: "Link \<Rightarrow> time \<Rightarrow> bool" where
  "Expired l now = (case lk_ExpiresAt l of None \<Rightarrow> False | Some t \<Rightarrow> \<not> now < t)"

text \<open>\<open>NewID\<close> of the twelve random bytes, or of a failing random source.\<close>

definition NewID :: "bytes option \<Rightarrow> string option" where
  "NewID rnd = map_option RawURLEncode rnd"

definition HashPassword :: "(string \<Rightarrow> string option) \<Rightarrow> string \<Rightarrow> (link_error, string) result" where
  "HashPassword gen password = (case gen password of None \<Rightarrow> Inl LinkHash | Some h \<Rightarrow> Inr h)"

definition CheckPassword :: "(string \<Rightarrow> string \<Rightarrow> bool) \<Rightarrow> string \<Rightarrow> string \<Rightarrow> bool" where
  "CheckPassword cmp hash password = (if hash = [] then False else cmp hash password)"

record LinkStore =
  ls_path :: string
  ls_links :: "(string \<times> Link) list"

definition links_NewStore :: "string \<Rightarrow> LinkStore" where
  "links_NewStore dir = \<lparr>ls_path = FJoin dir ''links.json'', ls_links = []\<rparr>"

section \<open>The file\<close>

text \<open>The zero \<open>time.Time\<close>: the first of January of year 1.\<close>

definition zero_time :: time where
  "zero_time = - 62135596800 * second"

definition zero_link :: Link where
  "zero_link = \<lparr>lk_ID = [], lk_PasswordHash = [], lk_Scope = \<lparr>sp_Type = [], sp_User = []\<rparr>,
     lk_CreatedAt = zero_time, lk_ExpiresAt = None, lk_CreatedBy = [], lk_Description = []\<rparr>"

definition scope_fields :: "Scope field list" where
  "scope_fields = [(''type'', dec_string sp_Type_update), (''user'', dec_string sp_User_update)]"

definition dec_scope :: "((Scope \<Rightarrow> Scope) \<Rightarrow> 's \<Rightarrow> 's) \<Rightarrow> ('s \<Rightarrow> Scope) \<Rightarrow> json \<Rightarrow> 's \<Rightarrow> 's option" where
  "dec_scope upd get j s = map_option (\<lambda>sc. upd (\<lambda>_. sc) s) (decode_struct scope_fields j (get s))"

definition link_fields :: "Link field list" where
  "link_fields =
     [(''id'', dec_string lk_ID_update),
      (''password_hash'', dec_string lk_PasswordHash_update),
      (''scope'', dec_scope lk_Scope_update lk_Scope),
      (''created_at'', dec_time lk_CreatedAt_update),
      (''expires_at'', dec_time_ptr lk_ExpiresAt_update),
      (''created_by'', dec_string lk_CreatedBy_update),
      (''description'', dec_string lk_Description_update)]"

definition dec_link :: "json \<Rightarrow> Link option" where
  "dec_link j = decode_struct link_fields j zero_link"

definition dec_links :: "json \<Rightarrow> (string \<times> Link) list \<Rightarrow> (string \<times> Link) list option" where
  "dec_links j al =
     (case j of JNull \<Rightarrow> Some [] | JObj ms \<Rightarrow> dec_map_members dec_link ms al | _ \<Rightarrow> None)"

definition links_decode :: "doc \<Rightarrow> (string \<times> Link) list option" where
  "links_decode d =
     (case d of Malformed \<Rightarrow> None | Doc j \<Rightarrow> decode_struct [(''links'', dec_links)] j [])"

definition enc_scope :: "Scope \<Rightarrow> json" where
  "enc_scope s = JObj ((''type'', enc_string (sp_Type s)) # omit_empty ''user'' (sp_User s))"

text \<open>A link whose times have no RFC 3339 text cannot be marshalled.\<close>

definition enc_link :: "Link \<Rightarrow> json option" where
  "enc_link l =
     (case (MarshalTime (lk_CreatedAt l), map_option MarshalTime (lk_ExpiresAt l)) of
        (None, _) \<Rightarrow> None
      | (_, Some None) \<Rightarrow> None
      | (Some c, ex) \<Rightarrow> Some (JObj
          ([(''id'', enc_string (lk_ID l))]
           @ omit_empty ''password_hash'' (lk_PasswordHash l)
           @ [(''scope'', enc_scope (lk_Scope l)), (''created_at'', JStr c)]
           @ (case ex of Some (Some e) \<Rightarrow> [(''expires_at'', JStr e)] | _ \<Rightarrow> [])
           @ [(''created_by'', enc_string (lk_CreatedBy l))]
           @ omit_empty ''description'' (lk_Description l))))"

text \<open>Members in the order of their names, as maps are marshalled.\<close>

definition links_encode :: "(string \<times> Link) list \<Rightarrow> doc option" where
  "links_encode al =
     (if list_all (\<lambda>(k, l). enc_link l \<noteq> None) al
      then Some (Doc (JObj [(''links'', JObj (map (\<lambda>(k, l). (fix_utf8 k, the (enc_link l))) (sort_key fst al)))]))
      else None)"

section \<open>Operations\<close>

definition links_Load :: "io_env \<Rightarrow> cfs \<Rightarrow> LinkStore \<Rightarrow> LinkStore \<times> link_error option" where
  "links_Load io fs s =
     (case ReadFile io fs (ls_path s) of
        Inl e \<Rightarrow> if IsNotExist e then (s\<lparr>ls_links := []\<rparr>, None) else (s, Some (LinkIO e))
      | Inr raw \<Rightarrow>
          (case links_decode raw of
             None \<Rightarrow> (s, Some LinkSyntax)
           | Some al \<Rightarrow> (s\<lparr>ls_links := al\<rparr>, None)))"

type_synonym link_op = "LinkStore \<times> cfs list \<times> link_error option"

definition saveLocked :: "io_env \<Rightarrow> time \<Rightarrow> cfs \<Rightarrow> LinkStore \<Rightarrow> link_op" where
  "saveLocked io now fs s =
     (let s = s\<lparr>ls_links := filter (\<lambda>(i, l). \<not> Expired l now) (ls_links s)\<rparr> in
      case io_mkdir io of
        Some e \<Rightarrow> (s, [fs], Some (LinkIO e))
      | None \<Rightarrow>
          (case links_encode (ls_links s) of
             None \<Rightarrow> (s, [fs], Some LinkMarshal)
           | Some raw \<Rightarrow>
               (case write_shared io (ls_path s) raw fs of
                  (tr, r) \<Rightarrow> (s, tr, map_option LinkIO r))))"

definition links_Create :: "io_env \<Rightarrow> time \<Rightarrow> cfs \<Rightarrow> Link \<Rightarrow> LinkStore \<Rightarrow> link_op" where
  "links_Create io now fs l s =
     (if map_of (ls_links s) (lk_ID l) \<noteq> None then (s, [fs], Some Links_ErrExists)
      else saveLocked io now fs (s\<lparr>ls_links := AList.update (lk_ID l) l (ls_links s)\<rparr>))"

definition links_Get :: "string \<Rightarrow> LinkStore \<Rightarrow> Link option" where
  "links_Get i s = map_of (ls_links s) i"

definition links_Update ::
    "io_env \<Rightarrow> time \<Rightarrow> cfs \<Rightarrow> string \<Rightarrow> (Link \<Rightarrow> (link_error, Link) result) \<Rightarrow> LinkStore \<Rightarrow> link_op" where
  "links_Update io now fs i mutate s =
     (case map_of (ls_links s) i of
        None \<Rightarrow> (s, [fs], Some Links_ErrNotFound)
      | Some l \<Rightarrow>
          (case mutate l of
             Inl e \<Rightarrow> (s, [fs], Some e)
           | Inr l \<Rightarrow> saveLocked io now fs (s\<lparr>ls_links := AList.update i l (ls_links s)\<rparr>)))"

definition links_Delete :: "io_env \<Rightarrow> time \<Rightarrow> cfs \<Rightarrow> string \<Rightarrow> LinkStore \<Rightarrow> link_op" where
  "links_Delete io now fs i s =
     saveLocked io now fs (s\<lparr>ls_links := AList.delete i (ls_links s)\<rparr>)"

definition links_List :: "LinkStore \<Rightarrow> Link list" where
  "links_List s = sort_key (\<lambda>l. (lk_CreatedAt l, lk_ID l)) (map snd (ls_links s))"

section \<open>Decoding what was encoded\<close>

definition link_text :: "Link \<Rightarrow> bool" where
  "link_text l \<longleftrightarrow> valid_utf8 (lk_ID l) \<and> valid_utf8 (lk_PasswordHash l) \<and> valid_utf8 (sp_Type (lk_Scope l))
     \<and> valid_utf8 (sp_User (lk_Scope l)) \<and> valid_utf8 (lk_CreatedBy l) \<and> valid_utf8 (lk_Description l)"

lemma dec_enc_scope:
  assumes "valid_utf8 (sp_Type s)" "valid_utf8 (sp_User s)"
  shows "decode_struct scope_fields (enc_scope s) \<lparr>sp_Type = [], sp_User = []\<rparr> = Some s"
  using assms
  by (simp add: enc_scope_def decode_struct_def scope_fields_def find_field_def omit_empty_def
      dec_string_def enc_string_def)

lemma find_link_field:
  "find_field link_fields ''id'' = Some (dec_string lk_ID_update)"
  "find_field link_fields ''password_hash'' = Some (dec_string lk_PasswordHash_update)"
  "find_field link_fields ''scope'' = Some (dec_scope lk_Scope_update lk_Scope)"
  "find_field link_fields ''created_at'' = Some (dec_time lk_CreatedAt_update)"
  "find_field link_fields ''expires_at'' = Some (dec_time_ptr lk_ExpiresAt_update)"
  "find_field link_fields ''created_by'' = Some (dec_string lk_CreatedBy_update)"
  "find_field link_fields ''description'' = Some (dec_string lk_Description_update)"
  by (simp_all add: find_field_def link_fields_def)

lemma decode_members_append:
  "decode_members fds (xs @ ys) s = Option.bind (decode_members fds xs s) (decode_members fds ys)"
proof (induction fds xs s rule: decode_members.induct)
  case (2 fds k v ms s)
  show ?case
  proof (cases "find_field fds k")
    case (Some f)
    then show ?thesis using "2.IH"(2) [OF Some] by (cases "f v s") auto
  qed (use 2 in simp)
qed simp

lemma dec_enc_link:
  assumes "enc_link l = Some j" "link_text l"
  shows "dec_link j = Some l"
proof -
  from assms(1) obtain c where c: "MarshalTime (lk_CreatedAt l) = Some c"
    by (auto simp: enc_link_def split: option.splits)
  note tc = UnmarshalTime_MarshalTime [OF c]
  have ex: "lk_ExpiresAt l = None \<or> (\<exists>t e. lk_ExpiresAt l = Some t \<and> MarshalTime t = Some e \<and> UnmarshalTime e = Some t)"
    using assms(1) c UnmarshalTime_MarshalTime by (auto simp: enc_link_def split: option.splits)
  show ?thesis
    using assms ex c tc dec_enc_scope [of "lk_Scope l"]
    unfolding dec_link_def
    by (auto simp: enc_link_def decode_struct_def find_link_field zero_link_def omit_empty_def
        json_dec_defs enc_string_def dec_scope_def link_text_def decode_members_append)
qed

definition links_text :: "(string \<times> Link) list \<Rightarrow> bool" where
  "links_text al \<longleftrightarrow> distinct (keys_of al) \<and> list_all (\<lambda>(k, l). valid_utf8 k \<and> link_text l) al"

lemma links_decode_encode:
  assumes "links_encode al = Some d" "links_text al"
  shows "links_decode d = Some (sort_key fst al)"
proof -
  let ?al = "sort_key fst al"
  have d: "d = Doc (JObj [(''links'', JObj (map (\<lambda>(k, l). (fix_utf8 k, the (enc_link l))) ?al))])"
    and enc: "list_all (\<lambda>(k, l). enc_link l \<noteq> None) al"
    using assms(1) by (auto simp: links_encode_def split: if_splits)
  have fine: "fix_utf8 k = k" "dec_link (the (enc_link l)) = Some l" if "(k, l) \<in> set ?al" for k l
  proof -
    have "enc_link l \<noteq> None" "valid_utf8 k" "link_text l"
      using that enc assms(2) by (auto simp: list_all_iff links_text_def)
    then show "fix_utf8 k = k" "dec_link (the (enc_link l)) = Some l" using dec_enc_link by auto
  qed
  have keys: "map (\<lambda>(k, l). (fix_utf8 k, the (enc_link l))) ?al = map (\<lambda>(k, l). (k, the (enc_link l))) ?al"
    using fine(1) by (intro map_cong) auto
  have "dec_map_members dec_link (map (\<lambda>(k, l). (k, the (enc_link l))) ?al) [] = Some ([] @ ?al)"
    by (rule dec_map_members_enc) (use fine(2) assms(2) distinct_sort_key_fst [of al] in \<open>auto simp: links_text_def\<close>)
  then show ?thesis
    unfolding d keys by (simp add: links_decode_def decode_struct_def find_field_def dec_links_def)
qed

section \<open>The store as a map\<close>

definition wf_links :: "LinkStore \<Rightarrow> bool" where
  "wf_links s \<longleftrightarrow> distinct (keys_of (ls_links s))"

definition alive :: "time \<Rightarrow> Link option \<Rightarrow> Link option" where
  "alive now x = (case x of None \<Rightarrow> None | Some l \<Rightarrow> if Expired l now then None else Some l)"

lemma saveLocked_state:
  "fst (saveLocked io now fs s) = s\<lparr>ls_links := filter (\<lambda>(i, l). \<not> Expired l now) (ls_links s)\<rparr>"
  by (simp add: saveLocked_def Let_def split: option.splits prod.splits)

lemma saveLocked_wf [inv_intros]: "wf_links s \<Longrightarrow> wf_links (fst (saveLocked io now fs s))"
  by (simp add: saveLocked_state wf_links_def distinct_keys_filter)

lemma saveLocked_Get:
  "wf_links s \<Longrightarrow> links_Get k (fst (saveLocked io now fs s)) = alive now (links_Get k s)"
  by (simp add: saveLocked_state wf_links_def links_Get_def alive_def map_of_filter_keys split: option.splits)

lemma wf_update: "wf_links s \<Longrightarrow> wf_links (s\<lparr>ls_links := AList.update k l (ls_links s)\<rparr>)"
  by (simp add: wf_links_def distinct_update)

lemma wf_delete: "wf_links s \<Longrightarrow> wf_links (s\<lparr>ls_links := AList.delete k (ls_links s)\<rparr>)"
  by (simp add: wf_links_def distinct_delete)

lemma Get_store [simp]:
  "links_Get k (s\<lparr>ls_links := AList.update j l (ls_links s)\<rparr>) = (if k = j then Some l else links_Get k s)"
  "links_Get k (s\<lparr>ls_links := AList.delete j (ls_links s)\<rparr>) = (if k = j then None else links_Get k s)"
  by (simp_all add: links_Get_def)

text \<open>A request that changes the table, and the link it is about.\<close>

datatype link_request =
    ReqCreate Link
  | ReqUpdate string "Link \<Rightarrow> (link_error, Link) result"
  | ReqDelete string

fun req_id :: "link_request \<Rightarrow> string" where
  "req_id (ReqCreate l) = lk_ID l"
| "req_id (ReqUpdate i m) = i"
| "req_id (ReqDelete i) = i"

text \<open>The contract of a table of links whose every write drops the expired ones.\<close>

locale link_table =
  fixes ok :: "'s \<Rightarrow> bool"
    and lookup :: "string \<Rightarrow> 's \<Rightarrow> Link option"
    and create :: "time \<Rightarrow> Link \<Rightarrow> 's \<Rightarrow> 's"
    and change :: "time \<Rightarrow> string \<Rightarrow> (Link \<Rightarrow> (link_error, Link) result) \<Rightarrow> 's \<Rightarrow> 's"
    and remove :: "time \<Rightarrow> string \<Rightarrow> 's \<Rightarrow> 's"
  assumes create_ok: "ok s \<Longrightarrow> ok (create now l s)"
    and change_ok: "ok s \<Longrightarrow> ok (change now i m s)"
    and remove_ok: "ok s \<Longrightarrow> ok (remove now i s)"
    and lookup_create: "ok s \<Longrightarrow> lookup k (create now l s) =
      (if lookup (lk_ID l) s \<noteq> None then lookup k s
       else alive now (if k = lk_ID l then Some l else lookup k s))"
    and lookup_change: "ok s \<Longrightarrow> lookup k (change now i m s) =
      (case lookup i s of None \<Rightarrow> lookup k s
       | Some l \<Rightarrow> (case m l of Inl _ \<Rightarrow> lookup k s
           | Inr l' \<Rightarrow> alive now (if k = i then Some l' else lookup k s)))"
    and lookup_remove: "ok s \<Longrightarrow> lookup k (remove now i s) = alive now (if k = i then None else lookup k s)"
begin

fun request :: "link_request \<Rightarrow> time \<Rightarrow> 's \<Rightarrow> 's" where
  "request (ReqCreate l) now s = create now l s"
| "request (ReqUpdate i m) now s = change now i m s"
| "request (ReqDelete i) now s = remove now i s"

lemma request_ok: "ok s \<Longrightarrow> ok (request r now s)"
  by (cases r) (simp_all add: create_ok change_ok remove_ok)

text \<open>A link that is not the subject of a request and has not expired is untouched by it.\<close>

lemma request_frame:
  "ok s \<Longrightarrow> lookup k s = Some l \<Longrightarrow> req_id r \<noteq> k \<Longrightarrow> \<not> Expired l now \<Longrightarrow> lookup k (request r now s) = Some l"
  by (cases r) (auto simp: lookup_create lookup_change lookup_remove alive_def split: option.splits sum.splits)

text \<open>A missing link stays missing until it is created.\<close>

lemma request_absent:
  "ok s \<Longrightarrow> lookup k s = None \<Longrightarrow> \<forall>l. r = ReqCreate l \<longrightarrow> lk_ID l \<noteq> k \<Longrightarrow> lookup k (request r now s) = None"
  by (cases r) (auto simp: lookup_create lookup_change lookup_remove alive_def split: option.splits sum.splits)

end

interpretation table: link_table wf_links links_Get
  "\<lambda>now l s. fst (links_Create io now fs l s)"
  "\<lambda>now i m s. fst (links_Update io now fs i m s)"
  "\<lambda>now i s. fst (links_Delete io now fs i s)" for io fs
proof unfold_locales
  fix s now l i m k
  assume wf: "wf_links s"
  show "wf_links (fst (links_Create io now fs l s))"
    by (simp add: links_Create_def wf saveLocked_wf wf_update)
  show "wf_links (fst (links_Update io now fs i m s))"
    by (simp add: links_Update_def wf saveLocked_wf wf_update split: option.splits sum.splits)
  show "wf_links (fst (links_Delete io now fs i s))"
    by (simp add: links_Delete_def wf saveLocked_wf wf_delete)
  show "links_Get k (fst (links_Create io now fs l s)) =
      (if links_Get (lk_ID l) s \<noteq> None then links_Get k s
       else alive now (if k = lk_ID l then Some l else links_Get k s))"
    using wf by (simp add: links_Create_def links_Get_def [of "lk_ID l"] saveLocked_Get wf_update)
  show "links_Get k (fst (links_Update io now fs i m s)) =
      (case links_Get i s of None \<Rightarrow> links_Get k s
       | Some l \<Rightarrow> (case m l of Inl _ \<Rightarrow> links_Get k s
           | Inr l' \<Rightarrow> alive now (if k = i then Some l' else links_Get k s)))"
    using wf by (simp add: links_Update_def links_Get_def [of i] saveLocked_Get wf_update split: option.splits sum.splits)
  show "links_Get k (fst (links_Delete io now fs i s)) = alive now (if k = i then None else links_Get k s)"
    using wf by (simp add: links_Delete_def saveLocked_Get wf_delete)
qed

section \<open>Requests\<close>

fun links_request :: "io_env \<Rightarrow> time \<Rightarrow> cfs \<Rightarrow> link_request \<Rightarrow> LinkStore \<Rightarrow> link_op" where
  "links_request io now fs (ReqCreate l) s = links_Create io now fs l s"
| "links_request io now fs (ReqUpdate i m) s = links_Update io now fs i m s"
| "links_request io now fs (ReqDelete i) s = links_Delete io now fs i s"

lemma links_request_table: "fst (links_request io now fs r s) = table.request io fs r now s"
  by (cases r) simp_all

text \<open>
  A history of requests to one store, each with its system calls, its moment and the files it finds. These are the operations
  themselves; the reload that the handlers run before them, and what it brings from another writer, is
  the subject of \<open>Link_Concurrency\<close>.
\<close>

fun run_requests :: "(link_request \<times> io_env \<times> time \<times> cfs) list \<Rightarrow> LinkStore \<Rightarrow> LinkStore" where
  "run_requests [] s = s"
| "run_requests ((r, io, now, fs) # h) s = run_requests h (fst (links_request io now fs r s))"

lemma run_requests_frame:
  "wf_links s \<Longrightarrow> links_Get k s = Some l
   \<Longrightarrow> (\<And>r io now fs. (r, io, now, fs) \<in> set h \<Longrightarrow> req_id r \<noteq> k \<and> \<not> Expired l now)
   \<Longrightarrow> links_Get k (run_requests h s) = Some l"
proof (induction h s rule: run_requests.induct)
  case (2 r io now fs h s)
  have "req_id r \<noteq> k" "\<not> Expired l now" using "2.prems"(3) [of r io now fs] by simp_all
  then have "links_Get k (fst (links_request io now fs r s)) = Some l"
    using "2.prems"(1,2) by (simp add: links_request_table table.request_frame)
  moreover have "wf_links (fst (links_request io now fs r s))"
    using "2.prems"(1) by (simp add: links_request_table table.request_ok)
  moreover have "req_id r' \<noteq> k \<and> \<not> Expired l now'" if "(r', io', now', fs') \<in> set h" for r' io' now' fs'
    using "2.prems"(3) [of r' io' now' fs'] that by simp
  ultimately show ?case using "2.IH" by simp
qed simp

lemma run_requests_absent:
  "wf_links s \<Longrightarrow> links_Get k s = None
   \<Longrightarrow> (\<And>r io now fs l. (r, io, now, fs) \<in> set h \<Longrightarrow> r = ReqCreate l \<Longrightarrow> lk_ID l \<noteq> k)
   \<Longrightarrow> links_Get k (run_requests h s) = None"
proof (induction h s rule: run_requests.induct)
  case (2 r io now fs h s)
  have "\<forall>l. r = ReqCreate l \<longrightarrow> lk_ID l \<noteq> k" using "2.prems"(3) [of r io now fs] by simp
  then have "links_Get k (fst (links_request io now fs r s)) = None"
    using "2.prems"(1,2) by (simp add: links_request_table table.request_absent)
  moreover have "wf_links (fst (links_request io now fs r s))"
    using "2.prems"(1) by (simp add: links_request_table table.request_ok)
  moreover have "lk_ID l \<noteq> k" if "(r', io', now', fs') \<in> set h" "r' = ReqCreate l" for r' io' now' fs' l
    using "2.prems"(3) [of r' io' now' fs' l] that by simp
  ultimately show ?case unfolding run_requests.simps by (intro "2.IH") blast+
qed simp

lemma saveLocked_success:
  assumes "saveLocked io now fs s = (s', tr, None)"
  obtains raw where "links_encode (ls_links s') = Some raw" "write_shared io (ls_path s) raw fs = (tr, None)"
    "ls_path s' = ls_path s"
  using assms by (auto simp: saveLocked_def Let_def split: option.splits prod.splits)

lemma links_request_success:
  assumes "links_request io now fs r s = (s', tr, None)"
  obtains s1 where "saveLocked io now fs s1 = (s', tr, None)" "ls_path s1 = ls_path s" "wf_links s \<longrightarrow> wf_links s1"
proof (cases r)
  case (ReqCreate l)
  then show ?thesis using assms that wf_update [of s] by (auto simp: links_Create_def split: if_splits)
next
  case (ReqUpdate i m)
  then show ?thesis using assms that wf_update [of s] by (auto simp: links_Update_def split: option.splits sum.splits)
next
  case (ReqDelete i)
  then show ?thesis using assms that wf_delete [of s] by (auto simp: links_Delete_def)
qed

lemma saveLocked_alive:
  assumes "saveLocked io now fs s = (s', tr, r)" "wf_links s" "links_Get k s' = Some l"
  shows "\<not> Expired l now"
  using saveLocked_Get [OF assms(2), of k io now fs] assms(1,3) by (auto simp: alive_def split: option.splits if_splits)

lemma links_Load_cong:
  "ReadFile io st (ls_path s) = ReadFile io fs (ls_path s) \<Longrightarrow> links_Load io st s = links_Load io fs s"
  by (simp only: links_Load_def)

lemma links_Load_encoded:
  assumes "ReadFile io st (ls_path s) = Inr d" "links_encode al = Some d" "links_text al"
  shows "links_Load io st s = (s\<lparr>ls_links := sort_key fst al\<rparr>, None)"
  using assms links_decode_encode [OF assms(2,3)] by (simp add: links_Load_def)

text \<open>What a reader of the file finds after a request that succeeded.\<close>

lemma links_request_loaded:
  assumes "wf_links s" "links_request io now fs r s = (s', tr, None)" "links_text (ls_links s')"
    and "io_tmp io \<noteq> ls_path s" "io_read rio (ls_path s) = None" "ls_path s2 = ls_path s"
  shows "links_Load rio (last tr) s2 = (s2\<lparr>ls_links := sort_key fst (ls_links s')\<rparr>, None)"
    "links_Get k (s2\<lparr>ls_links := sort_key fst (ls_links s')\<rparr>) = links_Get k s'"
    "links_Get k s' = Some l \<Longrightarrow> \<not> Expired l now"
    "st \<in> set tr \<Longrightarrow> links_Load rio st s2 \<in> {links_Load rio fs s2, links_Load rio (last tr) s2}"
proof -
  obtain s1 where s1: "saveLocked io now fs s1 = (s', tr, None)" "ls_path s1 = ls_path s" "wf_links s1"
    using links_request_success [OF assms(2)] assms(1) by blast
  obtain raw where raw: "links_encode (ls_links s') = Some raw" "write_shared io (ls_path s) raw fs = (tr, None)"
    using saveLocked_success [OF s1(1)] s1(2) by auto
  let ?w = "write_shared io (ls_path s) raw fs"
  have w: "fst ?w = tr" "snd ?w = None" "last tr = final ?w" using raw(2) by (simp_all add: final_def)
  have new: "links_Load rio st s2 = (s2\<lparr>ls_links := sort_key fst (ls_links s')\<rparr>, None)"
    if "ReadFile rio st (ls_path s) = Inr raw" for st
    using links_Load_encoded [OF _ raw(1) assms(3)] that assms(6) by simp
  show last: "links_Load rio (last tr) s2 = (s2\<lparr>ls_links := sort_key fst (ls_links s')\<rparr>, None)"
    using shared_file.read_after [OF assms(4) w(2) assms(5)] w(3) new by simp
  show "links_Load rio st s2 \<in> {links_Load rio fs s2, links_Load rio (last tr) s2}" if "st \<in> set tr"
    using shared_file.read_old_or_new [OF assms(4), of st raw fs rio] that w(1) new last links_Load_cong [of rio st s2 fs]
      assms(6) by auto
  have "map_of (sort_key fst (ls_links s')) = map_of (ls_links s')"
    using assms(3) sort_key_fst_map_of by (auto simp: links_text_def)
  then show "links_Get k (s2\<lparr>ls_links := sort_key fst (ls_links s')\<rparr>) = links_Get k s'" by (simp add: links_Get_def)
  show "links_Get k s' = Some l \<Longrightarrow> \<not> Expired l now" using saveLocked_alive [OF s1(1,3)] .
qed

section \<open>Properties\<close>

definition demo_link :: "string \<Rightarrow> time option \<Rightarrow> Link" where
  "demo_link i ex = \<lparr>lk_ID = i, lk_PasswordHash = [], lk_Scope = \<lparr>sp_Type = ''admin'', sp_User = []\<rparr>,
     lk_CreatedAt = 1700000000 * second, lk_ExpiresAt = ex, lk_CreatedBy = ''admin'', lk_Description = []\<rparr>"

text \<open>
  C15: persistence of the link store. After a create, update or delete that reports success,
  every service that loads the file holds exactly the links of the writer, none of them
  expired; and in every state the write goes through, loading gives what it gave before or
  what it gives at the end.
\<close>

theorem links_persisted:
  assumes "wf_links s" "links_request io now fs r s = (s', tr, None)" "links_text (ls_links s')"
    and "io_tmp io \<noteq> ls_path s" "io_read rio (ls_path s) = None" "ls_path s2 = ls_path s"
  shows "snd (links_Load rio (last tr) s2) = None
    \<and> (\<forall>k. links_Get k (fst (links_Load rio (last tr) s2)) = links_Get k s')
    \<and> (\<forall>k l. links_Get k s' = Some l \<longrightarrow> \<not> Expired l now)
    \<and> (\<forall>st \<in> set tr. links_Load rio st s2 \<in> {links_Load rio fs s2, links_Load rio (last tr) s2})"
  using links_request_loaded [OF assms] by auto

theorem links_persisted_witness:
  "\<forall>k. links_Get k (fst (links_Load io_ok (last (fst (snd (links_request io_ok 0 Map.empty (ReqCreate (demo_link ''abc'' None))
      (links_NewStore ''/v''))))) (links_NewStore ''/v'')))
    = links_Get k (fst (links_request io_ok 0 Map.empty (ReqCreate (demo_link ''abc'' None)) (links_NewStore ''/v'')))"
proof -
  let ?r = "links_request io_ok 0 Map.empty (ReqCreate (demo_link ''abc'' None)) (links_NewStore ''/v'')"
  have "wf_links (links_NewStore ''/v'')" "snd (snd ?r) = None" "links_text (ls_links (fst ?r))"
    "io_tmp io_ok \<noteq> ls_path (links_NewStore ''/v'')" "io_read io_ok (ls_path (links_NewStore ''/v'')) = None"
    by (code_simp | simp add: io_ok_def)+
  moreover have "?r = (fst ?r, fst (snd ?r), None)" using \<open>snd (snd ?r) = None\<close> by (metis prod.collapse)
  ultimately show ?thesis using links_persisted [of "links_NewStore ''/v''" io_ok 0 Map.empty] by blast
qed

text \<open>
  C25: the life of a link. A stored link is returned unchanged after any history of requests
  about other links, however their writes fail, as long as it has not expired at the moment of one
  of them; and a deleted link is not found again after any history that does not create it anew.
\<close>

theorem link_lifetime:
  assumes "wf_links s"
  shows "(links_Get k s = Some l \<and> (\<forall>(r, io, now, fs) \<in> set h. req_id r \<noteq> k \<and> \<not> Expired l now)
      \<longrightarrow> links_Get k (run_requests h s) = Some l)
    \<and> ((\<forall>(r, io, now, fs) \<in> set h. \<forall>l. r = ReqCreate l \<longrightarrow> lk_ID l \<noteq> k)
      \<longrightarrow> links_Get k (run_requests h (fst (links_Delete io now fs k s))) = None)"
proof (intro conjI impI)
  assume a: "links_Get k s = Some l \<and> (\<forall>(r, io, now, fs) \<in> set h. req_id r \<noteq> k \<and> \<not> Expired l now)"
  show "links_Get k (run_requests h s) = Some l"
    by (rule run_requests_frame [OF assms]) (use a in auto)
next
  assume a: "\<forall>(r, io, now, fs) \<in> set h. \<forall>l. r = ReqCreate l \<longrightarrow> lk_ID l \<noteq> k"
  have "links_Get k (fst (links_Delete io now fs k s)) = None"
    using table.lookup_remove [OF assms] by (simp add: alive_def)
  then show "links_Get k (run_requests h (fst (links_Delete io now fs k s))) = None"
    by (rule run_requests_absent [OF table.remove_ok [OF assms]]) (use a in auto)
qed

theorem link_lifetime_witness:
  "links_Get ''a'' (run_requests [(ReqCreate (demo_link ''b'' None), io_ok, 5, Map.empty)]
     \<lparr>ls_path = ''/v/links.json'', ls_links = [(''a'', demo_link ''a'' (Some 9))]\<rparr>) = Some (demo_link ''a'' (Some 9))"
proof -
  have "wf_links \<lparr>ls_path = ''/v/links.json'', ls_links = [(''a'', demo_link ''a'' (Some 9))]\<rparr>"
    "links_Get ''a'' \<lparr>ls_path = ''/v/links.json'', ls_links = [(''a'', demo_link ''a'' (Some 9))]\<rparr> = Some (demo_link ''a'' (Some 9))"
    by (simp_all add: wf_links_def links_Get_def)
  then show ?thesis
    using link_lifetime [where h = "[(ReqCreate (demo_link ''b'' None), io_ok, 5, Map.empty)]" and k = "''a''"]
    by (simp add: demo_link_def Expired_def)
qed

text \<open>
  The listing of the store holds each stored link once, by time of creation and then by
  name.
\<close>

theorem links_List_sorted:
  assumes "wf_links s"
  shows "sorted (map (\<lambda>l. (lk_CreatedAt l, lk_ID l)) (links_List s)) \<and> length (links_List s) = length (ls_links s)
    \<and> set (links_List s) = {l. \<exists>k. links_Get k s = Some l}"
  using assms by (auto simp: links_List_def links_Get_def wf_links_def map_of_eq_Some_iff image_iff) force+

theorem links_List_sorted_witness:
  "sorted (map (\<lambda>l. (lk_CreatedAt l, lk_ID l)) (links_List \<lparr>ls_path = [], ls_links =
     [(''b'', demo_link ''b'' None), (''a'', demo_link ''a'' None)]\<rparr>))"
proof -
  have "wf_links \<lparr>ls_path = [], ls_links = [(''b'', demo_link ''b'' None), (''a'', demo_link ''a'' None)]\<rparr>"
    by code_simp
  then show ?thesis using links_List_sorted by blast
qed

end
