(* ===== verification/Server_Pkg.thy ===== *)
theory Server_Pkg
  imports Store_Resolve Links_Pkg
begin

text \<open>
  The package \<open>internal/server\<close>: the HTTP handlers of the file-sharing service. A handler
  is a function of the world it runs in (the share tree, the control files, the system
  calls of a write, the clock, the random source and bcrypt), the request and the server's
  state; it returns the new state, the states of the control files that other processes
  can observe while it runs, and the response. \<open>net/http\<close> is modelled as far as the
  handlers use it: routing, one header, query and form values, cookies and the body.
\<close>

section \<open>Requests, responses and the world\<close>

record Request =
  rq_method :: string
  rq_segs :: "string list"
  rq_auth :: string
  rq_query :: "string \<Rightarrow> string"
  rq_form :: "string \<Rightarrow> string"
  rq_cookie :: "string \<Rightarrow> string option"
  rq_body :: "json option"

record World =
  w_tree :: node
  w_files :: cfs
  w_io :: io_env
  w_now :: time
  w_rand :: "nat \<Rightarrow> bytes option"
  w_gen :: "string \<Rightarrow> string option"
  w_cmp :: "string \<Rightarrow> string \<Rightarrow> bool"

text \<open>The wire form of a link.\<close>

record linkJSON =
  lj_ID :: string
  lj_Scope :: Scope
  lj_HasPassword :: bool
  lj_CreatedAt :: time
  lj_ExpiresAt :: "time option"
  lj_CreatedBy :: string
  lj_Description :: string
  lj_URL :: string

record linkEntry =
  le_LogicalPath :: string
  le_Size :: int
  le_URL :: string

record linkFileJSON =
  lf_LogicalPath :: string
  lf_LogicalDir :: string
  lf_DirHash :: string
  lf_FileHash :: string
  lf_Size :: int
  lf_URL :: string

datatype body =
    NoBody
  | PlainText string
  | ScopeErrorText scope_error
  | HealthOK
  | LinkBody linkJSON
  | LinksBody "linkJSON list"
  | LinkFiles string Scope "linkFileJSON list"
  | ListPage string "linkEntry list"
  | PasswordPage string
  | FileContent string bytes

record Cookie =
  ck_name :: string
  ck_value :: string
  ck_path :: string
  ck_expires :: time

record Response =
  rs_status :: nat
  rs_body :: body
  rs_disposition :: string
  rs_location :: string
  rs_cookie :: "Cookie option"

definition respond :: "nat \<Rightarrow> body \<Rightarrow> Response" where
  "respond st b = \<lparr>rs_status = st, rs_body = b, rs_disposition = [], rs_location = [], rs_cookie = None\<rparr>"

definition http_Error :: "string \<Rightarrow> nat \<Rightarrow> Response" where
  "http_Error msg st = respond st (PlainText msg)"

definition http_Redirect :: "string \<Rightarrow> nat \<Rightarrow> Response" where
  "http_Redirect url st = (respond st NoBody)\<lparr>rs_location := url\<rparr>"

record Server =
  sv_cfg :: Config
  sv_store :: Store
  sv_links :: LinkStore

type_synonym handled = "Server \<times> cfs list \<times> Response"

definition server_New :: "Config \<Rightarrow> Store \<Rightarrow> LinkStore \<Rightarrow> Server" where
  "server_New cfg st ls = \<lparr>sv_cfg = cfg, sv_store = st, sv_links = ls\<rparr>"

section \<open>Configuration and links in force\<close>

definition effectiveConfig :: "World \<Rightarrow> Server \<Rightarrow> Config" where
  "effectiveConfig w s =
     (let cfg = sv_cfg s;
          path = (if SharedPath cfg = [] then DefaultSharedConfigPath else SharedPath cfg)
      in case LoadShared (w_io w) (w_files w) path of
           Inl _ \<Rightarrow> cfg
         | Inr sc \<Rightarrow> cfg\<lparr>HashAlgorithm := sc_HashAlgorithm sc, HashTarget := sc_HashTarget sc,
                        PublicURL := sc_PublicURL sc, AdminToken := sc_AdminToken sc\<rparr>)"

definition reloadLinks :: "World \<Rightarrow> Server \<Rightarrow> Server" where
  "reloadLinks w s = s\<lparr>sv_links := fst (links_Load (w_io w) (w_files w) (sv_links s))\<rparr>"

section \<open>Authorization and wire forms\<close>

text \<open>\<open>subtle.ConstantTimeCompare\<close> of two texts is their equality.\<close>

definition checkBearer :: "Request \<Rightarrow> string \<Rightarrow> bool" where
  "checkBearer r token =
     (let h = rq_auth r in
      if token = [] \<or> \<not> HasPrefix h ''Bearer '' then False
      else (let got = TrimPrefix h ''Bearer '' in
            if length got \<noteq> length token then False else got = token))"

definition requireBearer :: "World \<Rightarrow> Request \<Rightarrow> Server \<Rightarrow> Response option" where
  "requireBearer w r s =
     (if checkBearer r (AdminToken (effectiveConfig w s)) then None
      else Some (http_Error ''unauthorized'' 401))"

definition linkSummary :: "Link \<Rightarrow> linkJSON" where
  "linkSummary l = \<lparr>lj_ID = lk_ID l, lj_Scope = lk_Scope l, lj_HasPassword = HasPassword l,
     lj_CreatedAt = lk_CreatedAt l, lj_ExpiresAt = lk_ExpiresAt l, lj_CreatedBy = [],
     lj_Description = lk_Description l, lj_URL = []\<rparr>"

definition linkDetail :: "Link \<Rightarrow> linkJSON" where
  "linkDetail l = (linkSummary l)\<lparr>lj_CreatedBy := lk_CreatedBy l\<rparr>"

definition linkURL :: "World \<Rightarrow> Server \<Rightarrow> string \<Rightarrow> string" where
  "linkURL w s i = TrimRightByte (PublicURL (effectiveConfig w s)) CHR ''/'' @ ''/l/'' @ i"

definition checkLinkPassword :: "string \<Rightarrow> link_error option" where
  "checkLinkPassword password = (if length password > 72 then Some LinkInput else None)"

section \<open>The link management API\<close>

record createLinkRequest =
  cr_Password :: string
  cr_Scope :: Scope
  cr_ExpiresAt :: "time option"
  cr_Description :: string

definition create_fields :: "createLinkRequest field list" where
  "create_fields =
     [(''password'', dec_string cr_Password_update),
      (''scope'', dec_scope cr_Scope_update cr_Scope),
      (''expires_at'', dec_time_ptr cr_ExpiresAt_update),
      (''description'', dec_string cr_Description_update)]"

definition dec_create :: "json option \<Rightarrow> createLinkRequest option" where
  "dec_create b =
     (case b of None \<Rightarrow> None
      | Some j \<Rightarrow> decode_struct create_fields j
          \<lparr>cr_Password = [], cr_Scope = \<lparr>sp_Type = [], sp_User = []\<rparr>, cr_ExpiresAt = None, cr_Description = []\<rparr>)"

text \<open>The loop that draws a new identifier while the one drawn is taken.\<close>

fun createLoop :: "nat \<Rightarrow> nat \<Rightarrow> World \<Rightarrow> (string \<Rightarrow> Link) \<Rightarrow> LinkStore \<Rightarrow> LinkStore \<times> cfs list \<times> Link option" where
  "createLoop 0 i w cand ls = (ls, [w_files w], None)"
| "createLoop (Suc n) i w cand ls =
     (case NewID (w_rand w i) of
        None \<Rightarrow> (ls, [w_files w], None)
      | Some ident \<Rightarrow>
          (case links_Create (w_io w) (w_now w) (w_files w) (cand ident) ls of
             (ls', tr, None) \<Rightarrow> (ls', tr, Some (cand ident))
           | (ls', tr, Some e) \<Rightarrow>
               if e = Links_ErrExists then createLoop n (i + 1) w cand ls' else (ls', tr, None)))"

text \<open>The checks of \<open>handleLinksCreate\<close> in their order: the request and the password hash to store.\<close>

definition create_input :: "World \<Rightarrow> Request \<Rightarrow> Server \<Rightarrow> (Response, createLinkRequest \<times> string) result" where
  "create_input w r s =
     bind_res (clear (requireBearer w r s)) (\<lambda>_.
     bind_res (need (http_Error ''invalid JSON'' 400) (dec_create (rq_body r))) (\<lambda>req.
     bind_res (clear (map_option (\<lambda>e. respond 400 (ScopeErrorText e)) (scope_Validate (cr_Scope req)))) (\<lambda>_.
     bind_res (ensure (case cr_ExpiresAt req of None \<Rightarrow> True | Some t \<Rightarrow> w_now w < t)
                 (http_Error ''expires_at must be in the future'' 400)) (\<lambda>_.
     bind_res (ensure (checkLinkPassword (cr_Password req) = None) (http_Error ''password too long'' 400)) (\<lambda>_.
     bind_res (map_err (\<lambda>_. http_Error ''internal error'' 500)
                 (if cr_Password req \<noteq> [] then HashPassword (w_gen w) (cr_Password req) else Inr [])) (\<lambda>hash.
     Inr (req, hash)))))))"

definition create_candidate :: "World \<Rightarrow> createLinkRequest \<Rightarrow> string \<Rightarrow> string \<Rightarrow> Link" where
  "create_candidate w req hash ident =
     \<lparr>lk_ID = ident, lk_PasswordHash = hash, lk_Scope = cr_Scope req,
      lk_CreatedAt = truncate_second (w_now w), lk_ExpiresAt = cr_ExpiresAt req,
      lk_CreatedBy = ''admin'', lk_Description = cr_Description req\<rparr>"

definition handleLinksCreate :: "World \<Rightarrow> Request \<Rightarrow> Server \<Rightarrow> handled" where
  "handleLinksCreate w r s0 =
     (let s = reloadLinks w s0 in
      case create_input w r s of
        Inl resp \<Rightarrow> (s, [w_files w], resp)
      | Inr (req, hash) \<Rightarrow>
          (case createLoop 3 0 w (create_candidate w req hash) (sv_links s) of
             (ls', tr, created) \<Rightarrow>
               (s\<lparr>sv_links := ls'\<rparr>, tr,
                case created of
                  None \<Rightarrow> http_Error ''internal error'' 500
                | Some l \<Rightarrow> respond 201 (LinkBody ((linkDetail l)\<lparr>lj_URL := linkURL w s (lk_ID l)\<rparr>)))))"

definition handleLinksList :: "World \<Rightarrow> Request \<Rightarrow> Server \<Rightarrow> handled" where
  "handleLinksList w r s0 =
     (let s = reloadLinks w s0 in
      case requireBearer w r s of
        Some resp \<Rightarrow> (s, [w_files w], resp)
      | None \<Rightarrow> (s, [w_files w], respond 200 (LinksBody (map linkSummary (links_List (sv_links s))))))"

definition handleLinkGet :: "World \<Rightarrow> Request \<Rightarrow> string \<Rightarrow> Server \<Rightarrow> handled" where
  "handleLinkGet w r i s0 =
     (let s = reloadLinks w s0 in
      case requireBearer w r s of
        Some resp \<Rightarrow> (s, [w_files w], resp)
      | None \<Rightarrow>
          (case links_Get i (sv_links s) of
             None \<Rightarrow> (s, [w_files w], http_Error ''not found'' 404)
           | Some l \<Rightarrow> (s, [w_files w], respond 200 (LinkBody (linkDetail l)))))"

record patchLinkRequest =
  pr_Password :: "string option"
  pr_ExpiresAt :: "string option"
  pr_Description :: "string option"

definition dec_patch :: "json option \<Rightarrow> patchLinkRequest option" where
  "dec_patch b =
     (case b of None \<Rightarrow> None
      | Some j \<Rightarrow> decode_struct
          [(''password'', dec_string_ptr pr_Password_update),
           (''expires_at'', dec_string_ptr pr_ExpiresAt_update),
           (''description'', dec_string_ptr pr_Description_update)] j
          \<lparr>pr_Password = None, pr_ExpiresAt = None, pr_Description = None\<rparr>)"

text \<open>The closure of \<open>handleLinkPatch\<close>, in its three parts.\<close>

definition patch_password :: "World \<Rightarrow> string option \<Rightarrow> Link \<Rightarrow> (link_error, Link) result" where
  "patch_password w p l =
     (case p of
        None \<Rightarrow> Inr l
      | Some pw \<Rightarrow>
          if pw = [] then Inr (l\<lparr>lk_PasswordHash := []\<rparr>)
          else (case checkLinkPassword pw of
                  Some e \<Rightarrow> Inl e
                | None \<Rightarrow>
                    (case HashPassword (w_gen w) pw of
                       Inl e \<Rightarrow> Inl e
                     | Inr h \<Rightarrow> Inr (l\<lparr>lk_PasswordHash := h\<rparr>))))"

definition patch_expiry :: "World \<Rightarrow> string option \<Rightarrow> Link \<Rightarrow> (link_error, Link) result" where
  "patch_expiry w p l =
     (case p of
        None \<Rightarrow> Inr l
      | Some ex \<Rightarrow>
          if ex = [] then Inr (l\<lparr>lk_ExpiresAt := None\<rparr>)
          else (case ParseRFC3339 ex of
                  None \<Rightarrow> Inl LinkInput
                | Some t \<Rightarrow> if \<not> w_now w < t then Inl LinkInput else Inr (l\<lparr>lk_ExpiresAt := Some t\<rparr>)))"

definition patch_link :: "World \<Rightarrow> patchLinkRequest \<Rightarrow> Link \<Rightarrow> (link_error, Link) result" where
  "patch_link w req l =
     bind_res (patch_password w (pr_Password req) l) (\<lambda>l.
     bind_res (patch_expiry w (pr_ExpiresAt req) l) (\<lambda>l.
     Inr (case pr_Description req of None \<Rightarrow> l | Some d \<Rightarrow> l\<lparr>lk_Description := d\<rparr>)))"

definition handleLinkPatch :: "World \<Rightarrow> Request \<Rightarrow> string \<Rightarrow> Server \<Rightarrow> handled" where
  "handleLinkPatch w r i s0 =
     (let s = reloadLinks w s0 in
      case requireBearer w r s of
        Some resp \<Rightarrow> (s, [w_files w], resp)
      | None \<Rightarrow>
     (case dec_patch (rq_body r) of
        None \<Rightarrow> (s, [w_files w], http_Error ''invalid JSON'' 400)
      | Some req \<Rightarrow>
     (case links_Update (w_io w) (w_now w) (w_files w) i (patch_link w req) (sv_links s) of
        (ls', tr, err) \<Rightarrow>
          (s\<lparr>sv_links := ls'\<rparr>, tr,
           if err = Some Links_ErrNotFound then http_Error ''not found'' 404
           else if err = Some LinkInput then http_Error ''invalid link update'' 400
           else if err \<noteq> None then http_Error ''internal error'' 500
           else (case links_Get i ls' of
                   None \<Rightarrow> http_Error ''not found'' 404
                 | Some l \<Rightarrow> respond 200 (LinkBody (linkDetail l)))))))"

definition handleLinkDelete :: "World \<Rightarrow> Request \<Rightarrow> string \<Rightarrow> Server \<Rightarrow> handled" where
  "handleLinkDelete w r i s0 =
     (let s = reloadLinks w s0 in
      case requireBearer w r s of
        Some resp \<Rightarrow> (s, [w_files w], resp)
      | None \<Rightarrow>
          (case links_Delete (w_io w) (w_now w) (w_files w) i (sv_links s) of
             (ls', tr, err) \<Rightarrow>
               (s\<lparr>sv_links := ls'\<rparr>, tr,
                if err \<noteq> None then http_Error ''internal error'' 500 else respond 204 NoBody)))"

section \<open>Scopes and link sessions\<close>

definition sharedTop :: "Config \<Rightarrow> string" where
  "sharedTop cfg =
     (case NormalizePrefix (SharePrefix cfg) of Inl _ \<Rightarrow> [] | Inr pre \<Rightarrow> hd (SplitByte CHR ''/'' pre))"

definition filterByScope :: "Config \<Rightarrow> Entry list \<Rightarrow> Scope \<Rightarrow> Entry list" where
  "filterByScope cfg entries scope =
     (if sp_Type scope = ScopeAdmin then entries
      else (let top = sharedTop cfg in
            filter (\<lambda>e. let seg = fst (CutByte (LogicalPath e) CHR ''/'') in seg = top \<or> seg = sp_User scope) entries))"

definition linkSessionCookieName :: "string \<Rightarrow> string" where
  "linkSessionCookieName i = ''fl_'' @ i"

definition signLinkSession :: "string \<Rightarrow> int \<Rightarrow> string \<Rightarrow> string" where
  "signLinkSession i exp key =
     (let msg = i @ ''.'' @ FormatInt exp
      in RawURLEncode msg @ ''.'' @ RawURLEncode (HMAC_SHA256 key msg))"

definition verifyLinkSession :: "time \<Rightarrow> string \<Rightarrow> string \<Rightarrow> string \<Rightarrow> bool" where
  "verifyLinkSession now cookie i key =
     (if key = [] then False
      else (case SplitByte CHR ''.'' cookie of
          [p0, p1] \<Rightarrow>
            (case RawURLDecode p0 of
               None \<Rightarrow> False
             | Some msg \<Rightarrow>
                 (case CutByte msg CHR ''.'' of
                    (linkID, expStr, _) \<Rightarrow>
                      if linkID \<noteq> i then False
                      else (case ParseInt64 expStr of
                          None \<Rightarrow> False
                        | Some exp \<Rightarrow>
                            if now div second > exp then False
                            else (case RawURLDecode p1 of
                                None \<Rightarrow> False
                              | Some want \<Rightarrow> HMAC_SHA256 key msg = want))))
        | _ \<Rightarrow> False))"

definition linkSessionOK :: "World \<Rightarrow> Config \<Rightarrow> Request \<Rightarrow> Link \<Rightarrow> bool" where
  "linkSessionOK w cfg r l =
     (if \<not> HasPassword l then True
      else if rq_query r ''password'' \<noteq> [] \<and> CheckPassword (w_cmp w) (lk_PasswordHash l) (rq_query r ''password'')
      then True
      else (case rq_cookie r (linkSessionCookieName (lk_ID l)) of
              None \<Rightarrow> False
            | Some c \<Rightarrow> verifyLinkSession (w_now w) c (lk_ID l) (AdminToken cfg)))"

section \<open>Link pages\<close>

definition handleLinkPage :: "World \<Rightarrow> Request \<Rightarrow> string \<Rightarrow> Server \<Rightarrow> handled" where
  "handleLinkPage w r i s0 =
     (let s = reloadLinks w s0 in
      case links_Get i (sv_links s) of
        None \<Rightarrow> (s, [w_files w], http_Error ''not found'' 404)
      | Some l \<Rightarrow>
          if Expired l (w_now w) then (s, [w_files w], http_Error ''not found'' 404)
          else (let cfg = effectiveConfig w s in
            if \<not> linkSessionOK w cfg r l then (s, [w_files w], respond 401 (PasswordPage (lk_ID l)))
            else (case ListWith (w_tree w) cfg (sv_store s) of
                (st', Inl err) \<Rightarrow> (s\<lparr>sv_store := st'\<rparr>, [w_files w], http_Error ''internal error'' 500)
              | (st', Inr entries) \<Rightarrow>
                  (s\<lparr>sv_store := st'\<rparr>, [w_files w],
                   respond 200 (ListPage (lk_Description l)
                     (map (\<lambda>e. \<lparr>le_LogicalPath = LogicalPath e, le_Size = EntrySize e,
                                 le_URL = ShareURL cfg (DirHash e) (FileHash e)\<rparr>)
                        (filterByScope cfg entries (lk_Scope l))))))))"

definition handleLinkAuth :: "World \<Rightarrow> Request \<Rightarrow> string \<Rightarrow> Server \<Rightarrow> handled" where
  "handleLinkAuth w r i s0 =
     (let s = reloadLinks w s0 in
      case links_Get i (sv_links s) of
        None \<Rightarrow> (s, [w_files w], http_Error ''not found'' 404)
      | Some l \<Rightarrow>
          if Expired l (w_now w) then (s, [w_files w], http_Error ''not found'' 404)
          else if \<not> HasPassword l then (s, [w_files w], http_Redirect (''/l/'' @ lk_ID l) 302)
          else if \<not> CheckPassword (w_cmp w) (lk_PasswordHash l) (rq_form r ''password'')
          then (s, [w_files w], http_Error ''invalid password'' 401)
          else (let exp = w_now w + 24 * 3600 * second in
            (s, [w_files w],
             (http_Redirect (''/l/'' @ lk_ID l) 302)\<lparr>rs_cookie := Some
               \<lparr>ck_name = linkSessionCookieName (lk_ID l),
                ck_value = signLinkSession (lk_ID l) (exp div second) (AdminToken (effectiveConfig w s)),
                ck_path = ''/l/'' @ lk_ID l, ck_expires = exp\<rparr>\<rparr>)))"

definition link_file :: "Config \<Rightarrow> Entry \<Rightarrow> linkFileJSON" where
  "link_file cfg e = \<lparr>lf_LogicalPath = LogicalPath e, lf_LogicalDir = LogicalDir e,
     lf_DirHash = DirHash e, lf_FileHash = FileHash e, lf_Size = EntrySize e,
     lf_URL = ShareURL cfg (DirHash e) (FileHash e)\<rparr>"

definition handleLinkFiles :: "World \<Rightarrow> Request \<Rightarrow> string \<Rightarrow> Server \<Rightarrow> handled" where
  "handleLinkFiles w r i s0 =
     (let s = reloadLinks w s0 in
      case links_Get i (sv_links s) of
        None \<Rightarrow> (s, [w_files w], http_Error ''not found'' 404)
      | Some l \<Rightarrow>
          if Expired l (w_now w) then (s, [w_files w], http_Error ''not found'' 404)
          else (let cfg = effectiveConfig w s in
            if \<not> linkSessionOK w cfg r l then (s, [w_files w], http_Error ''unauthorized'' 401)
            else (case ListWith (w_tree w) cfg (sv_store s) of
                (st', Inl err) \<Rightarrow> (s\<lparr>sv_store := st'\<rparr>, [w_files w], http_Error ''internal error'' 500)
              | (st', Inr entries) \<Rightarrow>
                  (s\<lparr>sv_store := st'\<rparr>, [w_files w],
                   respond 200 (LinkFiles (lk_ID l) (lk_Scope l)
                     (map (link_file cfg)
                        (filterByScope cfg entries (lk_Scope l))))))))"

section \<open>Health, download and the index\<close>

definition handleHealth :: "World \<Rightarrow> Server \<Rightarrow> handled" where
  "handleHealth w s =
     (s, [w_files w], case store_Check (w_tree w) (sv_store s) of
        Inl _ \<Rightarrow> http_Error ''unhealthy'' 503
      | Inr _ \<Rightarrow> respond 200 HealthOK)"

definition bad_rune :: "nat \<Rightarrow> bool" where
  "bad_rune r = (r = 34 \<or> r = 92 \<or> r < 32 \<or> r = 127)"

text \<open>\<open>strings.Map\<close> writes the replacement character for a byte that is no rune.\<close>

definition safeFilename :: "string \<Rightarrow> string" where
  "safeFilename name =
     (let clean = concat (map (\<lambda>(r, b). if bad_rune r then ''_''
             else if r = RuneError \<and> length b = 1 then [CHR 0xEF, CHR 0xBF, CHR 0xBD] else b) (runes name));
          clean = (if clean = [] \<or> clean = ''.'' \<or> clean = ''..'' then ''download'' else clean)
      in CHR 0x22 # clean @ [CHR 0x22])"

definition handleDownload :: "World \<Rightarrow> string \<Rightarrow> string \<Rightarrow> Server \<Rightarrow> handled" where
  "handleDownload w dirHash fileHash s =
     (case ResolveWith (w_tree w) (effectiveConfig w s) dirHash fileHash (sv_store s) of
        (st', res) \<Rightarrow>
          (s\<lparr>sv_store := st'\<rparr>, [w_files w],
           case res of
             Inl Store_ErrInvalid \<Rightarrow> http_Error ''invalid share link'' 400
           | Inl Store_ErrNotFound \<Rightarrow> http_Error ''not found'' 404
           | Inl Store_ErrConflict \<Rightarrow> http_Error ''ambiguous share link'' 409
           | Inl _ \<Rightarrow> http_Error ''internal error'' 500
           | Inr (apath, entry) \<Rightarrow>
               (case Open (w_tree w) apath of
                  Inl err \<Rightarrow> if IsNotExist err then http_Error ''not found'' 404
                             else http_Error ''internal error'' 500
                | Inr f \<Rightarrow>
                    (case f of
                       NFile _ content _ \<Rightarrow>
                         (let name = Base (LogicalPath entry) in
                          (respond 200 (FileContent name content))
                            \<lparr>rs_disposition := ''attachment; filename='' @ safeFilename name\<rparr>)
                     | _ \<Rightarrow> http_Error ''not found'' 404))))"

definition handleEmpty :: "World \<Rightarrow> Server \<Rightarrow> handled" where
  "handleEmpty w s = (s, [w_files w], respond 200 NoBody)"

section \<open>Routing\<close>

datatype route =
    RHealth
  | REmpty
  | RDownload string string
  | RLinksCreate
  | RLinksList
  | RLinkGet string
  | RLinkPatch string
  | RLinkDelete string
  | RLinkPage string
  | RLinkAuth string
  | RLinkFiles string
  | RNotAllowed

text \<open>
  The mux: the path of the request as its segments, a trailing slash being an empty last
  segment. A literal segment goes before a wildcard, a wildcard before \<open>/\<close>, and a wildcard
  takes no trailing slash; \<open>HEAD\<close> is served as \<open>GET\<close>; another method has no pattern.
\<close>

definition route_get :: "string list \<Rightarrow> route" where
  "route_get segs =
     (case segs of
        [a] \<Rightarrow> if a = ''healthz'' then RHealth else REmpty
      | [a, b] \<Rightarrow>
          if a = ''api'' \<and> b = ''links'' then RLinksList
          else if a = [] \<or> b = [] then REmpty
          else if a = ''l'' then RLinkPage b
          else RDownload a b
      | [a, b, c] \<Rightarrow>
          if a = ''api'' \<and> b = ''links'' \<and> c \<noteq> [] then RLinkGet c
          else if a = ''l'' \<and> b \<noteq> [] \<and> c = ''files'' then RLinkFiles b
          else REmpty
      | _ \<Rightarrow> REmpty)"

definition route_of :: "string \<Rightarrow> string list \<Rightarrow> route" where
  "route_of meth segs =
     (if meth = ''GET'' \<or> meth = ''HEAD'' then route_get segs
      else if meth = ''POST'' then
        (case segs of
           [a, b] \<Rightarrow> if a = ''api'' \<and> b = ''links'' then RLinksCreate else REmpty
         | [a, b, c] \<Rightarrow> if a = ''l'' \<and> b \<noteq> [] \<and> c = ''auth'' then RLinkAuth b else REmpty
         | _ \<Rightarrow> REmpty)
      else if meth = ''PATCH'' \<or> meth = ''DELETE'' then
        (case segs of
           [a, b, c] \<Rightarrow>
             if a = ''api'' \<and> b = ''links'' \<and> c \<noteq> []
             then (if meth = ''PATCH'' then RLinkPatch c else RLinkDelete c) else RNotAllowed
         | _ \<Rightarrow> RNotAllowed)
      else RNotAllowed)"

definition ServeHTTP :: "World \<Rightarrow> Request \<Rightarrow> Server \<Rightarrow> handled" where
  "ServeHTTP w r s =
     (case route_of (rq_method r) (rq_segs r) of
        RHealth \<Rightarrow> handleHealth w s
      | REmpty \<Rightarrow> handleEmpty w s
      | RDownload d f \<Rightarrow> handleDownload w d f s
      | RLinksCreate \<Rightarrow> handleLinksCreate w r s
      | RLinksList \<Rightarrow> handleLinksList w r s
      | RLinkGet i \<Rightarrow> handleLinkGet w r i s
      | RLinkPatch i \<Rightarrow> handleLinkPatch w r i s
      | RLinkDelete i \<Rightarrow> handleLinkDelete w r i s
      | RLinkPage i \<Rightarrow> handleLinkPage w r i s
      | RLinkAuth i \<Rightarrow> handleLinkAuth w r i s
      | RLinkFiles i \<Rightarrow> handleLinkFiles w r i s
      | RNotAllowed \<Rightarrow> (s, [w_files w], http_Error ''Method Not Allowed'' 405))"

section \<open>Start-up\<close>

datatype start_error = BadConfig config_error | BadLinks link_error

text \<open>\<open>run\<close> of \<open>main.go\<close> up to serving.\<close>

definition server_run :: "(string \<Rightarrow> string) \<Rightarrow> World \<Rightarrow> (start_error, Server) result" where
  "server_run getenv w =
     (case loadFromEnv getenv of
        Inl e \<Rightarrow> Inl (BadConfig e)
      | Inr cfg \<Rightarrow>
          (let st = store_New cfg in
           case store_Check (w_tree w) st of
             Inl e \<Rightarrow> Inl (BadConfig e)
           | Inr _ \<Rightarrow>
               (case links_Load (w_io w) (w_files w) (links_NewStore (LinksDir cfg)) of
                  (ls, Some e) \<Rightarrow> Inl (BadLinks e)
                | (ls, None) \<Rightarrow> Inr (server_New cfg st ls))))"

end
