(* ===== verification/Server_Props.thy ===== *)
theory Server_Props
  imports Server_Pkg
begin

text \<open>
  What the file-sharing service guarantees: the invariant of its state over any sequence of
  requests, who may read a link and change the links, what a link shows and what a download
  serves.
\<close>

section \<open>The configuration in force\<close>

lemma effectiveConfig_kept:
  "ContainerRoot (effectiveConfig w s) = ContainerRoot (sv_cfg s)"
  "SharePrefix (effectiveConfig w s) = SharePrefix (sv_cfg s)"
  by (simp_all add: effectiveConfig_def Let_def split: sum.splits)

lemma effectiveConfig_valid:
  assumes "config_Validate (sv_cfg s) = None"
  shows "config_Validate (effectiveConfig w s) = None"
proof -
  let ?path = "if SharedPath (sv_cfg s) = [] then DefaultSharedConfigPath else SharedPath (sv_cfg s)"
  show ?thesis
  proof (cases "LoadShared (w_io w) (w_files w) ?path")
    case (Inl e)
    then show ?thesis using assms by (simp add: effectiveConfig_def Let_def)
  next
    case (Inr sc)
    then show ?thesis
      using assms LoadShared_valid [OF Inr]
      by (auto simp: effectiveConfig_def Let_def config_Validate_None shared_Validate_None supported_def MD5_def SHA256_def)
  qed
qed

lemma valid_usable: "config_Validate c = None \<Longrightarrow> usable c"
  by (simp add: usable_def config_Validate_None)

section \<open>Loaded links\<close>

lemma links_members_distinct:
  "decode_members [(''links'', dec_links)] ms al = Some al' \<Longrightarrow> distinct (keys_of al) \<Longrightarrow> distinct (keys_of al')"
proof (induction "[(''links'', dec_links)]" ms al rule: decode_members.induct)
  case (2 k v ms al)
  show ?case
  proof (cases "find_field [(''links'', dec_links)] k")
    case (Some f)
    then have "f = dec_links" by (auto simp: find_field_def split: if_splits)
    then obtain al1 where al1: "dec_links v al = Some al1" "decode_members [(''links'', dec_links)] ms al1 = Some al'"
      using "2.prems"(1) Some by (auto simp: Option.bind_eq_Some_conv)
    have "distinct (keys_of al1)"
      using al1(1) "2.prems"(2) dec_map_members_distinct by (auto simp: dec_links_def split: json.splits)
    then show ?thesis using "2.hyps"(2) [OF Some] al1 \<open>f = dec_links\<close> by blast
  qed (use 2 in simp)
qed simp

lemma links_Load_wf [inv_intros]: "wf_links s \<Longrightarrow> wf_links (fst (links_Load io fs s))"
  by (auto simp: links_Load_def links_decode_def decode_struct_def wf_links_def
      split: sum.splits option.splits doc.splits json.splits dest: links_members_distinct)

lemma reloadLinks_simps [simp]: "sv_cfg (reloadLinks w s) = sv_cfg s" "sv_store (reloadLinks w s) = sv_store s"
  by (simp_all add: reloadLinks_def)

lemma effectiveConfig_reload [simp]: "effectiveConfig w (reloadLinks w s) = effectiveConfig w s"
  by (simp add: effectiveConfig_def)

lemma reloadLinks_wf [inv_intros]: "wf_links (sv_links s) \<Longrightarrow> wf_links (sv_links (reloadLinks w s))"
  by (simp add: reloadLinks_def links_Load_wf)

section \<open>The invariant\<close>

definition server_inv :: "World set \<Rightarrow> Server \<Rightarrow> bool" where
  "server_inv W s \<longleftrightarrow> config_Validate (sv_cfg s) = None \<and> wf_links (sv_links s)
     \<and> store_run (w_tree ` W) (sv_store s)"

lemma server_inv_reload: "server_inv W s \<Longrightarrow> server_inv W (reloadLinks w s)"
  by (simp add: server_inv_def reloadLinks_wf)

lemma server_inv_links: "server_inv W s \<Longrightarrow> wf_links ls \<Longrightarrow> server_inv W (s\<lparr>sv_links := ls\<rparr>)"
  by (simp add: server_inv_def)

lemma createLoop_wf: "wf_links ls \<Longrightarrow> wf_links (fst (createLoop n i w cand ls))"
proof (induction n i w cand ls rule: createLoop.induct)
  case (2 n i w cand ls)
  show ?case
  proof (cases "NewID (w_rand w i)")
    case (Some ident)
    obtain ls' tr r where c: "links_Create (w_io w) (w_now w) (w_files w) (cand ident) ls = (ls', tr, r)"
      by (metis prod_cases3)
    have "wf_links ls'" using table.create_ok [OF "2.prems", of "w_io w" "w_now w" "w_files w" "cand ident"] c by simp
    then show ?thesis using "2.IH" Some c by (auto split: option.splits)
  qed (use 2 in simp)
qed simp

lemma handleLinksCreate_inv:
  assumes "server_inv W s"
  shows "server_inv W (fst (handleLinksCreate w r s))"
proof -
  note i = server_inv_reload [OF assms, of w]
  then have wf: "wf_links (sv_links (reloadLinks w s))" by (simp add: server_inv_def)
  show ?thesis
    using i createLoop_wf [OF wf] unfolding handleLinksCreate_def Let_def
    by (auto split: sum.splits simp: server_inv_links case_prod_unfold)
qed

lemma handleLinkPatch_inv:
  assumes "server_inv W s"
  shows "server_inv W (fst (handleLinkPatch w r i s))"
proof -
  note inv = server_inv_reload [OF assms, of w]
  then have wf: "wf_links (sv_links (reloadLinks w s))" by (simp add: server_inv_def)
  show ?thesis
    using inv table.change_ok [OF wf] unfolding handleLinkPatch_def Let_def
    by (auto split: option.splits simp: server_inv_links case_prod_unfold)
qed

lemma handleLinkDelete_inv:
  assumes "server_inv W s"
  shows "server_inv W (fst (handleLinkDelete w r i s))"
proof -
  note inv = server_inv_reload [OF assms, of w]
  then have wf: "wf_links (sv_links (reloadLinks w s))" by (simp add: server_inv_def)
  show ?thesis
    using inv table.remove_ok [OF wf] unfolding handleLinkDelete_def Let_def
    by (auto split: option.splits simp: server_inv_links case_prod_unfold)
qed

lemma server_inv_usable: "server_inv W s \<Longrightarrow> usable (effectiveConfig w s)"
  by (simp add: server_inv_def effectiveConfig_valid valid_usable)

lemma server_inv_listed:
  "server_inv W s \<Longrightarrow> w \<in> W \<Longrightarrow>
    server_inv W (s\<lparr>sv_store := fst (ListWith (w_tree w) (effectiveConfig w s) (sv_store s))\<rparr>)"
  using server_inv_usable [of W s w] by (auto simp: server_inv_def intro: store_run.listed)

lemma server_inv_resolved:
  "server_inv W s \<Longrightarrow> w \<in> W \<Longrightarrow>
    server_inv W (s\<lparr>sv_store := fst (ResolveWith (w_tree w) (effectiveConfig w s) d f (sv_store s))\<rparr>)"
  using server_inv_usable [of W s w] by (auto simp: server_inv_def intro: store_run.resolved)

lemma handleLinkPage_inv:
  assumes "server_inv W s" "w \<in> W"
  shows "server_inv W (fst (handleLinkPage w r i s))" "server_inv W (fst (handleLinkFiles w r i s))"
    "server_inv W (fst (handleLinkAuth w r i s))"
proof -
  note inv = server_inv_reload [OF assms(1), of w]
  note ins = server_inv_listed [OF inv assms(2)]
  show "server_inv W (fst (handleLinkPage w r i s))" "server_inv W (fst (handleLinkFiles w r i s))"
    using inv ins unfolding handleLinkPage_def handleLinkFiles_def Let_def
    by (auto split: option.splits sum.splits simp: case_prod_unfold)
  show "server_inv W (fst (handleLinkAuth w r i s))"
    using inv unfolding handleLinkAuth_def Let_def by (auto split: option.splits)
qed

lemma ServeHTTP_inv [inv_intros]:
  assumes "server_inv W s" "w \<in> W"
  shows "server_inv W (fst (ServeHTTP w r s))"
proof -
  have "server_inv W (fst (handleLinksList w r s))" "server_inv W (fst (handleLinkGet w r i s))" for i
    using server_inv_reload [OF assms(1)]
    by (auto simp: handleLinksList_def handleLinkGet_def Let_def split: option.splits)
  moreover have "server_inv W (fst (handleDownload w d f s))" for d f
    using server_inv_resolved [OF assms] by (simp add: handleDownload_def case_prod_unfold)
  ultimately show ?thesis
    using assms handleLinksCreate_inv handleLinkPatch_inv handleLinkDelete_inv handleLinkPage_inv
    by (simp add: ServeHTTP_def handleHealth_def handleEmpty_def split: route.splits)
qed

text \<open>The states of a service that was started and served requests, in the worlds \<open>W\<close>.\<close>

inductive served :: "World set \<Rightarrow> Server \<Rightarrow> bool" for W where
  boot: "server_run getenv w = Inr s \<Longrightarrow> w \<in> W \<Longrightarrow> served W s"
| serve: "served W s \<Longrightarrow> w \<in> W \<Longrightarrow> served W (fst (ServeHTTP w r s))"

lemma server_run_inv:
  assumes "server_run getenv w = Inr s"
  shows "server_inv W s"
proof -
  from assms obtain cfg ls where c: "loadFromEnv getenv = Inr cfg" "s = server_New cfg (store_New cfg) ls"
      "links_Load (w_io w) (w_files w) (links_NewStore (LinksDir cfg)) = (ls, None)"
    by (auto simp: server_run_def Let_def split: sum.splits prod.splits option.splits)
  have "wf_links ls"
    using links_Load_wf [of "links_NewStore (LinksDir cfg)" "w_io w" "w_files w"] c(3)
    by (simp add: links_NewStore_def wf_links_def)
  moreover have "config_Validate cfg = None" using loadFromEnv_valid [OF c(1)] .
  ultimately show ?thesis
    using c(2) valid_usable by (auto simp: server_inv_def server_New_def intro: store_run.start)
qed

lemma served_inv: "served W s \<Longrightarrow> server_inv W s"
  by (induction rule: served.induct) (auto intro: server_run_inv ServeHTTP_inv)

section \<open>The management API\<close>

definition api_route :: "route \<Rightarrow> bool" where
  "api_route rt = (case rt of RLinksCreate \<Rightarrow> True | RLinksList \<Rightarrow> True | RLinkGet _ \<Rightarrow> True
     | RLinkPatch _ \<Rightarrow> True | RLinkDelete _ \<Rightarrow> True | _ \<Rightarrow> False)"

lemma checkBearer_iff: "checkBearer r token \<longleftrightarrow> token \<noteq> [] \<and> rq_auth r = ''Bearer '' @ token"
  by (auto simp: checkBearer_def Let_def HasPrefix_iff TrimPrefix_def)

text \<open>
  C3: only the bearer of the administration token in force reads or changes links through
  the management API. Any other request to it is answered 401 and changes nothing: no link
  is created, changed or deleted, in memory or on disk (the links are reloaded first, as
  for every request).
\<close>

theorem api_requires_token:
  assumes "api_route (route_of (rq_method r) (rq_segs r))"
    and "rq_auth r \<noteq> ''Bearer '' @ AdminToken (effectiveConfig w s) \<or> AdminToken (effectiveConfig w s) = []"
  shows "ServeHTTP w r s = (reloadLinks w s, [w_files w], http_Error ''unauthorized'' 401)"
proof -
  have "requireBearer w r (reloadLinks w s) = Some (http_Error ''unauthorized'' 401)"
    using assms(2) by (auto simp: requireBearer_def checkBearer_iff)
  then show ?thesis
    using assms(1)
    by (auto simp: ServeHTTP_def api_route_def handleLinksCreate_def create_input_def handleLinksList_def
        handleLinkGet_def handleLinkPatch_def handleLinkDelete_def Let_def split: route.splits)
qed

definition demo_world :: World where
  "demo_world = \<lparr>w_tree = demo_fs, w_files = Map.empty, w_io = io_ok, w_now = 1700000000 * second,
     w_rand = (\<lambda>_. Some ''abcdefghijkl''), w_gen = (\<lambda>p. if length p > 72 then None else Some (CHR ''h'' # p)),
     w_cmp = (\<lambda>h p. h = CHR ''h'' # p)\<rparr>"

definition demo_server :: Server where
  "demo_server = server_New demo_cfg (store_New demo_cfg) (links_NewStore ''/links'')"

definition demo_request :: "string \<Rightarrow> string list \<Rightarrow> Request" where
  "demo_request meth segs = \<lparr>rq_method = meth, rq_segs = segs, rq_auth = [], rq_query = (\<lambda>_. []),
     rq_form = (\<lambda>_. []), rq_cookie = (\<lambda>_. None), rq_body = None\<rparr>"

theorem api_requires_token_witness:
  "ServeHTTP demo_world (demo_request ''DELETE'' [''api'', ''links'', ''abc'']) demo_server
     = (reloadLinks demo_world demo_server, [w_files demo_world], http_Error ''unauthorized'' 401)"
  by (rule api_requires_token) (simp_all add: demo_request_def route_of_def api_route_def)

section \<open>Link sessions\<close>

lemma SplitByte_two: "SplitByte c s = [a, b] \<longleftrightarrow> s = a @ c # b \<and> c \<notin> set a \<and> c \<notin> set b"
proof
  assume l: "SplitByte c s = [a, b]"
  then have "s = a @ c # b" using Join_SplitByte [of c s] by simp
  then show "s = a @ c # b \<and> c \<notin> set a \<and> c \<notin> set b"
    using l SplitByte_pieces [of a c s] SplitByte_pieces [of b c s] by simp
qed (auto simp: SplitByte_append SplitByte_no_sep)

lemma verifyLinkSession_iff:
  "verifyLinkSession now cookie i key \<longleftrightarrow> key \<noteq> [] \<and>
     (\<exists>p0 p1 msg exp. cookie = p0 @ ''.'' @ p1 \<and> CHR ''.'' \<notin> set p0 \<and> CHR ''.'' \<notin> set p1
        \<and> RawURLDecode p0 = Some msg \<and> fst (CutByte msg CHR ''.'') = i
        \<and> ParseInt64 (fst (snd (CutByte msg CHR ''.''))) = Some exp \<and> now div second \<le> exp
        \<and> RawURLDecode p1 = Some (HMAC_SHA256 key msg))" (is "?L \<longleftrightarrow> ?R")
proof
  assume l: ?L
  then have k: "key \<noteq> []" by (auto simp: verifyLinkSession_def)
  obtain p0 p1 where p: "SplitByte CHR ''.'' cookie = [p0, p1]"
    using l k by (auto simp: verifyLinkSession_def split: list.splits)
  then obtain msg exp where m: "RawURLDecode p0 = Some msg" "fst (CutByte msg CHR ''.'') = i"
      "ParseInt64 (fst (snd (CutByte msg CHR ''.''))) = Some exp" "now div second \<le> exp"
      "RawURLDecode p1 = Some (HMAC_SHA256 key msg)"
    using l k unfolding verifyLinkSession_def by (auto simp: case_prod_unfold split: option.splits if_splits)
  show ?R using k m p unfolding SplitByte_two by auto
next
  assume ?R
  then obtain p0 p1 msg exp where r: "key \<noteq> []" "SplitByte CHR ''.'' cookie = [p0, p1]" "RawURLDecode p0 = Some msg"
      "fst (CutByte msg CHR ''.'') = i" "ParseInt64 (fst (snd (CutByte msg CHR ''.''))) = Some exp"
      "now div second \<le> exp" "RawURLDecode p1 = Some (HMAC_SHA256 key msg)"
    using SplitByte_two [of "CHR ''.''" cookie] by auto
  then show ?L by (simp add: verifyLinkSession_def case_prod_unfold)
qed

lemma sign_verify:
  assumes "key \<noteq> []" "CHR ''.'' \<notin> set i" "- (2 ^ 63) \<le> exp" "exp < 2 ^ 63"
  shows "verifyLinkSession now (signLinkSession i exp key) j key' \<longleftrightarrow>
    key' \<noteq> [] \<and> j = i \<and> now div second \<le> exp
    \<and> HMAC_SHA256 key' (i @ ''.'' @ FormatInt exp) = HMAC_SHA256 key (i @ ''.'' @ FormatInt exp)"
proof -
  let ?msg = "i @ CHR ''.'' # FormatInt exp"
  have split: "SplitByte CHR ''.'' (signLinkSession i exp key) = [RawURLEncode ?msg, RawURLEncode (HMAC_SHA256 key ?msg)]"
    using url64.split_two [OF dot_not_url] by (simp add: signLinkSession_def Let_def)
  have cut: "CutByte ?msg CHR ''.'' = (i, FormatInt exp, True)" using assms(2) by (rule CutByte_append)
  show ?thesis
    using ParseInt64_FormatInt [of exp] assms(3,4)
    unfolding verifyLinkSession_def split by (auto simp: url64.dec_enc cut)
qed

text \<open>
  C17: a link session that the service signs is accepted exactly for its link and until its
  expiry, under the token it was signed with; under another token it is accepted only if the two
  tokens give the same authentication code.
\<close>

theorem link_session_roundtrip:
  assumes "key \<noteq> []" "CHR ''.'' \<notin> set i" "- (2 ^ 63) \<le> exp" "exp < 2 ^ 63"
  shows "(verifyLinkSession now (signLinkSession i exp key) j key \<longleftrightarrow> j = i \<and> now div second \<le> exp)
    \<and> (verifyLinkSession now (signLinkSession i exp key) i key' \<longrightarrow>
         HMAC_SHA256 key' (i @ ''.'' @ FormatInt exp) = HMAC_SHA256 key (i @ ''.'' @ FormatInt exp))"
  using sign_verify [OF assms, of now j key] sign_verify [OF assms, of now i key'] assms(1) by auto

theorem link_session_roundtrip_witness:
  "verifyLinkSession (1700000000 * second) (signLinkSession ''abc'' 1700086400 ''tok'') ''abc'' ''tok''
   \<and> \<not> verifyLinkSession (1700086401 * second) (signLinkSession ''abc'' 1700086400 ''tok'') ''abc'' ''tok''"
  using link_session_roundtrip [of "''tok''" "''abc''" 1700086400 "1700000000 * second" "''abc''" "''tok''"]
    link_session_roundtrip [of "''tok''" "''abc''" 1700086400 "1700086401 * second" "''abc''" "''tok''"]
  by (simp add: second_def)

section \<open>What a link shows\<close>

lemma filterByScope_set:
  "set (filterByScope cfg es sc) =
     {e \<in> set es. sp_Type sc = ScopeAdmin \<or> fst (CutByte (LogicalPath e) CHR ''/'') \<in> {sharedTop cfg, sp_User sc}}"
  by (auto simp: filterByScope_def Let_def)

lemma link_file_set:
  "{(lf_LogicalPath f, lf_DirHash f, lf_FileHash f, lf_Size f) |f. f \<in> set (map (link_file cfg) (filterByScope cfg es sc))} =
   {(LogicalPath e, DirHash e, FileHash e, EntrySize e) |e. e \<in> set es
      \<and> (sp_Type sc = ScopeAdmin \<or> fst (CutByte (LogicalPath e) CHR ''/'') \<in> {sharedTop cfg, sp_User sc})}"
  unfolding setcompr_eq_image Collect_mem_eq set_map image_image filterByScope_set
  by (simp add: link_file_def)

lemma handleLinkFiles_ok:
  assumes "handleLinkFiles w r i s = (s', tr, resp)" "rs_status resp = 200"
  obtains l es where "links_Get i (sv_links (reloadLinks w s)) = Some l" "\<not> Expired l (w_now w)"
    "linkSessionOK w (effectiveConfig w s) r l"
    "snd (ListWith (w_tree w) (effectiveConfig w s) (sv_store s)) = Inr es"
    "rs_body resp = LinkFiles (lk_ID l) (lk_Scope l)
       (map (link_file (effectiveConfig w s)) (filterByScope (effectiveConfig w s) es (lk_Scope l)))"
  using assms
  by (auto simp: handleLinkFiles_def Let_def http_Error_def respond_def split: option.splits if_splits sum.splits prod.splits)

text \<open>
  C4: what a link reveals. A file listing is served only for a stored link that has not
  expired, to a request that passes the link's password (there is none, or it is given, or
  a valid session cookie is); it contains exactly the entries of the store's listing that
  are in the link's scope: all of them for an administrator's link, else those in the
  shared namespace and in the namespace of the link's user.
\<close>

theorem link_files_scope:
  assumes "handleLinkFiles w r i s = (s', tr, resp)" "rs_status resp = 200"
  shows "\<exists>l es files. links_Get i (sv_links (reloadLinks w s)) = Some l \<and> \<not> Expired l (w_now w)
    \<and> (lk_PasswordHash l = []
       \<or> w_cmp w (lk_PasswordHash l) (rq_query r ''password'')
       \<or> (\<exists>c. rq_cookie r (''fl_'' @ lk_ID l) = Some c
              \<and> verifyLinkSession (w_now w) c (lk_ID l) (AdminToken (effectiveConfig w s))))
    \<and> snd (ListWith (w_tree w) (effectiveConfig w s) (sv_store s)) = Inr es
    \<and> rs_body resp = LinkFiles (lk_ID l) (lk_Scope l) files
    \<and> {(lf_LogicalPath f, lf_DirHash f, lf_FileHash f, lf_Size f) |f. f \<in> set files} =
      {(LogicalPath e, DirHash e, FileHash e, EntrySize e) |e. e \<in> set es
         \<and> (sp_Type (lk_Scope l) = ScopeAdmin
            \<or> fst (CutByte (LogicalPath e) CHR ''/'') \<in> {sharedTop (effectiveConfig w s), sp_User (lk_Scope l)})}"
proof -
  obtain l es where h: "links_Get i (sv_links (reloadLinks w s)) = Some l" "\<not> Expired l (w_now w)"
    "linkSessionOK w (effectiveConfig w s) r l"
    "snd (ListWith (w_tree w) (effectiveConfig w s) (sv_store s)) = Inr es"
    "rs_body resp = LinkFiles (lk_ID l) (lk_Scope l)
       (map (link_file (effectiveConfig w s)) (filterByScope (effectiveConfig w s) es (lk_Scope l)))"
    using handleLinkFiles_ok [OF assms] by blast
  have "lk_PasswordHash l = [] \<or> w_cmp w (lk_PasswordHash l) (rq_query r ''password'')
       \<or> (\<exists>c. rq_cookie r (''fl_'' @ lk_ID l) = Some c
              \<and> verifyLinkSession (w_now w) c (lk_ID l) (AdminToken (effectiveConfig w s)))"
    using h(3) by (auto simp: linkSessionOK_def HasPassword_def CheckPassword_def linkSessionCookieName_def
        split: if_splits option.splits)
  then show ?thesis
    using h link_file_set [of "effectiveConfig w s" es "lk_Scope l"] by blast
qed

definition demo_doc :: doc where
  "demo_doc = the (links_encode [(''abc'', (demo_link ''abc'' None)\<lparr>lk_Scope := \<lparr>sp_Type = ''user'', sp_User = ''alice''\<rparr>\<rparr>)])"

text \<open>The demonstration world with one stored link, for the user alice.\<close>

definition linked_world :: World where
  "linked_world = demo_world\<lparr>w_files := [''/links/links.json'' \<mapsto> \<lparr>cf_doc = demo_doc, cf_mode = 416, cf_gid = 0\<rparr>]\<rparr>"

lemma linked_world_simps:
  "w_tree linked_world = demo_fs"
  "effectiveConfig linked_world demo_server = demo_cfg"
  "links_Get ''abc'' (sv_links (reloadLinks linked_world demo_server))
     = Some ((demo_link ''abc'' None)\<lparr>lk_Scope := \<lparr>sp_Type = ''user'', sp_User = ''alice''\<rparr>\<rparr>)"
  by (simp add: linked_world_def demo_world_def) code_simp+

lemma linked_files:
  "\<exists>s' tr resp. handleLinkFiles linked_world (demo_request ''GET'' [''l'', ''abc'', ''files'']) ''abc'' demo_server = (s', tr, resp)
     \<and> rs_status resp = 200"
  using linked_world_simps demo_list
  by (auto simp: handleLinkFiles_def Let_def demo_link_def Expired_def linkSessionOK_def HasPassword_def
      demo_server_def server_New_def respond_def split: prod.splits sum.splits)

theorem link_files_scope_witness:
  "\<exists>s' tr resp l es files.
     handleLinkFiles linked_world (demo_request ''GET'' [''l'', ''abc'', ''files'']) ''abc'' demo_server = (s', tr, resp)
    \<and> links_Get ''abc'' (sv_links (reloadLinks linked_world demo_server)) = Some l
    \<and> rs_body resp = LinkFiles (lk_ID l) (lk_Scope l) files"
proof -
  obtain s' tr resp where h: "handleLinkFiles linked_world (demo_request ''GET'' [''l'', ''abc'', ''files'']) ''abc'' demo_server
      = (s', tr, resp)" "rs_status resp = 200"
    using linked_files by blast
  show ?thesis using h(1) link_files_scope [OF h] by metis
qed

section \<open>Downloads\<close>

lemma Open_plain:
  assumes "plain_path fs segs" "list_all good_seg segs" "get_node fs segs = Some (NFile e c t)"
  shows "Open fs (abs_path segs) = (case e of None \<Rightarrow> Inr (NFile None c t) | Some x \<Rightarrow> Inl x)"
  using Lookup_plain [OF assms, of True] by (auto simp: Open_def split: option.splits)

lemma resolveLocked_opened:
  assumes "resolveLocked fs d f s = (s', Inr (p, en))"
  shows "openPath fs s' en = Inr p" "s' = fst (scan fs s)"
  using assms by (auto simp: resolveLocked_def split: if_splits sum.splits prod.splits list.splits)

lemma scan_cfg: "st_cfg (fst (scan fs s)) = st_cfg s"
  by (simp add: scan_def Let_def split: sum.splits prod.splits)

lemma handleDownload_ok:
  assumes "handleDownload w d f s = (s', tr, resp)" "rs_status resp = 200"
  obtains st p en e content t where
    "ResolveWith (w_tree w) (effectiveConfig w s) d f (sv_store s) = (st, Inr (p, en))"
    "Open (w_tree w) p = Inr (NFile e content t)"
    "resp = (respond 200 (FileContent (Base (LogicalPath en)) content))
       \<lparr>rs_disposition := ''attachment; filename='' @ safeFilename (Base (LogicalPath en))\<rparr>"
  using assms
  by (auto simp: handleDownload_def Let_def http_Error_def respond_def
      split: prod.splits sum.splits store_error.splits if_splits node.splits)

text \<open>
  C24: a download never leaves the share. In any state, whatever the hashes and the tree, a
  successful download serves the content of a regular file that is reached without a link
  below the share root, inside an eligible namespace.
\<close>

theorem download_contained:
  assumes "served W s" "wf_node (w_tree w)"
    and "handleDownload w d f s = (s', tr, resp)" "rs_status resp = 200"
  shows "\<exists>ns rest t name content. IsEligibleNamespace (effectiveConfig w s) ns
    \<and> plain_path (w_tree w) (path_elems (ContainerRoot (sv_cfg s)) @ ns # rest)
    \<and> get_node (w_tree w) (path_elems (ContainerRoot (sv_cfg s)) @ ns # rest) = Some (NFile None content t)
    \<and> rs_body resp = FileContent name content"
proof -
  have cfg: "config_Validate (effectiveConfig w s) = None"
    using served_inv [OF assms(1)] effectiveConfig_valid by (simp add: server_inv_def)
  obtain st p en e content t where h: "ResolveWith (w_tree w) (effectiveConfig w s) d f (sv_store s) = (st, Inr (p, en))"
      "Open (w_tree w) p = Inr (NFile e content t)"
      "resp = (respond 200 (FileContent (Base (LogicalPath en)) content))
         \<lparr>rs_disposition := ''attachment; filename='' @ safeFilename (Base (LogicalPath en))\<rparr>"
    using handleDownload_ok [OF assms(3,4)] .
  note o = resolveLocked_opened [OF h(1) [unfolded ResolveWith_def]]
  have st: "st_cfg st = effectiveConfig w s" using o(2) by (simp add: scan_cfg)
  have abs: "IsAbs (ContainerRoot (st_cfg st))" using cfg st by (simp add: config_Validate_None)
  obtain ns rest err c t' where f: "p = abs_path (root_elems (st_cfg st) @ ns # rest)"
      "IsEligibleNamespace (st_cfg st) ns" "plain_path (w_tree w) (root_elems (st_cfg st) @ ns # rest)"
      "get_node (w_tree w) (root_elems (st_cfg st) @ ns # rest) = Some (NFile err c t')"
    using openPath_physical [OF abs o(1)] by blast
  have good: "list_all good_seg (root_elems (st_cfg st) @ ns # rest)" using wf_node_get [OF assms(2) f(4)] by simp
  have "err = None" "content = c"
    using Open_plain [OF f(3) good f(4)] h(2) f(1) by (auto split: option.splits)
  then show ?thesis
    using f st h(3) by (auto simp: effectiveConfig_kept respond_def)
qed

text \<open>A service started from its environment, on a share that holds one file.\<close>

definition one_share :: "(string \<times> node) list" where
  "one_share = [(''alice'', NDir None True [(''a.txt'', NFile None ''aaa'' 1)]), (''public'', NDir None True [])]"

definition one_world :: World where
  "one_world = demo_world\<lparr>w_tree := NDir None True [(''srv'', NDir None True one_share)],
     w_files := [''/links/links.json'' \<mapsto> \<lparr>cf_doc = demo_doc, cf_mode = 416, cf_gid = 0\<rparr>]\<rparr>"

definition one_env :: "string \<Rightarrow> string" where
  "one_env k = (if k = ''SHARE_ROOT'' then ''/srv'' else if k = ''SHARE_PREFIX'' then ''public''
     else if k = ''PUBLIC_URL'' then ''http://h'' else if k = ''ADMIN_TOKEN'' then ''tok''
     else if k = ''LINKS_DIR'' then ''/links'' else [])"

definition one_server :: Server where
  "one_server = server_New demo_cfg (store_New demo_cfg)
     \<lparr>ls_path = ''/links/links.json'',
      ls_links = [(''abc'', (demo_link ''abc'' None)\<lparr>lk_Scope := \<lparr>sp_Type = ''user'', sp_User = ''alice''\<rparr>\<rparr>)]\<rparr>"

lemma one_boot: "server_run one_env one_world = Inr one_server"
proof -
  have "loadFromEnv one_env = Inr demo_cfg" "store_Check (w_tree one_world) (store_New demo_cfg) = Inr ()"
    "links_Load (w_io one_world) (w_files one_world) (links_NewStore (LinksDir demo_cfg)) = (sv_links one_server, None)"
    by code_simp+
  then show ?thesis by (simp add: server_run_def Let_def one_server_def server_New_def)
qed

lemma one_served: "served {one_world} one_server"
  by (rule served.boot [OF one_boot]) simp

lemma one_simps:
  "effectiveConfig one_world one_server = demo_cfg" "wf_node (w_tree one_world)"
  "share_at (w_tree one_world) demo_cfg one_share" "\<not> ns_faulty demo_cfg one_share"
  by code_simp+

lemma one_list: "\<exists>en. spec_list demo_cfg True one_share = [en] \<and> LogicalPath en = ''alice/a.txt''
    \<and> FileHash en = hash_of ''md5'' ''aaa''"
proof -
  have "ns_files demo_cfg one_share = [([''alice'', ''a.txt''], None, ''aaa'', 1)]" by code_simp
  then show ?thesis
    by (auto simp: spec_list_def List.map_filter_def Let_def demo_cfg_def)
qed

section \<open>From the listing to the download\<close>

lemma spec_list_content:
  assumes "share_at fs cfg ch" "en \<in> set (spec_list cfg True ch)"
  shows "\<exists>e c t. Open fs (disk_path cfg en) = (case e of None \<Rightarrow> Inr (NFile None c t) | Some x \<Rightarrow> Inl x)
    \<and> EntrySize en = int (length c)
    \<and> (if HashTarget cfg = ''filename'' then FileHash en = hash_of (HashAlgorithm cfg) (Base (LogicalPath en))
       else e = None \<and> FileHash en = hash_of (HashAlgorithm cfg) c)"
proof -
  obtain ns rest e c t where n: "disk_path cfg en = abs_path (root_elems cfg @ ns # rest)"
      "plain_path fs (root_elems cfg @ ns # rest)" "list_all good_seg (root_elems cfg @ ns # rest)"
      "get_node fs (root_elems cfg @ ns # rest) = Some (NFile e c t)" "spec_entry cfg (ns # rest, e, c, t) = Some en"
    using spec_list_node [OF assms(1,2)] by blast
  have "good_seg (last (ns # rest))" using n(3) by (simp add: list_all_iff)
  then have "Base (Join (ns # rest) ''/'') = last (ns # rest)"
    using Base_snoc [of "last (ns # rest)" "butlast (ns # rest)"]
    by (simp del: Join.simps last.simps butlast.simps)
  then have "EntrySize en = int (length c)"
    "if HashTarget cfg = ''filename'' then FileHash en = hash_of (HashAlgorithm cfg) (Base (LogicalPath en))
     else e = None \<and> FileHash en = hash_of (HashAlgorithm cfg) c"
    using n(5) by (auto simp: Let_def simp del: Join.simps split: if_splits)
  then show ?thesis
    using Open_plain [OF n(2,3,4)] n(1) by (intro exI [of _ e] exI [of _ c] exI [of _ t]) simp
qed

text \<open>
  The answer to a download of a listed entry, in the state of any history. A file that is listed by its
  name need not be readable.
\<close>

definition download_answer :: "World \<Rightarrow> Config \<Rightarrow> Entry \<Rightarrow> Response \<Rightarrow> bool" where
  "download_answer w cfg en resp \<longleftrightarrow>
     (case Open (w_tree w) (disk_path cfg en) of
        Inl e \<Rightarrow> HashTarget cfg = ''filename''
          \<and> resp = (if IsNotExist e then http_Error ''not found'' 404 else http_Error ''internal error'' 500)
      | Inr f \<Rightarrow> (\<exists>content t. f = NFile None content t \<and> rs_status resp = 200
          \<and> rs_body resp = FileContent (Base (LogicalPath en)) content \<and> int (length content) = EntrySize en
          \<and> hash_of (HashAlgorithm cfg) (if HashTarget cfg = ''filename'' then Base (LogicalPath en) else content) = FileHash en))"

lemma download_listed:
  assumes s: "server_inv W s" and w: "w \<in> W" and hist: "disciplined (w_tree ` W)" "\<forall>w \<in> W. wf_node (w_tree w)"
    and share: "share_at (w_tree w) (effectiveConfig w s) ch"
    and es: "snd (ListWith (w_tree w) (effectiveConfig w s) (sv_store s)) = Inr es" and en: "en \<in> set es"
  shows "\<exists>s' resp. handleDownload w (DirHash en) (FileHash en) s = (s', [w_files w], resp)
    \<and> (if \<exists>en' \<in> set es. en' \<noteq> en \<and> DirHash en' = DirHash en \<and> FileHash en' = FileHash en
       then resp = http_Error ''ambiguous share link'' 409 else download_answer w (effectiveConfig w s) en resp)"
proof -
  let ?cfg = "effectiveConfig w s" let ?T = "w_tree ` W"
  have run: "store_run ?T (sv_store s)" using s by (simp add: server_inv_def)
  have wf: "\<forall>fs \<in> ?T. wf_node fs" and wT: "w_tree w \<in> ?T" using hist(2) w by auto
  note h = store_run_honest [OF hist(1) wf run]
  have sp: "es = spec_list ?cfg True ch"
    using ListWith_history(1) [OF hist(1) wf wT share_at_usable [OF share] h] ListWith_new [OF share] es
    by (auto split: if_splits)
  obtain e c t where f: "Open (w_tree w) (disk_path ?cfg en) = (case e of None \<Rightarrow> Inr (NFile None c t) | Some x \<Rightarrow> Inl x)"
      "EntrySize en = int (length c)"
      "if HashTarget ?cfg = ''filename'' then FileHash en = hash_of (HashAlgorithm ?cfg) (Base (LogicalPath en))
       else e = None \<and> FileHash en = hash_of (HashAlgorithm ?cfg) c"
    using spec_list_content [OF share, of en] en sp by auto
  obtain st r where r: "ResolveWith (w_tree w) ?cfg (DirHash en) (FileHash en) (sv_store s) = (st, r)" by force
  have "r = (if \<exists>en' \<in> set es. en' \<noteq> en \<and> DirHash en' = DirHash en \<and> FileHash en' = FileHash en
       then Inl Store_ErrConflict else Inr (disk_path ?cfg en, en))"
    using listed_outcome [OF run hist(1) wf wT share es en] r by simp
  then show ?thesis
    using r f by (cases e) (auto simp: handleDownload_def download_answer_def Let_def respond_def split: if_splits)
qed




lemma one_server_simps: "sv_store one_server = store_New demo_cfg" "HashTarget demo_cfg = ''file''"
  by (simp_all add: one_server_def server_New_def demo_cfg_def)

lemma one_listing:
  obtains en where "snd (ListWith (w_tree one_world) (effectiveConfig one_world one_server) (sv_store one_server)) = Inr [en]"
    "LogicalPath en = ''alice/a.txt''"
proof -
  obtain en where en: "spec_list demo_cfg True one_share = [en]" "LogicalPath en = ''alice/a.txt''" using one_list by blast
  have "snd (ListWith (w_tree one_world) demo_cfg (store_New demo_cfg)) = Inr [en]"
    using ListWith_new [OF one_simps(3)] one_simps(4) en by simp
  then show thesis using that en(2) by (simp add: one_simps(1) one_server_simps)
qed

lemma one_history: "disciplined (w_tree ` {one_world})" "\<forall>w \<in> {one_world}. wf_node (w_tree w)"
  using singleton_disciplined one_simps(2) by simp_all

lemma one_target:
  "share_at (w_tree one_world) (effectiveConfig one_world one_server) one_share"
  "HashTarget (effectiveConfig one_world one_server) \<noteq> ''filename''"
  using one_simps one_server_simps by simp_all

lemma one_download:
  "\<exists>d f s' tr resp. handleDownload one_world d f one_server = (s', tr, resp) \<and> rs_status resp = 200"
proof -
  obtain en where en: "snd (ListWith (w_tree one_world) (effectiveConfig one_world one_server) (sv_store one_server)) = Inr [en]"
    by (rule one_listing)
  have "\<exists>s' resp. handleDownload one_world (DirHash en) (FileHash en) one_server = (s', [w_files one_world], resp)
      \<and> rs_status resp = 200"
    using download_listed [OF served_inv [OF one_served] singletonI one_history one_target(1) en, of en] one_target(2)
    by (cases "Open (w_tree one_world) (disk_path (effectiveConfig one_world one_server) en)") (auto simp: download_answer_def)
  then show ?thesis by blast
qed

theorem download_contained_witness:
  "\<exists>d f s' tr resp ns rest t name content. handleDownload one_world d f one_server = (s', tr, resp)
    \<and> IsEligibleNamespace demo_cfg ns
    \<and> get_node (w_tree one_world) (path_elems (ContainerRoot (sv_cfg one_server)) @ ns # rest) = Some (NFile None content t)
    \<and> rs_body resp = FileContent name content"
proof -
  obtain d f s' tr resp where h: "handleDownload one_world d f one_server = (s', tr, resp)" "rs_status resp = 200"
    using one_download by blast
  show ?thesis using h(1) download_contained [OF one_served one_simps(2) h] one_simps(1) by metis
qed




end
