(* ===== verification/Server_Links.thy ===== *)
theory Server_Links
  imports Server_Props
begin

text \<open>
  The life of a link over HTTP: creating it, entering its password, and the name under which
  its files are downloaded.
\<close>

section \<open>File names in headers\<close>

lemma DecodeRune_high:
  assumes "128 \<le> (of_char c :: nat)" "DecodeRune c cs = (r, w)"
  shows "128 \<le> r \<and> (\<forall>x \<in> set (c # take (w - 1) cs). 128 \<le> (of_char x :: nat))"
  using assms
  by (auto simp: DecodeRune_def Let_def in_range_def RuneError_def split: if_splits list.splits)

lemma runes_bytes:
  "(r, b) \<in> set (runes s) \<Longrightarrow>
     (\<exists>c. b = [c] \<and> of_char c = r \<and> r < 128) \<or> 128 \<le> r \<and> (\<forall>x \<in> set b. 128 \<le> (of_char x :: nat))"
proof (induction s rule: runes.induct)
  case (2 c cs)
  obtain r0 w where d: "DecodeRune c cs = (r0, w)" by force
  have first: "(\<exists>c'. c # take (w - 1) cs = [c'] \<and> of_char c' = r0 \<and> r0 < 128)
      \<or> 128 \<le> r0 \<and> (\<forall>x \<in> set (c # take (w - 1) cs). 128 \<le> (of_char x :: nat))"
  proof (cases "(of_char c :: nat) < 128")
    case True
    then show ?thesis using d DecodeRune_ascii [OF True, of cs] by auto
  next
    case False
    then show ?thesis using DecodeRune_high [OF _ d] by simp
  qed
  show ?case
  proof (cases "(r, b) = (r0, c # take (w - 1) cs)")
    case True
    then show ?thesis using first by auto
  next
    case False
    then show ?thesis using 2 d by auto
  qed
qed simp

definition header_safe :: "char \<Rightarrow> bool" where
  "header_safe c \<longleftrightarrow> c \<noteq> CHR 0x22 \<and> c \<noteq> CHR 0x5C \<and> 32 \<le> (of_char c :: nat) \<and> (of_char c :: nat) \<noteq> 127"

lemma header_safe_iff: "header_safe c \<longleftrightarrow> \<not> bad_rune (of_char c)"
proof -
  have "of_char (CHR 0x22) = (34 :: nat)" "of_char (CHR 0x5C) = (92 :: nat)" by simp_all
  then have "c = CHR 0x22 \<longleftrightarrow> of_char c = (34 :: nat)" "c = CHR 0x5C \<longleftrightarrow> of_char c = (92 :: nat)"
    by (metis of_char_eq_iff)+
  then show ?thesis by (auto simp: header_safe_def bad_rune_def)
qed

lemma of_char_high_safe: "128 \<le> (of_char c :: nat) \<Longrightarrow> header_safe c"
  by (simp add: header_safe_iff bad_rune_def)

definition clean_rune :: "nat \<times> string \<Rightarrow> string" where
  "clean_rune p = (case p of (r, b) \<Rightarrow> if bad_rune r then ''_''
     else if r = RuneError \<and> length b = 1 then [CHR 0xEF, CHR 0xBF, CHR 0xBD] else b)"

lemma safeFilename_clean:
  "safeFilename name = (let c = concat (map clean_rune (runes name)) in
     CHR 0x22 # (if c = [] \<or> c = ''.'' \<or> c = ''..'' then ''download'' else c) @ [CHR 0x22])"
proof -
  have "(\<lambda>(r, b). if bad_rune r then ''_'' else if r = RuneError \<and> length b = 1
      then [CHR 0xEF, CHR 0xBF, CHR 0xBD] else b) = clean_rune"
    by (simp only: clean_rune_def fun_eq_iff) blast
  then show ?thesis by (simp only: safeFilename_def Let_def)
qed

lemma clean_rune_safe: "p \<in> set (runes s) \<Longrightarrow> list_all header_safe (clean_rune p)"
proof -
  assume p: "p \<in> set (runes s)"
  obtain r b where rb: "p = (r, b)" by (cases p)
  consider c where "b = [c]" "of_char c = r" "r < 128" | "128 \<le> r" "\<forall>x \<in> set b. 128 \<le> (of_char x :: nat)"
    using runes_bytes [of r b s] p rb by auto
  then show ?thesis
  proof cases
    case 1
    then show ?thesis
      using header_safe_iff [of c] header_safe_iff [of "CHR ''_''"]
      by (simp add: rb clean_rune_def RuneError_def) (simp add: bad_rune_def)
  next
    case 2
    then show ?thesis
      using of_char_high_safe by (simp add: rb clean_rune_def bad_rune_def list_all_iff)
  qed
qed

lemma clean_rune_id:
  assumes "p \<in> set (runes s)" "list_all header_safe s" "valid_utf8 s"
  shows "\<not> bad_rune (fst p)"
proof -
  obtain r b where rb: "p = (r, b)" by (cases p)
  have sub: "set b \<subseteq> set s"
  proof -
    have "b \<in> set (map snd (runes s))" using assms(1) rb by force
    then have "set b \<subseteq> set (concat (map snd (runes s)))" unfolding set_concat by blast
    then show ?thesis by simp
  qed
  consider c where "b = [c]" "of_char c = r" "r < 128" | "128 \<le> r"
    using runes_bytes [of r b s] assms(1) rb by auto
  then show ?thesis
  proof cases
    case 1
    then have "header_safe c" using sub assms(2) by (auto simp: list_all_iff)
    then show ?thesis using 1 rb header_safe_iff [of c] by simp
  qed (simp add: rb bad_rune_def)
qed

text \<open>
  The file name in the download header cannot break out of its quotes. For any name,
  what is between the quotes is not empty, is not \<open>.\<close> or \<open>..\<close>, and contains no quote, no
  backslash and no control byte; a name that is valid UTF-8 and harmless is kept as it is.
\<close>

theorem safeFilename_harmless:
  "\<exists>clean. safeFilename name = CHR 0x22 # clean @ [CHR 0x22] \<and> clean \<notin> {[], ''.'', ''..''}
    \<and> list_all header_safe clean
    \<and> (valid_utf8 name \<and> list_all header_safe name \<and> name \<notin> {[], ''.'', ''..''} \<longrightarrow> clean = name)"
proof -
  let ?c = "concat (map clean_rune (runes name))"
  let ?clean = "if ?c = [] \<or> ?c = ''.'' \<or> ?c = ''..'' then ''download'' else ?c"
  have safe: "list_all header_safe ?c" using clean_rune_safe by (auto simp: list_all_iff)
  have keep: "?c = name" if "valid_utf8 name" "list_all header_safe name"
  proof -
    have eq: "map clean_rune (runes name)
        = map (\<lambda>(r, b). if r = RuneError \<and> length b = 1 then [CHR 0xEF, CHR 0xBF, CHR 0xBD] else b) (runes name)"
      using clean_rune_id [OF _ that(2,1)] by (intro map_cong) (auto simp: clean_rune_def)
    show ?thesis unfolding eq using that(1) by (simp only: fix_utf8_def)
  qed
  have "list_all header_safe ''download''" by (simp add: header_safe_def)
  then show ?thesis
    using safe keep by (intro exI [of _ ?clean]) (auto simp: safeFilename_clean Let_def)
qed

theorem safeFilename_harmless_witness:
  "\<exists>clean. safeFilename (''a'' @ [CHR 0x22, CHR 0x0A] @ ''b'') = CHR 0x22 # clean @ [CHR 0x22] \<and> list_all header_safe clean"
  using safeFilename_harmless [of "''a'' @ [CHR 0x22, CHR 0x0A] @ ''b''"] by blast

section \<open>Creating a link\<close>

lemma create_input_ok:
  assumes "create_input w r s = Inr (req, hash)"
  shows "rq_auth r = ''Bearer '' @ AdminToken (effectiveConfig w s)" "dec_create (rq_body r) = Some req"
    "scope_Validate (cr_Scope req) = None" "\<forall>t. cr_ExpiresAt req = Some t \<longrightarrow> w_now w < t"
    "length (cr_Password req) \<le> 72"
    "if cr_Password req = [] then hash = [] else w_gen w (cr_Password req) = Some hash"
  using assms
  by (auto simp: create_input_def bind_res_Inr early_return_Inr requireBearer_def checkBearer_iff checkLinkPassword_def
      HashPassword_def split: option.splits if_splits)

lemma createLoop_created:
  assumes "createLoop n i w cand ls = (ls', tr, Some l)"
  obtains ident j where "l = cand ident" "links_Create (w_io w) (w_now w) (w_files w) l ls = (ls', tr, None)"
    "NewID (w_rand w j) = Some ident"
  using assms
proof (induction n i w cand ls arbitrary: thesis rule: createLoop.induct)
  case (2 n i w cand ls)
  from "2.prems"(2) obtain ident where id: "NewID (w_rand w i) = Some ident" by (auto split: option.splits)
  obtain ls1 tr1 r1 where c: "links_Create (w_io w) (w_now w) (w_files w) (cand ident) ls = (ls1, tr1, r1)"
    by (metis prod_cases3)
  show ?case
  proof (cases r1)
    case None
    then show ?thesis
      using "2.prems" id c by auto
  next
    case (Some e)
    then have e: "e = Links_ErrExists" "createLoop n (i + 1) w cand ls1 = (ls', tr, Some l)"
      using "2.prems"(2) id c by (auto split: if_splits)
    then have "ls1 = ls" using c Some by (auto simp: links_Create_def saveLocked_def Let_def split: if_splits option.splits prod.splits)
    then show ?thesis
      using "2.IH" [OF id c [symmetric] refl Some] e "2.prems"(1) by blast
  qed
qed simp

lemma create_input_refused: "create_input w r s = Inl resp \<Longrightarrow> rs_status resp \<in> {400, 401, 500}"
  by (auto simp: create_input_def bind_res_Inl ensure_def need_def clear_def map_err_def requireBearer_def
      http_Error_def respond_def split: option.splits if_splits sum.splits)

lemma reloadLinks_path: "ls_path (sv_links (reloadLinks w s)) = ls_path (sv_links s)"
  by (simp add: reloadLinks_def links_Load_def split: sum.split option.split)

lemma handleLinksCreate_created:
  assumes "handleLinksCreate w r s = (s', tr, resp)" "rs_status resp = 201"
  obtains req hash l where "create_input w r (reloadLinks w s) = Inr (req, hash)"
    "createLoop 3 0 w (create_candidate w req hash) (sv_links (reloadLinks w s)) = (sv_links s', tr, Some l)"
    "rs_body resp = LinkBody ((linkDetail l)\<lparr>lj_URL := linkURL w (reloadLinks w s) (lk_ID l)\<rparr>)"
proof (cases "create_input w r (reloadLinks w s)")
  case (Inl e)
  then show ?thesis using assms create_input_refused [OF Inl] by (simp add: handleLinksCreate_def Let_def)
next
  case (Inr p)
  then show ?thesis
    using assms that by (cases p) (auto simp: handleLinksCreate_def Let_def http_Error_def respond_def
        split: prod.splits option.splits)
qed

text \<open>
  C26: a link that the API reports as created exists, in memory and on disk. The request carried the administration
  token and a valid scope; the link has an identifier that was free, the scope, expiry and
  description that were asked for and the hash of the password that was given; it is not
  expired, it is in the store, and every other unexpired link is still there. Whoever reads the file after the request finds
  under every identifier what the memory of the service has (the texts of the links are valid UTF-8, and the
  temporary file is not the file of the links).
\<close>

theorem create_link_stored:
  assumes "served W s" "handleLinksCreate w r s = (s', tr, resp)" "rs_status resp = 201"
  shows "\<exists>l req. rq_auth r = ''Bearer '' @ AdminToken (effectiveConfig w s) \<and> dec_create (rq_body r) = Some req
    \<and> lk_Scope l = cr_Scope req \<and> scope_Validate (lk_Scope l) = None
    \<and> lk_ExpiresAt l = cr_ExpiresAt req \<and> lk_Description l = cr_Description req
    \<and> (if cr_Password req = [] then lk_PasswordHash l = []
       else length (cr_Password req) \<le> 72 \<and> w_gen w (cr_Password req) = Some (lk_PasswordHash l))
    \<and> \<not> Expired l (w_now w)
    \<and> links_Get (lk_ID l) (sv_links (reloadLinks w s)) = None
    \<and> (\<forall>k. links_Get k (sv_links s') = (if k = lk_ID l then Some l
           else alive (w_now w) (links_Get k (sv_links (reloadLinks w s)))))
    \<and> rs_body resp = LinkBody ((linkDetail l)\<lparr>lj_URL := linkURL w s (lk_ID l)\<rparr>)
    \<and> (links_text (ls_links (sv_links s')) \<and> io_tmp (w_io w) \<noteq> ls_path (sv_links s) \<longrightarrow>
        (\<forall>rio t k. io_read rio (ls_path (sv_links s)) = None \<longrightarrow> ls_path t = ls_path (sv_links s)
           \<longrightarrow> links_Get k (fst (links_Load rio (last tr) t)) = links_Get k (sv_links s')))"
proof -
  let ?s = "reloadLinks w s"
  obtain req hash l where h: "create_input w r ?s = Inr (req, hash)"
      "createLoop 3 0 w (create_candidate w req hash) (sv_links ?s) = (sv_links s', tr, Some l)"
      "rs_body resp = LinkBody ((linkDetail l)\<lparr>lj_URL := linkURL w ?s (lk_ID l)\<rparr>)"
    by (rule handleLinksCreate_created [OF assms(2,3)])
  note inp = create_input_ok [OF h(1)]
  obtain ident j where c: "l = create_candidate w req hash ident"
      "links_Create (w_io w) (w_now w) (w_files w) l (sv_links ?s) = (sv_links s', tr, None)"
    by (rule createLoop_created [OF h(2)])
  have l: "lk_ExpiresAt l = cr_ExpiresAt req" "lk_Scope l = cr_Scope req" "lk_PasswordHash l = hash"
      "lk_Description l = cr_Description req"
    using c(1) by (simp_all add: create_candidate_def)
  have fresh: "links_Get (lk_ID l) (sv_links ?s) = None"
    using c(2) by (auto simp: links_Create_def links_Get_def split: if_splits)
  have live: "\<not> Expired l (w_now w)" using inp(4) l(1) by (auto simp: Expired_def split: option.splits)
  have wf: "wf_links (sv_links ?s)"
    using server_inv_reload [OF served_inv [OF assms(1)], of w] by (simp add: server_inv_def)
  have stored: "links_Get k (sv_links s') = (if k = lk_ID l then Some l else alive (w_now w) (links_Get k (sv_links ?s)))" for k
    using table.lookup_create [OF wf, of k "w_io w" "w_now w" "w_files w" l] c(2) fresh live by (simp add: alive_def)
  have req: "links_request (w_io w) (w_now w) (w_files w) (ReqCreate l) (sv_links ?s) = (sv_links s', tr, None)"
    using c(2) by simp
  have path: "ls_path (sv_links ?s) = ls_path (sv_links s)" by (rule reloadLinks_path)
  have disk: "links_Get k (fst (links_Load rio (last tr) t)) = links_Get k (sv_links s')"
    if "links_text (ls_links (sv_links s'))" "io_tmp (w_io w) \<noteq> ls_path (sv_links s)"
      "io_read rio (ls_path (sv_links s)) = None" "ls_path t = ls_path (sv_links s)" for rio t k
    using links_request_loaded(1,2) [OF wf req that(1), of rio t] that(2-4) path by simp
  have "linkURL w ?s (lk_ID l) = linkURL w s (lk_ID l)" by (simp add: linkURL_def)
  then show ?thesis
    using inp l fresh live h(3) stored disk by (intro exI [of _ l] exI [of _ req]) simp
qed

definition demo_create :: Request where
  "demo_create = (demo_request ''POST'' [''api'', ''links''])\<lparr>rq_auth := ''Bearer tok'',
     rq_body := Some (JObj [(''scope'', JObj [(''type'', JStr ''user''), (''user'', JStr ''alice'')]),
       (''password'', JStr ''secret'')])\<rparr>"

theorem create_link_stored_witness:
  "\<exists>l s' tr resp. handleLinksCreate one_world demo_create one_server = (s', tr, resp) \<and> lk_PasswordHash l = ''hsecret''
     \<and> links_Get (lk_ID l) (sv_links s') = Some l
     \<and> links_Get (lk_ID l) (fst (links_Load io_ok (last tr) (sv_links one_server))) = Some l"
proof -
  let ?h = "handleLinksCreate one_world demo_create one_server"
  have h: "?h = (fst ?h, fst (snd ?h), snd (snd ?h))" by simp
  have st: "rs_status (snd (snd ?h)) = 201" "links_text (ls_links (sv_links (fst ?h)))" by code_simp+
  have io: "io_tmp (w_io one_world) \<noteq> ls_path (sv_links one_server)" "io_read io_ok (ls_path (sv_links one_server)) = None"
    by (simp_all add: one_world_def demo_world_def io_ok_def one_server_def server_New_def)
  obtain l req where l: "dec_create (rq_body demo_create) = Some req"
      "if cr_Password req = [] then lk_PasswordHash l = []
       else length (cr_Password req) \<le> 72 \<and> w_gen one_world (cr_Password req) = Some (lk_PasswordHash l)"
      "links_Get (lk_ID l) (sv_links (fst ?h)) = Some l"
      "links_Get (lk_ID l) (fst (links_Load io_ok (last (fst (snd ?h))) (sv_links one_server))) = links_Get (lk_ID l) (sv_links (fst ?h))"
    using create_link_stored [OF one_served h st(1)] st(2) io by metis
  have "cr_Password req = ''secret''"
    using l(1) by (simp add: demo_create_def dec_create_def decode_struct_def create_fields_def find_field_def
        dec_scope_def scope_fields_def dec_string_def) auto
  then have "lk_PasswordHash l = ''hsecret''" using l(2) by (simp add: one_world_def demo_world_def)
  then show ?thesis using l(3,4) h by metis
qed

section \<open>The page of a link\<close>

text \<open>
  What a visitor who is let in gets: the entries of the store's listing that are in the link's scope, as rows of the page or
  of the file list; 500 only when the listing fails.
\<close>

definition shown :: "World \<Rightarrow> Server \<Rightarrow> Link \<Rightarrow> (Config \<Rightarrow> Entry list \<Rightarrow> body) \<Rightarrow> Response" where
  "shown w s l render =
     (let cfg = effectiveConfig w s in
      case snd (ListWith (w_tree w) cfg (sv_store s)) of
        Inl _ \<Rightarrow> http_Error ''internal error'' 500
      | Inr es \<Rightarrow> respond 200 (render cfg (filter (\<lambda>e. sp_Type (lk_Scope l) = ScopeAdmin
          \<or> fst (CutByte (LogicalPath e) CHR ''/'') \<in> {sharedTop cfg, sp_User (lk_Scope l)}) es)))"

definition page_rows :: "Link \<Rightarrow> Config \<Rightarrow> Entry list \<Rightarrow> body" where
  "page_rows l cfg es = ListPage (lk_Description l)
     (map (\<lambda>e. \<lparr>le_LogicalPath = LogicalPath e, le_Size = EntrySize e, le_URL = ShareURL cfg (DirHash e) (FileHash e)\<rparr>) es)"

definition file_rows :: "Link \<Rightarrow> Config \<Rightarrow> Entry list \<Rightarrow> body" where
  "file_rows l cfg es = LinkFiles (lk_ID l) (lk_Scope l) (map (link_file cfg) es)"

lemma filterByScope_filter:
  "filterByScope cfg es sc = filter (\<lambda>e. sp_Type sc = ScopeAdmin
     \<or> fst (CutByte (LogicalPath e) CHR ''/'') \<in> {sharedTop cfg, sp_User sc}) es"
  by (auto simp: filterByScope_def Let_def intro!: filter_cong)

lemma handleLinkPage_live:
  assumes "links_Get i (sv_links (reloadLinks w s)) = Some l" "\<not> Expired l (w_now w)"
  shows "snd (snd (handleLinkPage w r i s)) =
      (if linkSessionOK w (effectiveConfig w s) r l then shown w s l (page_rows l) else respond 401 (PasswordPage (lk_ID l)))"
    "snd (snd (handleLinkFiles w r i s)) =
      (if linkSessionOK w (effectiveConfig w s) r l then shown w s l (file_rows l) else http_Error ''unauthorized'' 401)"
  using assms
  by (simp_all add: handleLinkPage_def handleLinkFiles_def shown_def page_rows_def file_rows_def Let_def filterByScope_filter
      split: prod.split sum.split)

section \<open>The password of a link\<close>

lemma handleLinkAuth_live:
  assumes "links_Get i (sv_links (reloadLinks w s)) = Some l" "\<not> Expired l (w_now w)" "lk_PasswordHash l \<noteq> []"
  shows "snd (snd (handleLinkAuth w r i s)) =
    (if w_cmp w (lk_PasswordHash l) (rq_form r ''password'')
     then (http_Redirect (''/l/'' @ lk_ID l) 302)\<lparr>rs_cookie := Some \<lparr>ck_name = ''fl_'' @ lk_ID l,
        ck_value = signLinkSession (lk_ID l) (w_now w div second + 24 * 3600) (AdminToken (effectiveConfig w s)),
        ck_path = ''/l/'' @ lk_ID l, ck_expires = w_now w + 24 * 3600 * second\<rparr>\<rparr>
     else http_Error ''invalid password'' 401)"
proof -
  have "(w_now w + 24 * 3600 * second) div second = w_now w div second + 24 * 3600" by (simp add: second_def)
  then show ?thesis
    using assms by (simp add: handleLinkAuth_def Let_def HasPassword_def CheckPassword_def linkSessionCookieName_def)
qed

lemma handleLinkAuth_cookie:
  assumes "rs_cookie (snd (snd (handleLinkAuth w r i s))) \<noteq> None"
  obtains l where "links_Get i (sv_links (reloadLinks w s)) = Some l" "\<not> Expired l (w_now w)" "lk_PasswordHash l \<noteq> []"
    "w_cmp w (lk_PasswordHash l) (rq_form r ''password'')"
  using assms
  by (auto simp: handleLinkAuth_def Let_def http_Error_def http_Redirect_def respond_def CheckPassword_def HasPassword_def
      split: option.splits if_splits)

text \<open>
  C27: a session for a protected link. The service answers the password form with a session cookie exactly when the
  link is stored, unexpired and protected and the password entered matches; a wrong password is refused with 401.
  While the administration token stays the same, a request that carries the cookie is answered for 24 hours, on
  the page and on the file list of the link, with the listing of the link's scope; after that the
  page asks for the password again and the file list is refused.
\<close>

theorem link_auth_session:
  assumes "served W s" "handleLinkAuth w r i s = (s', tr, resp)" "0 \<le> w_now w" "w_now w < 2 ^ 62" "CHR ''.'' \<notin> set i"
    and "\<forall>l. links_Get i (sv_links (reloadLinks w s)) = Some l \<longrightarrow> lk_ID l = i"
  shows "(rs_cookie resp \<noteq> None \<longleftrightarrow> (\<exists>l. links_Get i (sv_links (reloadLinks w s)) = Some l \<and> \<not> Expired l (w_now w)
        \<and> lk_PasswordHash l \<noteq> [] \<and> w_cmp w (lk_PasswordHash l) (rq_form r ''password'')))
    \<and> (\<forall>l. links_Get i (sv_links (reloadLinks w s)) = Some l \<and> \<not> Expired l (w_now w) \<and> lk_PasswordHash l \<noteq> []
        \<and> \<not> w_cmp w (lk_PasswordHash l) (rq_form r ''password'') \<longrightarrow> resp = http_Error ''invalid password'' 401)
    \<and> (\<forall>ck w2 s2 r2 l2. rs_cookie resp = Some ck
        \<and> links_Get i (sv_links (reloadLinks w2 s2)) = Some l2 \<and> lk_ID l2 = i
        \<and> lk_PasswordHash l2 \<noteq> [] \<and> \<not> Expired l2 (w_now w2)
        \<and> AdminToken (effectiveConfig w2 s2) = AdminToken (effectiveConfig w s)
        \<and> rq_cookie r2 (ck_name ck) = Some (ck_value ck) \<and> rq_query r2 ''password'' = []
        \<longrightarrow> (if w_now w2 div second \<le> w_now w div second + 24 * 3600
            then snd (snd (handleLinkPage w2 r2 i s2)) = shown w2 s2 l2 (page_rows l2)
               \<and> snd (snd (handleLinkFiles w2 r2 i s2)) = shown w2 s2 l2 (file_rows l2)
            else snd (snd (handleLinkPage w2 r2 i s2)) = respond 401 (PasswordPage i)
               \<and> snd (snd (handleLinkFiles w2 r2 i s2)) = http_Error ''unauthorized'' 401))"
proof (intro conjI allI impI)
  have resp: "resp = snd (snd (handleLinkAuth w r i s))" using assms(2) by simp
  have cfg: "AdminToken (effectiveConfig w s) \<noteq> []"
    using served_inv [OF assms(1)] effectiveConfig_valid [of s w] by (simp add: server_inv_def config_Validate_None)
  have bound: "- (2 ^ 63) \<le> w_now w div second + 24 * 3600" "w_now w div second + 24 * 3600 < 2 ^ 63"
    using assms(3,4) by (simp_all add: second_def)
  show "rs_cookie resp \<noteq> None \<longleftrightarrow> (\<exists>l. links_Get i (sv_links (reloadLinks w s)) = Some l \<and> \<not> Expired l (w_now w)
        \<and> lk_PasswordHash l \<noteq> [] \<and> w_cmp w (lk_PasswordHash l) (rq_form r ''password''))"
    using handleLinkAuth_cookie [of w r i s] handleLinkAuth_live [of i w s _ r] unfolding resp by fastforce
  show "resp = http_Error ''invalid password'' 401"
    if "links_Get i (sv_links (reloadLinks w s)) = Some l \<and> \<not> Expired l (w_now w) \<and> lk_PasswordHash l \<noteq> []
        \<and> \<not> w_cmp w (lk_PasswordHash l) (rq_form r ''password'')" for l
    using that handleLinkAuth_live [of i w s l r] unfolding resp by simp
  fix ck w2 s2 l2 and r2 :: Request
  assume a: "rs_cookie resp = Some ck \<and> links_Get i (sv_links (reloadLinks w2 s2)) = Some l2 \<and> lk_ID l2 = i
        \<and> lk_PasswordHash l2 \<noteq> [] \<and> \<not> Expired l2 (w_now w2)
        \<and> AdminToken (effectiveConfig w2 s2) = AdminToken (effectiveConfig w s)
        \<and> rq_cookie r2 (ck_name ck) = Some (ck_value ck) \<and> rq_query r2 ''password'' = []"
  obtain l where l: "links_Get i (sv_links (reloadLinks w s)) = Some l" "\<not> Expired l (w_now w)" "lk_PasswordHash l \<noteq> []"
    "w_cmp w (lk_PasswordHash l) (rq_form r ''password'')"
    by (rule handleLinkAuth_cookie [of w r i s]) (use a resp in auto)
  have ck: "ck_name ck = ''fl_'' @ i"
      "ck_value ck = signLinkSession i (w_now w div second + 24 * 3600) (AdminToken (effectiveConfig w s))"
    using a handleLinkAuth_live [OF l(1-3), of r] l(1,4) assms(6) unfolding resp by auto
  have "linkSessionOK w2 (effectiveConfig w2 s2) r2 l2 \<longleftrightarrow>
      verifyLinkSession (w_now w2) (ck_value ck) i (AdminToken (effectiveConfig w s))"
    using a ck(1) by (simp add: linkSessionOK_def linkSessionCookieName_def HasPassword_def)
  also have "\<dots> \<longleftrightarrow> w_now w2 div second \<le> w_now w div second + 24 * 3600"
    using sign_verify [OF cfg assms(5) bound, of "w_now w2" i "AdminToken (effectiveConfig w s)"] cfg ck(2) by simp
  finally show "if w_now w2 div second \<le> w_now w div second + 24 * 3600
      then snd (snd (handleLinkPage w2 r2 i s2)) = shown w2 s2 l2 (page_rows l2)
         \<and> snd (snd (handleLinkFiles w2 r2 i s2)) = shown w2 s2 l2 (file_rows l2)
      else snd (snd (handleLinkPage w2 r2 i s2)) = respond 401 (PasswordPage i)
         \<and> snd (snd (handleLinkFiles w2 r2 i s2)) = http_Error ''unauthorized'' 401"
    using handleLinkPage_live [of i w2 s2 l2 r2] a by simp
qed

text \<open>The service with one protected link, whose password is \<open>pw\<close>.\<close>

definition prot_link :: Link where
  "prot_link = (demo_link ''abc'' None)\<lparr>lk_PasswordHash := ''hpw''\<rparr>"

definition prot_world :: World where
  "prot_world = one_world\<lparr>w_files := [''/links/links.json'' \<mapsto>
     \<lparr>cf_doc = the (links_encode [(''abc'', prot_link)]), cf_mode = 416, cf_gid = 0\<rparr>]\<rparr>"

definition prot_server :: Server where
  "prot_server = server_New demo_cfg (store_New demo_cfg) \<lparr>ls_path = ''/links/links.json'', ls_links = [(''abc'', prot_link)]\<rparr>"

lemma prot_served: "served {prot_world} prot_server"
proof (rule served.boot)
  have "loadFromEnv one_env = Inr demo_cfg" "store_Check (w_tree prot_world) (store_New demo_cfg) = Inr ()"
    "links_Load (w_io prot_world) (w_files prot_world) (links_NewStore (LinksDir demo_cfg)) = (sv_links prot_server, None)"
    by code_simp+
  then show "server_run one_env prot_world = Inr prot_server"
    by (simp add: server_run_def Let_def prot_server_def server_New_def)
qed simp

definition prot_login :: Request where
  "prot_login = (demo_request ''POST'' [''l'', ''abc'', ''auth''])\<lparr>rq_form := (\<lambda>k. if k = ''password'' then ''pw'' else [])\<rparr>"

definition prot_view :: "Cookie \<Rightarrow> Request" where
  "prot_view ck = (demo_request ''GET'' [''l'', ''abc''])\<lparr>rq_cookie := (\<lambda>k. if k = ck_name ck then Some (ck_value ck) else None)\<rparr>"

theorem link_auth_session_witness:
  "\<exists>s' tr resp ck. handleLinkAuth prot_world prot_login ''abc'' prot_server = (s', tr, resp) \<and> rs_cookie resp = Some ck
     \<and> snd (snd (handleLinkPage (prot_world\<lparr>w_now := 1700086400 * second\<rparr>) (prot_view ck) ''abc'' prot_server))
         = shown (prot_world\<lparr>w_now := 1700086400 * second\<rparr>) prot_server prot_link (page_rows prot_link)
     \<and> snd (snd (handleLinkPage (prot_world\<lparr>w_now := 1700086401 * second\<rparr>) (prot_view ck) ''abc'' prot_server))
         = respond 401 (PasswordPage ''abc'')"
proof -
  obtain s' tr resp where h: "handleLinkAuth prot_world prot_login ''abc'' prot_server = (s', tr, resp)"
    by (cases "handleLinkAuth prot_world prot_login ''abc'' prot_server")
  have got: "links_Get ''abc'' (sv_links (reloadLinks prot_world prot_server)) = Some prot_link"
    and pw: "w_cmp prot_world (lk_PasswordHash prot_link) (rq_form prot_login ''password'')"
    by code_simp+
  have got2: "links_Get ''abc'' (sv_links (reloadLinks (prot_world\<lparr>w_now := t\<rparr>) prot_server)) = Some prot_link" for t
    using got by (simp add: reloadLinks_def)
  have cfg2: "effectiveConfig (prot_world\<lparr>w_now := t\<rparr>) prot_server = effectiveConfig prot_world prot_server" for t
    by (simp add: effectiveConfig_def)
  have now: "w_now prot_world = 1700000000 * second" by (simp add: prot_world_def one_world_def demo_world_def)
  have l: "lk_ID prot_link = ''abc''" "lk_PasswordHash prot_link \<noteq> []" "\<And>t. \<not> Expired prot_link t"
    by (simp_all add: prot_link_def demo_link_def Expired_def)
  have range: "0 \<le> w_now prot_world" "w_now prot_world < 2 ^ 62" "CHR ''.'' \<notin> set ''abc''"
    "\<forall>l. links_Get ''abc'' (sv_links (reloadLinks prot_world prot_server)) = Some l \<longrightarrow> lk_ID l = ''abc''"
    using now got l(1) by (simp_all add: second_def)
  note a = link_auth_session [OF prot_served h range]
  obtain ck where ck: "rs_cookie resp = Some ck" using a got l pw by blast
  have v: "rq_cookie (prot_view ck) (ck_name ck) = Some (ck_value ck)" "rq_query (prot_view ck) ''password'' = []"
    by (simp_all add: prot_view_def demo_request_def)
  have page: "if t div second \<le> w_now prot_world div second + 24 * 3600
      then snd (snd (handleLinkPage (prot_world\<lparr>w_now := t\<rparr>) (prot_view ck) ''abc'' prot_server))
        = shown (prot_world\<lparr>w_now := t\<rparr>) prot_server prot_link (page_rows prot_link)
      else snd (snd (handleLinkPage (prot_world\<lparr>w_now := t\<rparr>) (prot_view ck) ''abc'' prot_server)) = respond 401 (PasswordPage ''abc'')" for t
    using a ck v l got2 [of t] cfg2 [of t]
    by (elim conjE allE [of _ ck] allE [of _ "prot_world\<lparr>w_now := t\<rparr>"] allE [of _ prot_server] allE [of _ "prot_view ck"] allE [of _ prot_link])
      (simp split: if_splits)
  show ?thesis
    using h ck page [of "1700086400 * second"] page [of "1700086401 * second"] now
    by (intro exI [of _ s'] exI [of _ tr] exI [of _ resp] exI [of _ ck]) (simp add: second_def)
qed

end
