(* ===== verification/Admin_Validate.thy ===== *)
theory Admin_Validate
  imports Config_Pkg Go_Base64
begin

text \<open>
  The package \<open>internal/sftpadmin\<close>, files \<open>validate.go\<close> and \<open>keygen.go\<close>: user names,
  OpenSSH public keys in their text form with the length-prefixed fields of their wire
  form, and key fingerprints.
\<close>

section \<open>User names\<close>

datatype username_error = BadUsername string | ReservedUsername string

definition reservedUsernames :: "string list" where
  "reservedUsernames = [''root'', ''admin'', ''sshd'', ''sftpusers'']"

definition ValidateUsername :: "string \<Rightarrow> username_error option" where
  "ValidateUsername name =
     (if \<not> usernamePattern name then Some (BadUsername name)
      else if name \<in> set reservedUsernames then Some (ReservedUsername name)
      else None)"

section \<open>Wire fields\<close>

datatype wire_error = Truncated | SlicePanic

text \<open>
  \<open>readWireBytes\<close>: the comparison is in 64 bits, the slice bound \<open>4 + n\<close> is computed in the
  32 bits of \<open>n\<close>. A bound below 4 would panic.
\<close>

definition readWireBytes :: "bytes \<Rightarrow> (wire_error, bytes \<times> bytes) result" where
  "readWireBytes b =
     (if length b < 4 then Inl Truncated
      else (let n = be_uint32 b in
            if unat n > length b - 4 then Inl Truncated
            else (let hi = unat (4 + n) in
                  if hi < 4 then Inl SlicePanic
                  else Inr (take (hi - 4) (drop 4 b), drop hi b))))"

section \<open>Public keys\<close>

datatype key_error =
    KeyMultiLine
  | KeyEmpty
  | KeyPrivate
  | KeyFields
  | KeyType string
  | KeyBase64
  | KeyTruncated
  | KeyWireType bytes string
  | KeyEd25519
  | KeyRsaExponent
  | KeyRsaModulus
  | KeyEcdsaCurve
  | KeyEcdsa
  | KeyPanic

definition allowedKeyTypes :: "string list" where
  "allowedKeyTypes = [''ssh-ed25519'', ''ssh-rsa'', ''ecdsa-sha2-nistp256'', ''ecdsa-sha2-nistp384'',
     ''ecdsa-sha2-nistp521'', ''sk-ssh-ed25519@openssh.com'']"

text \<open>One field that must satisfy a check; a panic of the slice is no error value.\<close>

definition wire_field :: "key_error \<Rightarrow> (bytes \<Rightarrow> bytes \<Rightarrow> bool) \<Rightarrow> bytes \<Rightarrow> (key_error, bytes) result" where
  "wire_field err good b =
     (case readWireBytes b of
        Inl SlicePanic \<Rightarrow> Inl KeyPanic
      | Inl Truncated \<Rightarrow> Inl err
      | Inr (k, tail) \<Rightarrow> if good k tail then Inr tail else Inl err)"

definition checkKeyBlob :: "string \<Rightarrow> bytes \<Rightarrow> (key_error, unit) result" where
  "checkKeyBlob typ blob =
     (case readWireBytes blob of
        Inl SlicePanic \<Rightarrow> Inl KeyPanic
      | Inl Truncated \<Rightarrow> Inl KeyTruncated
      | Inr (inner, rest) \<Rightarrow>
          if inner \<noteq> typ then Inl (KeyWireType inner typ)
          else if typ = ''ssh-ed25519'' \<or> typ = ''sk-ssh-ed25519@openssh.com'' then
            bind_res (wire_field KeyEd25519 (\<lambda>k tail. length k = 32 \<and> tail = []) rest) (\<lambda>_. Inr ())
          else if typ = ''ssh-rsa'' then
            bind_res (wire_field KeyRsaExponent (\<lambda>e tail. e \<noteq> [] \<and> length e \<le> 8) rest) (\<lambda>tail.
            bind_res (wire_field KeyRsaModulus (\<lambda>n tail. 32 \<le> length n \<and> tail = []) tail) (\<lambda>_. Inr ()))
          else
            bind_res (wire_field KeyEcdsaCurve (\<lambda>curve tail. curve = TrimPrefix typ ''ecdsa-sha2-'') rest) (\<lambda>tail.
            bind_res (wire_field KeyEcdsa (\<lambda>k tail. k \<noteq> [] \<and> tail = []) tail) (\<lambda>_. Inr ())))"

definition fingerprintSHA256 :: "bytes \<Rightarrow> string" where
  "fingerprintSHA256 blob = TrimRightByte (StdEncode (Sum256 blob)) CHR ''=''"

definition ValidatePublicKey :: "string \<Rightarrow> (key_error, string \<times> string) result" where
  "ValidatePublicKey key =
     (if CHR 0x0A \<in> set key \<or> CHR 0x0D \<in> set key then Inl KeyMultiLine
      else (let trimmed = TrimSpace key in
        if trimmed = [] then Inl KeyEmpty
        else if HasPrefix trimmed ''-----BEGIN'' then Inl KeyPrivate
        else (case Fields trimmed of
            typ # b64 # _ \<Rightarrow>
              if typ \<notin> set allowedKeyTypes then Inl (KeyType typ)
              else (case StdDecode b64 of
                  None \<Rightarrow> Inl KeyBase64
                | Some blob \<Rightarrow>
                    (case checkKeyBlob typ blob of
                       Inl e \<Rightarrow> Inl e
                     | Inr _ \<Rightarrow> Inr (typ @ '' '' @ b64, ''SHA256:'' @ fingerprintSHA256 blob)))
          | _ \<Rightarrow> Inl KeyFields)))"

definition FingerprintOf :: "string \<Rightarrow> (key_error, string) result" where
  "FingerprintOf key = (case ValidatePublicKey key of Inl e \<Rightarrow> Inl e | Inr (_, fp) \<Rightarrow> Inr fp)"

text \<open>The regular expression \<open>^SHA256:[A-Za-z0-9+/]{43}$\<close>.\<close>

definition ValidFingerprint :: "string \<Rightarrow> bool" where
  "ValidFingerprint fp =
     (HasPrefix fp ''SHA256:'' \<and> length fp = 50 \<and> list_all (\<lambda>c. c \<in> set std_alphabet) (drop 7 fp))"

section \<open>Key pairs\<close>

record KeyPair =
  kp_PublicKey :: string
  kp_PrivatePEM :: string

text \<open>
  \<open>GenerateEd25519KeyPair\<close> around \<open>ssh-keygen\<close>, which is a parameter: the two files it leaves
  in the protected directory, or an error of any of the steps.
\<close>

definition GenerateEd25519KeyPair ::
    "(string \<Rightarrow> (ioerr, string \<times> string) result) \<Rightarrow> string \<Rightarrow> (ioerr, KeyPair) result" where
  "GenerateEd25519KeyPair keygen comment =
     (case keygen comment of
        Inl e \<Rightarrow> Inl e
      | Inr (private, public) \<Rightarrow> Inr \<lparr>kp_PublicKey = TrimSpace public, kp_PrivatePEM = private\<rparr>)"

section \<open>Reading and writing fields\<close>

definition put_uint32 :: "nat \<Rightarrow> bytes" where
  "put_uint32 n = [char_of (n div 16777216), char_of (n div 65536), char_of (n div 256), char_of n]"

definition put_field :: "bytes \<Rightarrow> bytes" where
  "put_field b = put_uint32 (length b) @ b"

lemma of_char_char_of: "of_char (char_of n :: char) = (n mod 256 :: nat)"
  by (simp add: of_char_mod_256)

lemma length_put_uint32 [simp]: "length (put_uint32 n) = 4"
  by (simp add: put_uint32_def)

lemma be_put_uint32:
  assumes "n < 2 ^ 32"
  shows "unat (be_uint32 (put_uint32 n @ b)) = n"
proof -
  have n: "n < 4294967296" using assms by simp
  have d: "n div 65536 = 256 * (n div 16777216) + n div 65536 mod 256"
    "n div 256 = 256 * (n div 65536) + n div 256 mod 256" "n = 256 * (n div 256) + n mod 256"
    by (simp_all add: div_mult2_eq [of n 65536 256, simplified] div_mult2_eq [of n 256 256, simplified])
  have top: "n div 16777216 mod 256 = n div 16777216" using n by simp
  have "(n div 16777216 mod 256) * 16777216 + (n div 65536 mod 256) * 65536
      + (n div 256 mod 256) * 256 + n mod 256 = n"
    unfolding top using d by linarith
  then show ?thesis using assms
    by (simp add: be_uint32_def put_uint32_def of_char_char_of nth_Cons' unat_of_nat take_bit_nat_eq_self)
qed

lemma readWireBytes_put:
  assumes "length b < 2 ^ 32 - 4"
  shows "readWireBytes (put_field b @ rest) = Inr (b, rest)"
proof -
  have n: "unat (be_uint32 (put_field b @ rest)) = length b"
    using be_put_uint32 [of "length b" "b @ rest"] assms by (simp add: put_field_def)
  have hi: "unat (4 + be_uint32 (put_field b @ rest)) = 4 + length b"
    using n assms by (simp add: unat_word_ariths)
  show ?thesis
    using n hi by (simp add: readWireBytes_def Let_def put_field_def)
qed

text \<open>A field is a part of the blob: on any buffer the 32-bit bound cannot wrap, so no slice panics.\<close>

lemma readWireBytes_split:
  assumes "length b < 2 ^ 32"
  shows "case readWireBytes b of Inl e \<Rightarrow> e = Truncated
    | Inr (f, rest) \<Rightarrow> b = take 4 b @ f @ rest \<and> length f = unat (be_uint32 b)"
proof (cases "4 \<le> length b \<and> unat (be_uint32 b) \<le> length b - 4")
  case True
  then have "4 + unat (be_uint32 b) < 4294967296" using assms by simp linarith
  then have hi: "unat (4 + be_uint32 b) = 4 + unat (be_uint32 b)" by (simp add: unat_word_ariths)
  have "b = take 4 b @ take (unat (be_uint32 b)) (drop 4 b) @ drop (4 + unat (be_uint32 b)) b"
    by (metis append_take_drop_id drop_drop add.commute)
  then show ?thesis using True hi by (simp add: readWireBytes_def Let_def min_def)
next
  case False
  then show ?thesis by (auto simp: readWireBytes_def Let_def)
qed

section \<open>Text of keys\<close>

lemma those_all: "those xs = Some ys \<Longrightarrow> x \<in> set xs \<Longrightarrow> x \<noteq> None"
  by (induction xs arbitrary: ys) (auto split: option.splits)

lemma index_of_in: "index_of al c = Some i \<Longrightarrow> c \<in> set al"
  by (induction al arbitrary: i) (auto split: if_splits)

lemma quantum_chars: "quantum al cs n = Some x \<Longrightarrow> set cs \<subseteq> set al"
proof
  fix c assume q: "quantum al cs n = Some x" and c: "c \<in> set cs"
  from q obtain ds where "those (map (index_of al) cs) = Some ds" by (auto simp: quantum_def split: option.splits)
  then have "index_of al c \<noteq> None" using those_all c by fastforce
  then show "c \<in> set al" using index_of_in by auto
qed

lemma b64_quanta_chars: "b64_quanta al padded s = Some x \<Longrightarrow> set s \<subseteq> set al \<union> {CHR ''=''}"
proof (induction al padded s arbitrary: x rule: b64_quanta.induct)
  case (2 al padded a b c d rest)
  then show ?case by (auto split: if_splits option.splits dest!: quantum_chars)
qed (auto split: if_splits dest!: quantum_chars)

lemma StdDecode_plain:
  assumes "StdDecode s = Some x" "CHR 0x0A \<notin> set s" "CHR 0x0D \<notin> set s"
  shows "list_all plain_char s"
proof -
  have "filter (\<lambda>c. c \<noteq> CHR 0x0A \<and> c \<noteq> CHR 0x0D) s = s" using assms(2,3) by (auto intro!: filter_True)
  then have sub: "set s \<subseteq> set std_alphabet \<union> {CHR ''=''}"
    using assms(1) b64_quanta_chars [of std_alphabet True s x] by (simp add: StdDecode_def b64_decode_def)
  have "list_all plain_char (CHR ''='' # std_alphabet)"
    by (simp add: plain_char_def std_alphabet_def IsSpace_def)
  then show ?thesis using sub by (auto simp: list_all_iff)
qed

lemma allowedKeyTypes_plain: "typ \<in> set allowedKeyTypes \<Longrightarrow> list_all plain_char typ \<and> typ \<noteq> []
    \<and> \<not> HasPrefix (typ @ t) ''-----BEGIN''"
  by (auto simp: allowedKeyTypes_def plain_char_def IsSpace_def)

lemma TrimSpace_two:
  assumes "list_all plain_char a" "list_all plain_char b" "a \<noteq> []" "b \<noteq> []"
  shows "TrimSpace (a @ '' '' @ b) = a @ '' '' @ b"
proof -
  let ?r = "\<lambda>s. map (\<lambda>c. (of_char c :: nat, [c])) s"
  have runes: "runes (a @ '' '' @ b) = ?r a @ (32, '' '') # ?r b"
    using runes_ascii_append [OF plain_ascii [OF assms(1)], of "'' '' @ b"]
      runes_ascii [OF plain_ascii [OF assms(2)]] by (simp add: DecodeRune_ascii)
  obtain x a' where a: "a = x # a'" using assms(3) by (cases a) auto
  obtain y b' where b: "b = b' @ [y]" using assms(4) by (cases b rule: rev_cases) auto
  have xy: "\<not> IsSpace (of_char x)" "\<not> IsSpace (of_char y)" using assms(1,2) a b by (simp_all add: plain_char_def)
  have l: "dropWhile (\<lambda>p. IsSpace (fst p)) (runes (a @ '' '' @ b)) = runes (a @ '' '' @ b)"
    unfolding runes using xy(1) a by simp
  have r: "dropWhile (\<lambda>p. IsSpace (fst p)) (rev (runes (a @ '' '' @ b))) = rev (runes (a @ '' '' @ b))"
    unfolding runes using xy(2) b by simp
  show ?thesis unfolding TrimSpace_def l r by (simp only: rev_rev_ident concat_runes)
qed

text \<open>A key line with a comment behind it: the comment has no effect on the first two fields.\<close>

lemma TrimSpace_comment:
  assumes "list_all plain_char a" "list_all plain_char b" "a \<noteq> []" "b \<noteq> []"
  obtains "TrimSpace (a @ '' '' @ b @ '' '' @ t) = a @ '' '' @ b"
  | t' where "TrimSpace (a @ '' '' @ b @ '' '' @ t) = a @ '' '' @ b @ '' '' @ t'"
proof -
  let ?r = "\<lambda>s. map (\<lambda>c. (of_char c :: nat, [c])) s"
  let ?sp = "\<lambda>p :: nat \<times> string. IsSpace (fst p)"
  let ?line = "a @ '' '' @ b @ '' '' @ t"
  have concat_r: "concat (map snd (?r u)) = u" for u by (induction u) auto
  have tail: "runes ('' '' @ t) = (32, '' '') # runes t" by (simp add: DecodeRune_ascii)
  have runes: "runes ?line = (?r a @ (32, '' '') # ?r b) @ (32, '' '') # runes t"
    using runes_ascii_append [OF plain_ascii [OF assms(1)], of "'' '' @ b @ '' '' @ t"]
      runes_ascii_append [OF plain_ascii [OF assms(2)], of "'' '' @ t"] tail by (simp add: DecodeRune_ascii)
  obtain x a' where a: "a = x # a'" using assms(3) by (cases a) auto
  obtain y b' where b: "b = b' @ [y]" using assms(4) by (cases b rule: rev_cases) auto
  have xy: "\<not> IsSpace (of_char x)" "\<not> IsSpace (of_char y)" using assms(1,2) a b by (simp_all add: plain_char_def)
  have l: "dropWhile ?sp (runes ?line) = runes ?line" unfolding runes using xy(1) a by simp
  have trim: "TrimSpace ?line = concat (map snd (rev (dropWhile ?sp (rev (runes ?line)))))"
    unfolding TrimSpace_def l ..
  have rev: "rev (runes ?line) = (rev (runes t) @ [(32, '' '')]) @ rev (?r a @ (32, '' '') # ?r b)"
    unfolding runes by simp
  have stop: "dropWhile ?sp (rev (?r a @ (32, '' '') # ?r b)) = rev (?r a @ (32, '' '') # ?r b)"
    using xy(2) b by simp
  show thesis
  proof (cases "\<forall>p \<in> set (runes t). ?sp p")
    case True
    then have "dropWhile ?sp (rev (runes ?line)) = rev (?r a @ (32, '' '') # ?r b)"
      unfolding rev using stop by (subst dropWhile_append2) (auto simp: IsSpace_def)
    then show thesis using that(1) trim concat_r by simp
  next
    case False
    then obtain p where p: "p \<in> set (rev (runes t))" "\<not> ?sp p" by auto
    have "dropWhile ?sp (rev (runes ?line))
        = dropWhile ?sp (rev (runes t)) @ [(32, '' '')] @ rev (?r a @ (32, '' '') # ?r b)"
      unfolding rev append_assoc using dropWhile_append1 [where P = ?sp, OF p] by simp
    then show thesis using that(2) trim concat_r by simp
  qed
qed

lemma Fields_comment:
  assumes "list_all plain_char a" "list_all plain_char b" "a \<noteq> []" "b \<noteq> []"
  shows "Fields (a @ '' '' @ b @ '' '' @ t) = a # b # Fields t"
proof -
  have "runes (a @ '' '' @ b @ '' '' @ t) = map (\<lambda>c. (of_char c, [c])) a @ (32, '' '')
      # map (\<lambda>c. (of_char c, [c])) b @ (32, '' '') # runes t"
    using runes_ascii_append [OF plain_ascii [OF assms(1)], of "'' '' @ b @ '' '' @ t"]
      runes_ascii_append [OF plain_ascii [OF assms(2)], of "'' '' @ t"] by (simp add: DecodeRune_ascii)
  then show ?thesis using assms by (simp add: Fields_def fields_plain IsSpace_def)
qed

lemma Fields_chars: "f \<in> set (Fields s) \<Longrightarrow> set f \<subseteq> set s"
proof -
  have g: "f \<in> set (fields_runes acc rs) \<Longrightarrow> set f \<subseteq> set acc \<union> set (concat (map snd rs))" for acc rs
    by (induction acc rs rule: fields_runes.induct) (auto split: if_splits)
  assume "f \<in> set (Fields s)"
  then show ?thesis using g [of "[]" "runes s"] concat_runes [of s] by (simp add: Fields_def del: set_concat)
qed

lemma TrimSpace_chars: "set (TrimSpace s) \<subseteq> set s"
proof -
  have "set (TrimSpace s) \<subseteq> set (concat (map snd (runes s)))"
    unfolding TrimSpace_def set_concat set_map by (auto dest!: set_dropWhileD)
  then show ?thesis by (simp del: set_concat)
qed

lemma ValidatePublicKey_shape:
  assumes "ValidatePublicKey key = Inr (c, fp)"
  obtains ty b64 blob where "c = ty @ '' '' @ b64" "ty \<in> set allowedKeyTypes" "list_all plain_char b64" "b64 \<noteq> []"
    "StdDecode b64 = Some blob" "checkKeyBlob ty blob = Inr ()" "fp = ''SHA256:'' @ fingerprintSHA256 blob"
proof -
  from assms obtain ty b64 rest blob where k: "CHR 0x0A \<notin> set key" "CHR 0x0D \<notin> set key"
      "Fields (TrimSpace key) = ty # b64 # rest" "ty \<in> set allowedKeyTypes" "StdDecode b64 = Some blob"
      "checkKeyBlob ty blob = Inr ()" "c = ty @ '' '' @ b64" "fp = ''SHA256:'' @ fingerprintSHA256 blob"
    by (auto simp: ValidatePublicKey_def Let_def split: if_splits list.splits option.splits sum.splits)
  have "set b64 \<subseteq> set key" using Fields_chars [of b64 "TrimSpace key"] TrimSpace_chars [of key] k(3) by auto
  then have "list_all plain_char b64" using StdDecode_plain [OF k(5)] k(1,2) by blast
  moreover have "b64 \<noteq> []" using Fields_nonempty [of b64 "TrimSpace key"] k(3) by simp
  ultimately show thesis using that k by blast
qed

lemma ValidatePublicKey_canonical:
  assumes "ty \<in> set allowedKeyTypes" "list_all plain_char b64" "b64 \<noteq> []" "StdDecode b64 = Some blob"
    "checkKeyBlob ty blob = Inr ()"
  shows "ValidatePublicKey (ty @ '' '' @ b64) = Inr (ty @ '' '' @ b64, ''SHA256:'' @ fingerprintSHA256 blob)"
proof -
  have t: "list_all plain_char ty" "ty \<noteq> []" "\<not> HasPrefix (ty @ '' '' @ b64) ''-----BEGIN''"
    using allowedKeyTypes_plain [OF assms(1)] by simp_all
  have nl: "\<not> plain_char (CHR 0x0A)" "\<not> plain_char (CHR 0x0D)" by (simp_all add: plain_char_def IsSpace_def)
  have "CHR 0x0A \<notin> set (ty @ '' '' @ b64)" "CHR 0x0D \<notin> set (ty @ '' '' @ b64)"
    using t(1) assms(2) nl by (auto simp: list_all_iff)
  then show ?thesis
    using TrimSpace_two [OF t(1) assms(2) t(2) assms(3)] Fields_two [OF t(1) assms(2) t(2) assms(3)] t assms
    unfolding ValidatePublicKey_def Let_def by simp
qed

text \<open>A line that is refused for its blob, with and without a comment.\<close>

lemma ValidatePublicKey_bad_blob:
  assumes "ty \<in> set allowedKeyTypes" "list_all plain_char b64" "b64 \<noteq> []" "StdDecode b64 = Some blob"
    "checkKeyBlob ty blob = Inl e" "CHR 0x0A \<notin> set comment" "CHR 0x0D \<notin> set comment"
  shows "ValidatePublicKey (ty @ '' '' @ b64) = Inl e" "ValidatePublicKey (ty @ '' '' @ b64 @ '' '' @ comment) = Inl e"
proof -
  have t: "list_all plain_char ty" "ty \<noteq> []" "\<not> HasPrefix (ty @ u) ''-----BEGIN''" for u
    using allowedKeyTypes_plain [OF assms(1)] by simp_all
  have nl: "\<not> plain_char (CHR 0x0A)" "\<not> plain_char (CHR 0x0D)" by (simp_all add: plain_char_def IsSpace_def)
  have "CHR 0x0A \<notin> set (ty @ '' '' @ b64)" "CHR 0x0D \<notin> set (ty @ '' '' @ b64)"
    using t(1) assms(2) nl by (auto simp: list_all_iff)
  moreover note two = Fields_two [OF t(1) assms(2) t(2) assms(3)]
  ultimately show "ValidatePublicKey (ty @ '' '' @ b64) = Inl e"
    using TrimSpace_two [OF t(1) assms(2) t(2) assms(3)] t assms unfolding ValidatePublicKey_def Let_def by simp
  have nl: "CHR 0x0A \<notin> set (ty @ '' '' @ b64 @ '' '' @ comment)" "CHR 0x0D \<notin> set (ty @ '' '' @ b64 @ '' '' @ comment)"
    using t(1) assms(2,6,7) nl by (auto simp: list_all_iff)
  show "ValidatePublicKey (ty @ '' '' @ b64 @ '' '' @ comment) = Inl e"
    by (rule TrimSpace_comment [OF t(1) assms(2) t(2) assms(3), of comment])
      (use nl two Fields_comment [OF t(1) assms(2) t(2) assms(3)] t assms in
        \<open>simp_all add: ValidatePublicKey_def Let_def del: append_assoc\<close>)
qed

section \<open>Fingerprints\<close>

lemma StdEncode_32:
  assumes "length b = 32"
  shows "\<exists>s. StdEncode b = s @ ''='' \<and> length s = 43 \<and> set s \<subseteq> set std_alphabet"
proof -
  have c: "enc_char std_alphabet n \<in> set std_alphabet" for n
    using std_alphabet_good by (auto simp: enc_char_def good_alphabet_def)
  have "3 * k + 2 = length b \<Longrightarrow> \<exists>s. b64_encode std_alphabet True b = s @ ''='' \<and> length s = 4 * k + 3
      \<and> set s \<subseteq> set std_alphabet" for k and b :: bytes
  proof (induction k arbitrary: b)
    case 0
    then obtain x y where "b = [x, y]" by (cases b; cases "tl b") auto
    then show ?case using c
      by (intro exI [of _ "butlast (b64_encode std_alphabet True b)"]) (simp add: Let_def butlast_append)
  next
    case (Suc k)
    then obtain x y z b' where b: "b = x # y # z # b'" "3 * k + 2 = length b'"
      by (cases b; cases "tl b"; cases "tl (tl b)") auto
    then obtain s where s: "b64_encode std_alphabet True b' = s @ ''=''" "length s = 4 * k + 3" "set s \<subseteq> set std_alphabet"
      using Suc.IH by blast
    then show ?case using b c
      by (intro exI [of _ "butlast (b64_encode std_alphabet True b)"]) (simp add: Let_def butlast_append)
  qed
  from this [of 10 b] show ?thesis using assms by (simp add: StdEncode_def)
qed

lemma fingerprint_shape: "ValidFingerprint (''SHA256:'' @ fingerprintSHA256 blob)"
proof -
  obtain s where s: "StdEncode (Sum256 blob) = s @ ''=''" "length s = 43" "set s \<subseteq> set std_alphabet"
    using StdEncode_32 [of "Sum256 blob"] sha256.digest_length by blast
  have "CHR ''='' \<notin> set s" using s(3) std_alphabet_good by (auto simp: good_alphabet_def)
  then have "fingerprintSHA256 blob = s"
    using s(1,2) TrimRightByte_id [of s "CHR ''=''"] unfolding fingerprintSHA256_def
    by (simp add: TrimRightByte_def) (metis last_in_set list.size(3) zero_neq_numeral)
  then show ?thesis using s by (auto simp: ValidFingerprint_def list_all_iff)
qed

text \<open>The wire form of an ed25519 key, and the text of a key.\<close>

definition ed25519_blob :: "bytes \<Rightarrow> bytes" where
  "ed25519_blob k = put_field ''ssh-ed25519'' @ put_field k"

lemma checkKeyBlob_ed25519:
  "length k = 32 \<Longrightarrow> checkKeyBlob ''ssh-ed25519'' (ed25519_blob k) = Inr ()"
  using readWireBytes_put [of "''ssh-ed25519''" "put_field k"] readWireBytes_put [of k "[]"]
  by (simp add: checkKeyBlob_def ed25519_blob_def wire_field_def)

text \<open>
  The wire form of a hardware-backed ed25519 key: type, key and the application the key is bound to
  (\<open>ssh:\<close> unless the owner chose another).
\<close>

definition sk_ed25519_blob :: "bytes \<Rightarrow> bytes \<Rightarrow> bytes" where
  "sk_ed25519_blob k app = put_field ''sk-ssh-ed25519@openssh.com'' @ put_field k @ put_field app"

lemma checkKeyBlob_sk_ed25519:
  assumes "length k = 32"
  shows "checkKeyBlob ''sk-ssh-ed25519@openssh.com'' (sk_ed25519_blob k app) = Inl KeyEd25519"
proof -
  have "put_field app \<noteq> []" by (simp add: put_field_def put_uint32_def)
  then show ?thesis
    using readWireBytes_put [of "''sk-ssh-ed25519@openssh.com''" "put_field k @ put_field app"]
      readWireBytes_put [of k "put_field app"] assms
    by (simp add: checkKeyBlob_def sk_ed25519_blob_def wire_field_def)
qed

lemma StdEncode_text: "list_all plain_char (StdEncode b)" "StdEncode b = [] \<Longrightarrow> b = []"
proof -
  have dec: "StdDecode (StdEncode b) = Some b" by (rule std64.dec_enc)
  have "CHR 0x0A \<notin> set (StdEncode b)" "CHR 0x0D \<notin> set (StdEncode b)"
    by (rule std64.enc_avoids, simp add: std_alphabet_def)+
  then show "list_all plain_char (StdEncode b)" using StdDecode_plain [OF dec] by simp
  show "b = []" if "StdEncode b = []" using dec that by (simp add: StdDecode_def b64_decode_def)
qed

section \<open>Properties\<close>

text \<open>
  Reading a wire field is exact. On a buffer shorter than 4 GiB the field that is read
  and the rest are consecutive parts of the buffer behind the four length bytes, the field
  has the length they say, and the 32-bit slice bound never wraps into a panic; a buffer
  that does not hold the field is refused. A field that was written is read back.
\<close>

theorem readWireBytes_exact:
  assumes "length b < 2 ^ 32"
  shows "(case readWireBytes b of
      Inl e \<Rightarrow> e = Truncated \<and> (length b < 4 \<or> length b - 4 < unat (be_uint32 b))
    | Inr (f, rest) \<Rightarrow> b = take 4 b @ f @ rest \<and> length f = unat (be_uint32 b) \<and> 4 \<le> length b)
    \<and> (length b < 2 ^ 32 - 4 \<longrightarrow> readWireBytes (put_field b @ rest') = Inr (b, rest'))"
proof
  show "case readWireBytes b of
      Inl e \<Rightarrow> e = Truncated \<and> (length b < 4 \<or> length b - 4 < unat (be_uint32 b))
    | Inr (f, rest) \<Rightarrow> b = take 4 b @ f @ rest \<and> length f = unat (be_uint32 b) \<and> 4 \<le> length b"
    using readWireBytes_split [OF assms]
    by (auto simp: readWireBytes_def Let_def split: if_splits)
qed (use readWireBytes_put in blast)

theorem readWireBytes_exact_witness:
  "readWireBytes (put_field ''abc'' @ ''xy'') = Inr (''abc'', ''xy'')"
  using readWireBytes_exact [of "''abc''" "''xy''"] by simp

text \<open>
  Validation is canonical. A key that is accepted is rendered as one line of an allowed
  type and its base64 text without a comment; that form is accepted again, unchanged and with the
  same fingerprint, and the fingerprint has the canonical shape by which keys are addressed.
\<close>

theorem ValidatePublicKey_idempotent:
  assumes "ValidatePublicKey key = Inr (c, fp)"
  shows "ValidatePublicKey c = Inr (c, fp) \<and> ValidFingerprint fp
    \<and> (\<exists>ty b64. c = ty @ '' '' @ b64 \<and> ty \<in> set allowedKeyTypes \<and> list_all plain_char b64)"
proof -
  obtain ty b64 blob where k: "c = ty @ '' '' @ b64" "ty \<in> set allowedKeyTypes" "list_all plain_char b64" "b64 \<noteq> []"
      "StdDecode b64 = Some blob" "checkKeyBlob ty blob = Inr ()" "fp = ''SHA256:'' @ fingerprintSHA256 blob"
    by (rule ValidatePublicKey_shape [OF assms])
  then show ?thesis
    using ValidatePublicKey_canonical [OF k(2-6)] fingerprint_shape by auto
qed

definition demo_blob :: bytes where
  "demo_blob = ed25519_blob (replicate 32 CHR ''k'')"

lemma demo_key_valid:
  "ValidatePublicKey (''ssh-ed25519 '' @ StdEncode demo_blob)
     = Inr (''ssh-ed25519 '' @ StdEncode demo_blob, ''SHA256:'' @ fingerprintSHA256 demo_blob)"
proof -
  have "StdEncode demo_blob \<noteq> []" "list_all plain_char (StdEncode demo_blob)" by code_simp+
  moreover have "checkKeyBlob ''ssh-ed25519'' demo_blob = Inr ()"
    unfolding demo_blob_def by (rule checkKeyBlob_ed25519) simp
  moreover have "''ssh-ed25519'' \<in> set allowedKeyTypes" by (simp add: allowedKeyTypes_def)
  ultimately show ?thesis
    using ValidatePublicKey_canonical [of "''ssh-ed25519''" "StdEncode demo_blob" demo_blob]
    by (simp add: std64.dec_enc)
qed

theorem ValidatePublicKey_idempotent_witness:
  "ValidFingerprint (''SHA256:'' @ fingerprintSHA256 demo_blob)"
  using ValidatePublicKey_idempotent [OF demo_key_valid] by blast

text \<open>
  C35: every ed25519 public key is accepted: the text of a blob with the type and a 32-byte
  key gives its own text as canonical form and the SHA-256 fingerprint of the blob. A
  hardware-backed ed25519 key is never accepted, although its type is in the list of allowed types: the line of every
  such key, with or without a comment, is refused as a malformed ed25519 key, because
  its blob goes on with the application field, which the length check does not expect.
\<close>

theorem ed25519_keys:
  assumes "length k = 32" "CHR 0x0A \<notin> set comment" "CHR 0x0D \<notin> set comment"
  shows "ValidatePublicKey (''ssh-ed25519 '' @ StdEncode (ed25519_blob k))
      = Inr (''ssh-ed25519 '' @ StdEncode (ed25519_blob k), ''SHA256:'' @ fingerprintSHA256 (ed25519_blob k))
    \<and> ''sk-ssh-ed25519@openssh.com'' \<in> set allowedKeyTypes
    \<and> ValidatePublicKey (''sk-ssh-ed25519@openssh.com '' @ StdEncode (sk_ed25519_blob k app)) = Inl KeyEd25519
    \<and> ValidatePublicKey (''sk-ssh-ed25519@openssh.com '' @ StdEncode (sk_ed25519_blob k app) @ '' '' @ comment) = Inl KeyEd25519"
proof -
  let ?b = "StdEncode (ed25519_blob k)" and ?sk = "StdEncode (sk_ed25519_blob k app)"
  have types: "''ssh-ed25519'' \<in> set allowedKeyTypes" "''sk-ssh-ed25519@openssh.com'' \<in> set allowedKeyTypes"
    by (simp_all add: allowedKeyTypes_def)
  have ne: "?b \<noteq> []" "?sk \<noteq> []"
    using StdEncode_text(2) by (auto simp: ed25519_blob_def sk_ed25519_blob_def put_field_def put_uint32_def)
  show ?thesis
    using ValidatePublicKey_canonical [OF types(1) StdEncode_text(1) ne(1) std64.dec_enc checkKeyBlob_ed25519 [OF assms(1)]]
      ValidatePublicKey_bad_blob [OF types(2) StdEncode_text(1) ne(2) std64.dec_enc checkKeyBlob_sk_ed25519 [OF assms(1)] assms(2,3)]
      types(2)
    by simp
qed

theorem ed25519_keys_witness:
  "ValidatePublicKey (''sk-ssh-ed25519@openssh.com ''
      @ StdEncode (sk_ed25519_blob (replicate 32 CHR ''k'') ''ssh:'') @ '' yubikey'') = Inl KeyEd25519"
  using ed25519_keys [of "replicate 32 CHR ''k''" "''yubikey''" "''ssh:''"] by simp

end
