(* ===== verification/Admin_Store.thy ===== *)
theory Admin_Store
  imports Admin_Validate Shared_Config
begin

text \<open>
  The package \<open>internal/sftpadmin\<close>, file \<open>store.go\<close>: the user manifest \<open>users.json\<close> that the
  admin service and the SFTP reconciler share, its validation, the atomic update of the
  file by a mutation, the repair of invalid keys, and the sidecar file of key notes. A Go
  \<open>nil\<close> slice is the empty list; a \<open>nil\<close> map of notes is \<^const>\<open>None\<close>.
\<close>

section \<open>Data\<close>

definition ManifestVersion :: int where
  "ManifestVersion = 1"

record User =
  us_Username :: string
  us_Enabled :: bool
  us_Keys :: "string list"

record Manifest =
  mf_Version :: int
  mf_Users :: "User list"

datatype admin_error =
    AIO ioerr
  | ASyntax
  | AVersion int
  | AUsername username_error
  | ADuplicate string
  | AKey string key_error
  | AInvalid admin_error
  | AUserExists
  | ANoSuchUser
  | ANoSuchKey
  | ADeleteEnabled
  | ANilMap

section \<open>Validation\<close>

fun first_bad_key :: "string list \<Rightarrow> key_error option" where
  "first_bad_key [] = None"
| "first_bad_key (k # ks) = (case ValidatePublicKey k of Inl e \<Rightarrow> Some e | Inr _ \<Rightarrow> first_bad_key ks)"

fun validateUsers :: "bool \<Rightarrow> string list \<Rightarrow> User list \<Rightarrow> admin_error option" where
  "validateUsers strict seen [] = None"
| "validateUsers strict seen (u # us) =
     (case ValidateUsername (us_Username u) of
        Some e \<Rightarrow> Some (AUsername e)
      | None \<Rightarrow>
          if us_Username u \<in> set seen then Some (ADuplicate (us_Username u))
          else if \<not> strict then validateUsers strict (us_Username u # seen) us
          else (case first_bad_key (us_Keys u) of
                  Some e \<Rightarrow> Some (AKey (us_Username u) e)
                | None \<Rightarrow> validateUsers strict (us_Username u # seen) us))"

definition validateManifest :: "Manifest \<Rightarrow> bool \<Rightarrow> admin_error option" where
  "validateManifest m strict =
     (if mf_Version m \<noteq> ManifestVersion then Some (AVersion (mf_Version m))
      else validateUsers strict [] (mf_Users m))"

section \<open>The file\<close>

definition zero_user :: User where
  "zero_user = \<lparr>us_Username = [], us_Enabled = False, us_Keys = []\<rparr>"

definition dec_keys :: "json \<Rightarrow> User \<Rightarrow> User option" where
  "dec_keys j u = map_option (\<lambda>ks. u\<lparr>us_Keys := ks\<rparr>) (dec_slice dec_elem_string j)"

definition user_fields :: "User field list" where
  "user_fields =
     [(''username'', dec_string us_Username_update),
      (''enabled'', dec_bool us_Enabled_update),
      (''authorized_keys'', dec_keys)]"

definition dec_user :: "json \<Rightarrow> User option" where
  "dec_user j = decode_struct user_fields j zero_user"

definition dec_users :: "json \<Rightarrow> Manifest \<Rightarrow> Manifest option" where
  "dec_users j m = map_option (\<lambda>us. m\<lparr>mf_Users := us\<rparr>) (dec_slice dec_user j)"

definition manifest_fields :: "Manifest field list" where
  "manifest_fields = [(''version'', dec_int mf_Version_update), (''users'', dec_users)]"

definition manifest_decode :: "doc \<Rightarrow> Manifest option" where
  "manifest_decode d =
     (case d of Malformed \<Rightarrow> None
      | Doc j \<Rightarrow> decode_struct manifest_fields j \<lparr>mf_Version = 0, mf_Users = []\<rparr>)"

definition enc_user :: "User \<Rightarrow> json" where
  "enc_user u = JObj [(''username'', enc_string (us_Username u)), (''enabled'', JBool (us_Enabled u)),
     (''authorized_keys'', JArr (map enc_string (us_Keys u)))]"

definition manifest_encode :: "Manifest \<Rightarrow> doc" where
  "manifest_encode m = Doc (JObj [(''version'', JNum (FormatInt (mf_Version m))),
     (''users'', JArr (map enc_user (mf_Users m)))])"

definition manifest_loadLocked :: "io_env \<Rightarrow> cfs \<Rightarrow> string \<Rightarrow> (admin_error, Manifest) result" where
  "manifest_loadLocked io fs path =
     (case ReadFile io fs path of
        Inl e \<Rightarrow> if IsNotExist e then Inr \<lparr>mf_Version = ManifestVersion, mf_Users = []\<rparr> else Inl (AIO e)
      | Inr data \<Rightarrow>
          (case manifest_decode data of
             None \<Rightarrow> Inl ASyntax
           | Some m \<Rightarrow> (case validateManifest m False of Some e \<Rightarrow> Inl e | None \<Rightarrow> Inr m)))"

definition manifest_Load :: "io_env \<Rightarrow> cfs \<Rightarrow> string \<Rightarrow> (admin_error, Manifest) result" where
  "manifest_Load io fs path = manifest_loadLocked io fs path"

type_synonym admin_op = "cfs list \<times> admin_error option"

definition manifest_writeLocked :: "io_env \<Rightarrow> string \<Rightarrow> Manifest \<Rightarrow> cfs \<Rightarrow> admin_op" where
  "manifest_writeLocked io path m fs =
     (case write_private io path (manifest_encode m) fs of (tr, r) \<Rightarrow> (tr, map_option AIO r))"

section \<open>Updates\<close>

definition manifest_Update ::
    "io_env \<Rightarrow> string \<Rightarrow> (Manifest \<Rightarrow> (admin_error, Manifest) result) \<Rightarrow> cfs \<Rightarrow> admin_op" where
  "manifest_Update io path fn fs =
     (case manifest_loadLocked io fs path of
        Inl e \<Rightarrow> ([fs], Some e)
      | Inr m \<Rightarrow>
          (case fn m of
             Inl e \<Rightarrow> ([fs], Some e)
           | Inr m \<Rightarrow>
               (let m = m\<lparr>mf_Version := ManifestVersion\<rparr> in
                case validateManifest m True of
                  Some e \<Rightarrow> ([fs], Some (AInvalid e))
                | None \<Rightarrow> manifest_writeLocked io path m fs)))"

record RepairReport =
  rp_RemovedKeys :: nat
  rp_DisabledUsers :: "string list"

definition valid_key :: "string \<Rightarrow> bool" where
  "valid_key k = (case ValidatePublicKey k of Inl _ \<Rightarrow> False | Inr _ \<Rightarrow> True)"

text \<open>The loop of \<open>RemoveInvalidKeys\<close> over the users, with the report so far.\<close>

fun repairUsers :: "RepairReport \<Rightarrow> User list \<Rightarrow> RepairReport \<times> User list" where
  "repairUsers rep [] = (rep, [])"
| "repairUsers rep (u # us) =
     (let kept = filter valid_key (us_Keys u);
          rep = rep\<lparr>rp_RemovedKeys := rp_RemovedKeys rep + (length (us_Keys u) - length kept)\<rparr>
      in if length kept = length (us_Keys u)
         then (case repairUsers rep us of (r, us') \<Rightarrow> (r, u # us'))
         else if us_Keys u \<noteq> [] \<and> kept = []
         then (case repairUsers (rep\<lparr>rp_DisabledUsers := rp_DisabledUsers rep @ [us_Username u]\<rparr>) us of
                 (r, us') \<Rightarrow> (r, u\<lparr>us_Keys := kept, us_Enabled := False\<rparr> # us'))
         else (case repairUsers rep us of (r, us') \<Rightarrow> (r, u\<lparr>us_Keys := kept\<rparr> # us')))"

definition RemoveInvalidKeys :: "io_env \<Rightarrow> string \<Rightarrow> cfs \<Rightarrow> cfs list \<times> (admin_error, RepairReport) result" where
  "RemoveInvalidKeys io path fs =
     (case manifest_loadLocked io fs path of
        Inl e \<Rightarrow> ([fs], Inl e)
      | Inr m \<Rightarrow>
          (case repairUsers \<lparr>rp_RemovedKeys = 0, rp_DisabledUsers = []\<rparr> (mf_Users m) of
             (rep, us) \<Rightarrow>
               if rp_RemovedKeys rep = 0 then ([fs], Inr rep)
               else (let m = \<lparr>mf_Version = ManifestVersion, mf_Users = us\<rparr> in
                     case validateManifest m True of
                       Some e \<Rightarrow> ([fs], Inl (AInvalid e))
                     | None \<Rightarrow>
                         (case manifest_writeLocked io path m fs of
                            (tr, Some e) \<Rightarrow> (tr, Inl e)
                          | (tr, None) \<Rightarrow> (tr, Inr rep)))))"

section \<open>Key notes\<close>

definition MaxKeyNoteLength :: nat where
  "MaxKeyNoteLength = 120"

definition keyNoteID :: "string \<Rightarrow> string \<Rightarrow> string" where
  "keyNoteID username fp = username @ ''|'' @ fp"

definition notesPath :: "string \<Rightarrow> string" where
  "notesPath path = FJoin (Dir path) ''key-notes.json''"

type_synonym key_notes = "(string \<times> string) list option"

definition notes_decode :: "doc \<Rightarrow> key_notes option" where
  "notes_decode d =
     (case d of
        Malformed \<Rightarrow> None
      | Doc JNull \<Rightarrow> Some None
      | Doc (JObj ms) \<Rightarrow> map_option Some (dec_map_members dec_elem_string ms [])
      | Doc _ \<Rightarrow> None)"

definition notes_encode :: "key_notes \<Rightarrow> doc" where
  "notes_encode n =
     (case n of None \<Rightarrow> Doc JNull
      | Some al \<Rightarrow> Doc (JObj (map (\<lambda>(k, v). (fix_utf8 k, enc_string v)) (sort_key fst al))))"

definition loadNotesLocked :: "io_env \<Rightarrow> cfs \<Rightarrow> string \<Rightarrow> (admin_error, key_notes) result" where
  "loadNotesLocked io fs path =
     (case ReadFile io fs (notesPath path) of
        Inl e \<Rightarrow> if IsNotExist e then Inr (Some []) else Inl (AIO e)
      | Inr data \<Rightarrow> (case notes_decode data of None \<Rightarrow> Inl ASyntax | Some n \<Rightarrow> Inr n))"

definition LoadNotes :: "io_env \<Rightarrow> cfs \<Rightarrow> string \<Rightarrow> (admin_error, key_notes) result" where
  "LoadNotes io fs path = loadNotesLocked io fs path"

definition writeNotesLocked :: "io_env \<Rightarrow> string \<Rightarrow> key_notes \<Rightarrow> cfs \<Rightarrow> admin_op" where
  "writeNotesLocked io path n fs =
     (case write_private io (notesPath path) (notes_encode n) fs of (tr, r) \<Rightarrow> (tr, map_option AIO r))"

text \<open>An assignment to a \<open>nil\<close> map panics; a deletion from it does nothing.\<close>

definition SetNote :: "io_env \<Rightarrow> string \<Rightarrow> string \<Rightarrow> string \<Rightarrow> string \<Rightarrow> cfs \<Rightarrow> admin_op" where
  "SetNote io path username fp note fs =
     (case loadNotesLocked io fs path of
        Inl e \<Rightarrow> ([fs], Some e)
      | Inr n \<Rightarrow>
          if note = [] then writeNotesLocked io path (map_option (AList.delete (keyNoteID username fp)) n) fs
          else (case n of
                  None \<Rightarrow> ([fs], Some ANilMap)
                | Some al \<Rightarrow> writeNotesLocked io path (Some (AList.update (keyNoteID username fp) note al)) fs))"

definition DeleteNote :: "io_env \<Rightarrow> string \<Rightarrow> string \<Rightarrow> string \<Rightarrow> cfs \<Rightarrow> admin_op" where
  "DeleteNote io path username fp fs =
     (case loadNotesLocked io fs path of
        Inl e \<Rightarrow> ([fs], Some e)
      | Inr n \<Rightarrow>
          (case n of
             None \<Rightarrow> ([fs], None)
           | Some al \<Rightarrow>
               if map_of al (keyNoteID username fp) = None then ([fs], None)
               else writeNotesLocked io path (Some (AList.delete (keyNoteID username fp) al)) fs))"

definition PruneNotes :: "io_env \<Rightarrow> string \<Rightarrow> string list \<Rightarrow> cfs \<Rightarrow> admin_op" where
  "PruneNotes io path keep fs =
     (case loadNotesLocked io fs path of
        Inl e \<Rightarrow> ([fs], Some e)
      | Inr n \<Rightarrow>
          (case n of
             None \<Rightarrow> ([fs], None)
           | Some al \<Rightarrow>
               (let kept = filter (\<lambda>(i, v). i \<in> set keep) al in
                if length kept = length al then ([fs], None)
                else writeNotesLocked io path (Some kept) fs)))"

section \<open>Validation, exactly\<close>

lemma first_bad_key_None: "first_bad_key ks = None \<longleftrightarrow> list_all valid_key ks"
  by (induction ks) (auto simp: valid_key_def split: sum.splits)

lemma validateUsers_None:
  "validateUsers strict seen us = None \<longleftrightarrow>
     distinct (map us_Username us) \<and> set seen \<inter> set (map us_Username us) = {}
     \<and> list_all (\<lambda>u. ValidateUsername (us_Username u) = None) us
     \<and> (strict \<longrightarrow> list_all (\<lambda>u. list_all valid_key (us_Keys u)) us)"
proof (induction us arbitrary: seen strict)
  case (Cons u us)
  show ?case
    by (simp add: Cons.IH first_bad_key_None [symmetric] split: option.split) blast
qed simp

definition manifest_ok :: "bool \<Rightarrow> Manifest \<Rightarrow> bool" where
  "manifest_ok strict m \<longleftrightarrow> mf_Version m = 1 \<and> distinct (map us_Username (mf_Users m))
     \<and> list_all (\<lambda>u. ValidateUsername (us_Username u) = None) (mf_Users m)
     \<and> (strict \<longrightarrow> list_all (\<lambda>u. list_all valid_key (us_Keys u)) (mf_Users m))"

lemma validateManifest_None: "validateManifest m strict = None \<longleftrightarrow> manifest_ok strict m"
  by (auto simp: validateManifest_def manifest_ok_def validateUsers_None ManifestVersion_def)

section \<open>Round trips\<close>

lemma ValidateUsername_ascii: "ValidateUsername name = None \<Longrightarrow> valid_utf8 name"
  using usernamePattern_plain [of name] plain_ascii valid_utf8_ascii
  by (auto simp: ValidateUsername_def split: if_splits)

lemma canonical_key:
  assumes "ValidatePublicKey key = Inr (c, fp)"
  shows "ValidatePublicKey c = Inr (c, fp)" "valid_utf8 c" "valid_key c" "ValidFingerprint fp"
proof -
  obtain ty b64 blob where k: "c = ty @ '' '' @ b64" "ty \<in> set allowedKeyTypes" "list_all plain_char b64" "b64 \<noteq> []"
      "StdDecode b64 = Some blob" "checkKeyBlob ty blob = Inr ()" "fp = ''SHA256:'' @ fingerprintSHA256 blob"
    by (rule ValidatePublicKey_shape [OF assms])
  show c: "ValidatePublicKey c = Inr (c, fp)" using ValidatePublicKey_canonical [OF k(2-6)] k(1,7) by simp
  then show "valid_key c" by (simp add: valid_key_def)
  have "ascii ty" "ascii b64" using k(3) allowedKeyTypes_plain [OF k(2)] plain_ascii by blast+
  then have "ascii c" by (simp add: k(1))
  then show "valid_utf8 c" by (rule valid_utf8_ascii)
  show "ValidFingerprint fp" unfolding k(7) by (rule fingerprint_shape)
qed

definition keys_text :: "Manifest \<Rightarrow> bool" where
  "keys_text m \<longleftrightarrow> list_all (\<lambda>u. list_all (\<lambda>k. valid_utf8 k) (us_Keys u)) (mf_Users m)"

lemma dec_enc_user:
  assumes "valid_utf8 (us_Username u)" "list_all (\<lambda>k. valid_utf8 k) (us_Keys u)"
  shows "dec_user (enc_user u) = Some u"
proof -
  have "dec_elems dec_elem_string (map enc_string (us_Keys u)) = Some (us_Keys u)"
    using assms(2) by (intro dec_elems_map) (auto simp: dec_elem_string_def enc_string_def list_all_iff)
  then show ?thesis
    using assms(1)
    by (simp add: dec_user_def enc_user_def decode_struct_def user_fields_def find_field_def json_dec_defs
        dec_keys_def dec_slice_def enc_string_def zero_user_def)
qed

lemma manifest_decode_encode:
  assumes "manifest_ok s m" "keys_text m"
  shows "manifest_decode (manifest_encode m) = Some m"
proof -
  have "dec_elems dec_user (map enc_user (mf_Users m)) = Some (mf_Users m)"
    using assms dec_enc_user ValidateUsername_ascii
    by (intro dec_elems_map) (auto simp: manifest_ok_def keys_text_def list_all_iff)
  moreover have "ParseInt64 (FormatInt (mf_Version m)) = Some (mf_Version m)"
    using assms(1) by (intro ParseInt64_FormatInt) (simp_all add: manifest_ok_def)
  ultimately show ?thesis
    by (simp add: manifest_decode_def manifest_encode_def decode_struct_def manifest_fields_def find_field_def
        json_dec_defs dec_users_def dec_slice_def)
qed

section \<open>Reading and updating the manifest\<close>

lemma manifest_Load_cong:
  "ReadFile io st path = ReadFile io fs path \<Longrightarrow> manifest_Load io st path = manifest_Load io fs path"
  by (simp only: manifest_Load_def manifest_loadLocked_def)

lemma manifest_Load_new:
  assumes "ReadFile io st path = Inr (manifest_encode m)" "manifest_ok True m" "keys_text m"
  shows "manifest_Load io st path = Inr m"
proof -
  have "validateManifest m False = None" using assms(2) by (simp add: validateManifest_None manifest_ok_def)
  then show ?thesis
    using assms manifest_decode_encode [OF assms(2,3)] by (simp add: manifest_Load_def manifest_loadLocked_def)
qed

lemma manifest_writeLocked_result:
  "fst (manifest_writeLocked io path m fs) = fst (write_private io path (manifest_encode m) fs)"
  "snd (manifest_writeLocked io path m fs) = map_option AIO (snd (write_private io path (manifest_encode m) fs))"
  by (simp_all add: manifest_writeLocked_def split: prod.split)

text \<open>The result of one mutation, with the version the writer stamps on it.\<close>

definition stamped :: "Manifest \<Rightarrow> Manifest" where
  "stamped m = m\<lparr>mf_Version := 1\<rparr>"

lemma manifest_Update_cases:
  obtains (refused) e where "manifest_Update io path fn fs = ([fs], Some e)"
  | (written) m m' where "manifest_loadLocked io fs path = Inr m" "fn m = Inr m'" "manifest_ok True (stamped m')"
      "manifest_Update io path fn fs = manifest_writeLocked io path (stamped m') fs"
proof (cases "manifest_loadLocked io fs path")
  case (Inl e)
  then show ?thesis by (auto simp: manifest_Update_def intro: refused)
next
  case (Inr m)
  show ?thesis
  proof (cases "fn m")
    case (Inl e)
    then show ?thesis using Inr by (auto simp: manifest_Update_def intro: refused)
  next
    case m': (Inr m')
    show ?thesis
    proof (cases "validateManifest (stamped m') True")
      case None
      then have "manifest_Update io path fn fs = manifest_writeLocked io path (stamped m') fs"
        using Inr m' by (simp add: manifest_Update_def stamped_def ManifestVersion_def Let_def)
      then show ?thesis using written [OF Inr m'] None by (simp add: validateManifest_None)
    next
      case (Some e)
      then show ?thesis using refused [of "AInvalid e"] Inr m'
        by (simp add: manifest_Update_def stamped_def ManifestVersion_def Let_def)
    qed
  qed
qed

section \<open>Repair\<close>

definition repaired :: "User \<Rightarrow> User" where
  "repaired u =
     (let kept = filter valid_key (us_Keys u)
      in u\<lparr>us_Keys := kept, us_Enabled := us_Enabled u \<and> (kept = [] \<longrightarrow> us_Keys u = [])\<rparr>)"

definition lost_all :: "User \<Rightarrow> bool" where
  "lost_all u \<longleftrightarrow> us_Keys u \<noteq> [] \<and> filter valid_key (us_Keys u) = []"

lemma repaired_same: "list_all valid_key (us_Keys u) \<Longrightarrow> repaired u = u"
  by (simp add: repaired_def list_all_iff Let_def)

lemma repairUsers_exact:
  "repairUsers rep us =
     (\<lparr>rp_RemovedKeys = rp_RemovedKeys rep + (\<Sum>u\<leftarrow>us. length (filter (\<lambda>k. \<not> valid_key k) (us_Keys u))),
       rp_DisabledUsers = rp_DisabledUsers rep @ map us_Username (filter lost_all us)\<rparr>, map repaired us)"
proof (induction us arbitrary: rep)
  case (Cons u us)
  let ?bad = "filter (\<lambda>k. \<not> valid_key k) (us_Keys u)"
  have n: "length (us_Keys u) - length (filter valid_key (us_Keys u)) = length ?bad"
    using sum_length_filter_compl [of valid_key "us_Keys u"] by linarith
  have all: "length (filter valid_key (us_Keys u)) = length (us_Keys u) \<longleftrightarrow> list_all valid_key (us_Keys u)"
    by (metis filter_True length_filter_less less_irrefl list_all_iff)
  consider (fine) "list_all valid_key (us_Keys u)" "\<not> lost_all u" "?bad = []"
    | (lost) "\<not> list_all valid_key (us_Keys u)" "lost_all u" "filter valid_key (us_Keys u) = []" "us_Keys u \<noteq> []"
    | (some) "\<not> list_all valid_key (us_Keys u)" "\<not> lost_all u" "filter valid_key (us_Keys u) \<noteq> []"
    by (cases "us_Keys u") (auto simp: lost_all_def list_all_iff filter_empty_conv)
  then show ?case
  proof cases
    case fine
    then show ?thesis by (simp add: Let_def n all Cons.IH repaired_same)
  next
    case lost
    have "us_Keys u \<noteq> [] \<and> filter valid_key (us_Keys u) = []" using lost(3,4) by blast
    then have "repairUsers rep (u # us) =
        (case repairUsers (rep\<lparr>rp_RemovedKeys := rp_RemovedKeys rep + length ?bad,
            rp_DisabledUsers := rp_DisabledUsers rep @ [us_Username u]\<rparr>) us of
           (r, us') \<Rightarrow> (r, repaired u # us'))"
      using n by (auto simp add: Let_def repaired_def)
    then show ?thesis using lost(2) by (simp add: Cons.IH)
  next
    case some
    then have "repaired u = u\<lparr>us_Keys := filter valid_key (us_Keys u)\<rparr>" by (simp add: repaired_def Let_def)
    then show ?thesis using some by (simp add: Let_def n all Cons.IH)
  qed
qed simp

lemma repaired_ok:
  assumes "manifest_ok False m"
  shows "manifest_ok True \<lparr>mf_Version = 1, mf_Users = map repaired (mf_Users m)\<rparr>"
  using assms by (simp add: manifest_ok_def list_all_iff repaired_def Let_def comp_def)

lemma manifest_loadLocked_ok: "manifest_loadLocked io fs path = Inr m \<Longrightarrow> manifest_ok False m"
  by (auto simp: manifest_loadLocked_def validateManifest_None manifest_ok_def ManifestVersion_def
      split: sum.splits option.splits if_splits)

definition invalid_count :: "Manifest \<Rightarrow> nat" where
  "invalid_count m = (\<Sum>u\<leftarrow>mf_Users m. length (filter (\<lambda>k. \<not> valid_key k) (us_Keys u)))"

definition repair_report :: "Manifest \<Rightarrow> RepairReport" where
  "repair_report m = \<lparr>rp_RemovedKeys = invalid_count m, rp_DisabledUsers = map us_Username (filter lost_all (mf_Users m))\<rparr>"

definition repaired_manifest :: "Manifest \<Rightarrow> Manifest" where
  "repaired_manifest m = \<lparr>mf_Version = 1, mf_Users = map repaired (mf_Users m)\<rparr>"

lemma RemoveInvalidKeys_loaded:
  assumes "manifest_loadLocked io fs path = Inr m"
  shows "RemoveInvalidKeys io path fs =
    (if invalid_count m = 0 then ([fs], Inr (repair_report m))
     else (case manifest_writeLocked io path (repaired_manifest m) fs of
             (tr, Some e) \<Rightarrow> (tr, Inl e) | (tr, None) \<Rightarrow> (tr, Inr (repair_report m))))"
proof -
  have "validateManifest (repaired_manifest m) True = None"
    using repaired_ok [OF manifest_loadLocked_ok [OF assms]] by (simp add: validateManifest_None repaired_manifest_def)
  then show ?thesis
    by (simp add: RemoveInvalidKeys_def assms repairUsers_exact repair_report_def invalid_count_def
        repaired_manifest_def ManifestVersion_def)
qed

section \<open>Histories of the manifest\<close>

text \<open>
  The states of the control files that other processes can observe while the admin service
  updates and repairs its manifest, with any faults. A mutation keeps the texts writable.
\<close>

definition keeps_text :: "(Manifest \<Rightarrow> (admin_error, Manifest) result) \<Rightarrow> bool" where
  "keeps_text fn \<longleftrightarrow> (\<forall>m m'. keys_text m \<longrightarrow> fn m = Inr m' \<longrightarrow> keys_text m')"

inductive manifest_states :: "string \<Rightarrow> cfs \<Rightarrow> bool" for path where
  first_boot: "fs path = None \<Longrightarrow> manifest_states path fs"
| update: "manifest_states path fs \<Longrightarrow> keeps_text fn \<Longrightarrow> io_tmp io \<noteq> path
    \<Longrightarrow> st \<in> set (fst (manifest_Update io path fn fs)) \<Longrightarrow> manifest_states path st"
| repair: "manifest_states path fs \<Longrightarrow> io_tmp io \<noteq> path
    \<Longrightarrow> st \<in> set (fst (RemoveInvalidKeys io path fs)) \<Longrightarrow> manifest_states path st"
| elsewhere: "manifest_states path fs \<Longrightarrow> st path = fs path \<Longrightarrow> manifest_states path st"

definition strict_file :: "cfile option \<Rightarrow> bool" where
  "strict_file f \<longleftrightarrow> (case f of None \<Rightarrow> True
     | Some f \<Rightarrow> (\<exists>m. cf_doc f = manifest_encode m \<and> manifest_ok True m \<and> keys_text m))"

lemma strict_file_loaded:
  assumes "strict_file (fs path)" "manifest_loadLocked io fs path = Inr m"
  shows "manifest_ok True m \<and> keys_text m"
proof (cases "ReadFile io fs path")
  case (Inl e)
  then show ?thesis using assms(2)
    by (auto simp: manifest_loadLocked_def manifest_ok_def keys_text_def ManifestVersion_def split: if_splits)
next
  case (Inr d)
  then obtain f where "fs path = Some f" "cf_doc f = d" by (auto simp: ReadFile_def split: option.splits)
  then obtain m0 where "d = manifest_encode m0" "manifest_ok True m0" "keys_text m0"
    using assms(1) by (auto simp: strict_file_def)
  then show ?thesis using Inr assms(2) manifest_Load_new [of io fs path m0] by (simp add: manifest_Load_def)
qed

lemma write_strict:
  assumes "manifest_ok True m" "keys_text m" "io_tmp io \<noteq> path" "strict_file (fs path)"
    and "st \<in> set (fst (manifest_writeLocked io path m fs))"
  shows "strict_file (st path)"
  using private_file.observed [OF assms(3), of st "manifest_encode m" fs] assms
  by (auto simp: manifest_writeLocked_result strict_file_def)

lemma manifest_states_strict: "manifest_states path fs \<Longrightarrow> strict_file (fs path)"
proof (induction rule: manifest_states.induct)
  case (update fs fn io st)
  show ?case
  proof (cases rule: manifest_Update_cases [of io path fn fs])
    case (refused e)
    then show ?thesis using update by simp
  next
    case (written m m')
    then have "keys_text (stamped m')"
      using strict_file_loaded [of fs path, OF update.IH] update.hyps(2) by (auto simp: keeps_text_def stamped_def keys_text_def)
    then show ?thesis using write_strict written update by metis
  qed
next
  case (repair fs io st)
  show ?case
  proof (cases "manifest_loadLocked io fs path")
    case (Inl e)
    then show ?thesis using repair by (simp add: RemoveInvalidKeys_def)
  next
    case (Inr m)
    then have "manifest_ok True m" using strict_file_loaded [of fs path, OF repair.IH] by blast
    then have "invalid_count m = 0"
      by (auto simp: invalid_count_def manifest_ok_def list_all_iff filter_empty_conv)
    then show ?thesis using repair Inr by (simp add: RemoveInvalidKeys_loaded)
  qed
qed (simp_all add: strict_file_def)

section \<open>The notes as a map\<close>

lemma loadNotesLocked_distinct: "loadNotesLocked io fs path = Inr (Some al) \<Longrightarrow> distinct (keys_of al)"
  by (auto simp: loadNotesLocked_def notes_decode_def dest: dec_map_members_distinct
      split: sum.splits option.splits doc.splits json.splits if_splits)

definition notes_text :: "(string \<times> string) list \<Rightarrow> bool" where
  "notes_text al \<longleftrightarrow> list_all (\<lambda>(k, v). valid_utf8 k \<and> valid_utf8 v) al"

lemma notes_decode_encode:
  assumes "distinct (keys_of al)" "notes_text al"
  shows "notes_decode (notes_encode (Some al)) = Some (Some (sort_key fst al))"
proof -
  let ?al = "sort_key fst al"
  have fine: "fix_utf8 k = k" "dec_elem_string (enc_string v) = Some v" if "(k, v) \<in> set ?al" for k v
    using that assms(2) by (auto simp: notes_text_def list_all_iff dec_elem_string_def enc_string_def)
  have e: "map (\<lambda>(k, v). (fix_utf8 k, enc_string v)) ?al = map (\<lambda>(k, v). (k, enc_string v)) ?al"
    using fine(1) by (intro map_cong) auto
  have "dec_map_members dec_elem_string (map (\<lambda>(k, v). (k, enc_string v)) ?al) [] = Some ([] @ ?al)"
    by (rule dec_map_members_enc) (use fine(2) assms(1) distinct_sort_key_fst [of al] in auto)
  then show ?thesis by (simp add: notes_decode_def notes_encode_def e del: map_eq_conv)
qed

text \<open>What a note operation that writes leaves behind.\<close>

lemma writeNotesLocked_success:
  assumes "writeNotesLocked io path (Some al) fs = (tr, None)" "distinct (keys_of al)" "notes_text al"
    and "io_tmp io \<noteq> notesPath path" "io_read rio (notesPath path) = None"
  shows "loadNotesLocked rio (last tr) path = Inr (Some (sort_key fst al))"
proof -
  let ?w = "write_private io (notesPath path) (notes_encode (Some al)) fs"
  have w: "fst ?w = tr" "snd ?w = None" using assms(1) by (auto simp: writeNotesLocked_def split: prod.splits)
  then have "last tr = final ?w" by (simp add: final_def)
  then show ?thesis
    using private_file.read_after [OF assms(4) w(2) assms(5)] notes_decode_encode [OF assms(2,3)]
    by (simp add: loadNotesLocked_def)
qed

lemma writeNotesLocked_frame:
  assumes "p \<noteq> notesPath path" "p \<noteq> io_tmp io" "st \<in> set (fst (writeNotesLocked io path n fs))"
  shows "st p = fs p"
proof -
  have "fst (writeNotesLocked io path n fs) = fst (write_private io (notesPath path) (notes_encode n) fs)"
    by (simp add: writeNotesLocked_def split: prod.split)
  then show ?thesis using private_file.others [OF assms(1,2), of st "notes_encode n" fs] assms(3) by simp
qed

text \<open>The three operations on the notes, and the map they mean.\<close>

datatype note_op = NoteSet string string string | NoteDelete string string | NotePrune "string list"

fun run_note :: "note_op \<Rightarrow> io_env \<Rightarrow> string \<Rightarrow> cfs \<Rightarrow> admin_op" where
  "run_note (NoteSet u fp note) io path fs = SetNote io path u fp note fs"
| "run_note (NoteDelete u fp) io path fs = DeleteNote io path u fp fs"
| "run_note (NotePrune keep) io path fs = PruneNotes io path keep fs"

fun note_spec :: "note_op \<Rightarrow> (string \<rightharpoonup> string) \<Rightarrow> (string \<rightharpoonup> string)" where
  "note_spec (NoteSet u fp note) n = n(keyNoteID u fp := if note = [] then None else Some note)"
| "note_spec (NoteDelete u fp) n = n(keyNoteID u fp := None)"
| "note_spec (NotePrune keep) n = n |` set keep"

fun note_op_text :: "note_op \<Rightarrow> bool" where
  "note_op_text (NoteSet u fp note) \<longleftrightarrow> valid_utf8 (keyNoteID u fp) \<and> valid_utf8 note"
| "note_op_text (NoteDelete u fp) \<longleftrightarrow> True"
| "note_op_text (NotePrune keep) \<longleftrightarrow> True"

definition notes_map :: "(admin_error, key_notes) result \<Rightarrow> (string \<rightharpoonup> string)" where
  "notes_map r = (case r of Inr (Some al) \<Rightarrow> map_of al | _ \<Rightarrow> Map.empty)"

text \<open>The association list each operation computes.\<close>

fun note_impl :: "note_op \<Rightarrow> (string \<times> string) list \<Rightarrow> (string \<times> string) list" where
  "note_impl (NoteSet u fp note) al =
     (if note = [] then AList.delete (keyNoteID u fp) al else AList.update (keyNoteID u fp) note al)"
| "note_impl (NoteDelete u fp) al = AList.delete (keyNoteID u fp) al"
| "note_impl (NotePrune keep) al = filter (\<lambda>(i, v). i \<in> set keep) al"

lemma note_impl_spec:
  assumes "distinct (keys_of al)"
  shows "distinct (keys_of (note_impl c al))" "map_of (note_impl c al) = note_spec c (map_of al)"
proof -
  show "distinct (keys_of (note_impl c al))"
    using assms by (cases c) (simp_all add: distinct_delete distinct_update distinct_keys_filter)
  show "map_of (note_impl c al) = note_spec c (map_of al)"
    using assms by (cases c)
      (auto simp: fun_eq_iff restrict_map_def map_of_filter_keys split: option.splits)
qed

lemma notes_text_update:
  "notes_text al \<Longrightarrow> valid_utf8 k \<Longrightarrow> valid_utf8 v \<Longrightarrow> notes_text (AList.update k v al)"
  unfolding notes_text_def by (induction al) auto

lemma notes_text_filter: "notes_text al \<Longrightarrow> notes_text (filter P al)"
  by (simp add: notes_text_def list_all_iff)

lemma note_impl_text:
  assumes "notes_text al" "note_op_text c"
  shows "notes_text (note_impl c al)"
  using assms by (cases c) (simp_all add: notes_text_update notes_text_filter AList.delete_eq)

text \<open>Either the operation changes nothing and writes nothing, or it writes its list.\<close>

lemma run_note_cases:
  assumes "loadNotesLocked io fs path = Inr (Some al)"
  shows "run_note c io path fs = writeNotesLocked io path (Some (note_impl c al)) fs
    \<or> run_note c io path fs = ([fs], None) \<and> note_impl c al = al"
proof (cases c)
  case (NoteSet u fp nt)
  then show ?thesis using assms by (simp add: SetNote_def)
next
  case (NoteDelete u fp)
  have "AList.delete k al = al" if "map_of al k = None" for k
    using that by (simp add: AList.delete_eq map_of_eq_None_iff filter_id_conv) force
  then show ?thesis using assms NoteDelete by (simp add: DeleteNote_def)
next
  case (NotePrune keep)
  have "length (filter P al) = length al \<Longrightarrow> filter P al = al" for P
    by (metis filter_True length_filter_less less_irrefl)
  then show ?thesis using assms NotePrune by (auto simp: PruneNotes_def Let_def)
qed

section \<open>Properties\<close>

text \<open>
  C18: an update of the user manifest is atomic. When it reports an error, whatever failed,
  no process ever sees the file changed. When it reports success, the mutation was applied
  to the loaded manifest, the result is strictly valid (version 1, valid and distinct user
  names, only valid public keys), every reader then loads exactly that result from a file of
  mode 0600, and in between sees the manifest before or after.
\<close>

theorem manifest_Update_atomic:
  assumes "io_tmp io \<noteq> path" "io_read rio path = None"
    and "\<And>m m'. manifest_loadLocked io fs path = Inr m \<Longrightarrow> fn m = Inr m' \<Longrightarrow> keys_text m'"
  shows "case manifest_Update io path fn fs of
      (tr, Some e) \<Rightarrow> \<forall>st \<in> set tr. st path = fs path
    | (tr, None) \<Rightarrow> \<exists>m m'. manifest_Load io fs path = Inr m \<and> fn m = Inr m'
        \<and> validateManifest (m'\<lparr>mf_Version := 1\<rparr>) True = None
        \<and> manifest_Load rio (last tr) path = Inr (m'\<lparr>mf_Version := 1\<rparr>)
        \<and> map_option cf_mode (last tr path) = Some 384
        \<and> (\<forall>st \<in> set tr. manifest_Load rio st path \<in> {manifest_Load rio fs path, Inr (m'\<lparr>mf_Version := 1\<rparr>)})"
proof (cases rule: manifest_Update_cases [of io path fn fs])
  case (refused e)
  then show ?thesis by simp
next
  case (written m m')
  let ?m = "stamped m'"
  let ?w = "write_private io path (manifest_encode ?m) fs"
  have t: "keys_text ?m" using assms(3) [OF written(1,2)] by (simp add: keys_text_def stamped_def)
  have upd: "manifest_Update io path fn fs = (fst ?w, map_option AIO (snd ?w))"
    using written(4) by (simp add: manifest_writeLocked_def split: prod.split)
  have new: "manifest_Load rio st path = Inr ?m" if "ReadFile rio st path = Inr (manifest_encode ?m)" for st
    using manifest_Load_new [OF that written(3) t] .
  show ?thesis
  proof (cases "snd ?w")
    case None
    have "manifest_Load rio (last (fst ?w)) path = Inr ?m"
      using private_file.read_after [OF assms(1) None assms(2)] new by (simp add: final_def)
    moreover have "map_option cf_mode (last (fst ?w) path) = Some 384"
      using private_file.published [OF assms(1) None] by (auto simp: final_def)
    moreover have "manifest_Load rio st path \<in> {manifest_Load rio fs path, Inr ?m}" if "st \<in> set (fst ?w)" for st
      using private_file.read_old_or_new [OF assms(1) that, of rio] new manifest_Load_cong [of rio st path fs] by blast
    ultimately show ?thesis
      using None written upd by (auto simp: stamped_def manifest_Load_def validateManifest_None)
  next
    case (Some e)
    then show ?thesis using private_file.failed [OF assms(1), of "manifest_encode ?m" fs] upd by simp
  qed
qed

definition demo_key :: string where
  "demo_key = ''ssh-ed25519 '' @ StdEncode demo_blob"

definition demo_user :: User where
  "demo_user = \<lparr>us_Username = ''ann'', us_Enabled = True, us_Keys = [demo_key]\<rparr>"

definition add_demo_user :: "Manifest \<Rightarrow> (admin_error, Manifest) result" where
  "add_demo_user m = Inr (m\<lparr>mf_Users := mf_Users m @ [demo_user]\<rparr>)"

lemma demo_update:
  "manifest_Update io_ok ''/c/u.json'' add_demo_user Map.empty
     = manifest_writeLocked io_ok ''/c/u.json'' \<lparr>mf_Version = 1, mf_Users = [demo_user]\<rparr> Map.empty"
proof -
  have "manifest_loadLocked io_ok Map.empty ''/c/u.json'' = Inr \<lparr>mf_Version = 1, mf_Users = []\<rparr>"
    by (simp add: manifest_loadLocked_def ReadFile_def io_ok_def IsNotExist_def ManifestVersion_def)
  moreover have "ValidateUsername ''ann'' = None" by code_simp
  then have "validateManifest \<lparr>mf_Version = 1, mf_Users = [demo_user]\<rparr> True = None"
    using demo_key_valid
    by (simp add: validateManifest_None manifest_ok_def demo_user_def demo_key_def valid_key_def)
  ultimately show ?thesis
    by (simp add: manifest_Update_def add_demo_user_def ManifestVersion_def)
qed

lemma demo_key_text: "valid_utf8 demo_key"
  unfolding demo_key_def by (rule valid_utf8_ascii) code_simp

theorem manifest_Update_atomic_witness:
  "manifest_Load io_ok (last (fst (manifest_Update io_ok ''/c/u.json'' add_demo_user Map.empty))) ''/c/u.json''
     = Inr \<lparr>mf_Version = 1, mf_Users = [demo_user]\<rparr>"
proof -
  let ?u = "manifest_Update io_ok ''/c/u.json'' add_demo_user Map.empty"
  have l: "manifest_loadLocked io_ok Map.empty ''/c/u.json'' = Inr \<lparr>mf_Version = 1, mf_Users = []\<rparr>"
    by (simp add: manifest_loadLocked_def ReadFile_def io_ok_def IsNotExist_def ManifestVersion_def)
  have "snd ?u = None" unfolding demo_update by (simp add: manifest_writeLocked_result) code_simp
  then obtain tr where u: "?u = (tr, None)" by (cases ?u) simp
  have "io_tmp io_ok \<noteq> ''/c/u.json''" "io_read io_ok ''/c/u.json'' = None" by (simp_all add: io_ok_def)
  moreover have "keys_text m'" if "manifest_loadLocked io_ok Map.empty ''/c/u.json'' = Inr m" "add_demo_user m = Inr m'" for m m'
    using that l demo_key_text by (auto simp: add_demo_user_def keys_text_def demo_user_def)
  ultimately show ?thesis
    using manifest_Update_atomic [of io_ok "''/c/u.json''" io_ok Map.empty add_demo_user] u l
    by (auto simp: add_demo_user_def manifest_Load_def)
qed

text \<open>
  Whatever updates and repairs run, whatever system calls fail in them and wherever a
  process looks in between, the manifest file is absent or holds a strictly valid manifest:
  a reader without a read error always loads one, so the reconciler never meets a torn file,
  a duplicate or reserved user name or a malformed key.
\<close>

theorem manifest_always_valid:
  assumes "manifest_states path fs" "io_read rio path = None"
  shows "\<exists>m. manifest_Load rio fs path = Inr m \<and> validateManifest m True = None"
proof (cases "fs path")
  case None
  then show ?thesis
    using assms(2) by (simp add: manifest_Load_def manifest_loadLocked_def ReadFile_def IsNotExist_def
        validateManifest_None manifest_ok_def ManifestVersion_def)
next
  case (Some f)
  then obtain m where "cf_doc f = manifest_encode m" "manifest_ok True m" "keys_text m"
    using manifest_states_strict [OF assms(1)] by (auto simp: strict_file_def)
  then show ?thesis
    using manifest_Load_new [of rio fs path m] Some assms(2) by (simp add: ReadFile_def validateManifest_None)
qed

theorem manifest_always_valid_witness:
  "\<exists>m. manifest_Load io_ok (last (fst (manifest_Update io_ok ''/c/u.json'' add_demo_user Map.empty))) ''/c/u.json'' = Inr m
     \<and> validateManifest m True = None"
proof (rule manifest_always_valid)
  let ?tr = "fst (manifest_Update io_ok ''/c/u.json'' add_demo_user Map.empty)"
  have s: "last ?tr \<in> set ?tr"
    unfolding demo_update by (simp add: manifest_writeLocked_result private_file.some_state)
  have k: "keeps_text add_demo_user"
    using demo_key_text by (simp add: keeps_text_def add_demo_user_def keys_text_def demo_user_def)
  have t: "io_tmp io_ok \<noteq> ''/c/u.json''" by (simp add: io_ok_def)
  have "manifest_states ''/c/u.json'' Map.empty" by (rule manifest_states.first_boot) simp
  from manifest_states.update [OF this k t s] show "manifest_states ''/c/u.json'' (last ?tr)" .
qed (simp add: io_ok_def)

text \<open>
  C28: the repair of a loaded manifest. It removes exactly the invalid keys, keeps every valid
  key in its order and every other field, and switches off exactly the users that had keys
  and lose all of them; its report counts the removed keys and names those users. When it
  succeeds the repaired manifest is strictly valid and is what every reader loads; when
  nothing is invalid the files are untouched.
\<close>

theorem RemoveInvalidKeys_exact:
  assumes "manifest_Load io fs path = Inr m" "keys_text m"
    and "io_tmp io \<noteq> path" "io_read rio path = None" "io_read io path = None"
    and "RemoveInvalidKeys io path fs = (tr, Inr rep)"
  shows "manifest_Load rio (last tr) path = Inr (m\<lparr>mf_Users := map repaired (mf_Users m)\<rparr>)
    \<and> validateManifest (m\<lparr>mf_Users := map repaired (mf_Users m)\<rparr>) True = None
    \<and> rp_RemovedKeys rep = (\<Sum>u\<leftarrow>mf_Users m. length (filter (\<lambda>k. \<not> valid_key k) (us_Keys u)))
    \<and> rp_DisabledUsers rep = map us_Username (filter (\<lambda>u. us_Keys u \<noteq> [] \<and> us_Keys (repaired u) = []) (mf_Users m))
    \<and> (rp_RemovedKeys rep = 0 \<longrightarrow> tr = [fs])"
proof -
  have l: "manifest_loadLocked io fs path = Inr m" using assms(1) by (simp add: manifest_Load_def)
  note ok = manifest_loadLocked_ok [OF l]
  have new: "repaired_manifest m = m\<lparr>mf_Users := map repaired (mf_Users m)\<rparr>"
    using ok by (simp add: repaired_manifest_def manifest_ok_def)
  have ok': "manifest_ok True (repaired_manifest m)"
    using repaired_ok [OF ok] by (simp add: repaired_manifest_def)
  have kt: "keys_text (repaired_manifest m)"
    using assms(2) by (auto simp: keys_text_def repaired_manifest_def list_all_iff repaired_def Let_def)
  have lost: "lost_all = (\<lambda>u. us_Keys u \<noteq> [] \<and> us_Keys (repaired u) = [])"
    by (simp add: fun_eq_iff lost_all_def repaired_def Let_def)
  have rep: "rep = repair_report m"
    using assms(6) RemoveInvalidKeys_loaded [OF l] by (auto split: if_splits option.splits prod.splits)
  have load: "manifest_Load rio (last tr) path = Inr (repaired_manifest m)"
  proof (cases "invalid_count m = 0")
    case True
    then have "list_all (\<lambda>u. list_all valid_key (us_Keys u)) (mf_Users m)"
      by (auto simp: invalid_count_def list_all_iff filter_empty_conv)
    then have "map repaired (mf_Users m) = mf_Users m" by (auto simp: list_all_iff repaired_same intro!: map_idI)
    moreover have "tr = [fs]" using assms(6) RemoveInvalidKeys_loaded [OF l] True by simp
    moreover have "manifest_Load rio fs path = manifest_Load io fs path"
      using manifest_Load_def assms(4,5) by (simp add: manifest_loadLocked_def ReadFile_def)
    ultimately show ?thesis using new assms(1) by simp
  next
    case False
    let ?w = "write_private io path (manifest_encode (repaired_manifest m)) fs"
    have w: "fst ?w = tr" "snd ?w = None"
      using assms(6) RemoveInvalidKeys_loaded [OF l] False manifest_writeLocked_result [of io path "repaired_manifest m" fs]
      by (auto split: option.splits prod.splits)
    show ?thesis
      using private_file.read_after [OF assms(3) w(2) assms(4)] w(1) manifest_Load_new [OF _ ok' kt]
      by (simp add: final_def)
  qed
  moreover have "rp_RemovedKeys rep = 0 \<longrightarrow> tr = [fs]"
    using assms(6) RemoveInvalidKeys_loaded [OF l] rep by (auto simp: repair_report_def)
  ultimately show ?thesis
    using ok' unfolding new rep repair_report_def lost by (simp add: invalid_count_def validateManifest_None)
qed

definition demo_legacy :: Manifest where
  "demo_legacy = \<lparr>mf_Version = 1, mf_Users = [\<lparr>us_Username = ''bob'', us_Enabled = True, us_Keys = [''ssh-dss AAAA'']\<rparr>]\<rparr>"

definition demo_legacy_fs :: cfs where
  "demo_legacy_fs = [''/c/u.json'' \<mapsto> \<lparr>cf_doc = manifest_encode demo_legacy, cf_mode = 384, cf_gid = 0\<rparr>]"

theorem RemoveInvalidKeys_exact_witness:
  "rp_DisabledUsers (projr (snd (RemoveInvalidKeys io_ok ''/c/u.json'' demo_legacy_fs))) = [''bob'']"
proof -
  let ?r = "RemoveInvalidKeys io_ok ''/c/u.json'' demo_legacy_fs"
  have "manifest_Load io_ok demo_legacy_fs ''/c/u.json'' = Inr demo_legacy" "keys_text demo_legacy"
    "isl (snd ?r) = False" by code_simp+
  moreover have "io_tmp io_ok \<noteq> ''/c/u.json''" "io_read io_ok ''/c/u.json'' = None" by (simp_all add: io_ok_def)
  moreover have "valid_key ''ssh-dss AAAA'' = False" by code_simp
  ultimately show ?thesis
    using RemoveInvalidKeys_exact [of io_ok demo_legacy_fs "''/c/u.json''" demo_legacy io_ok "fst ?r" "projr (snd ?r)"]
    by (cases ?r, cases "snd ?r") (simp_all add: demo_legacy_def repaired_def)
qed

text \<open>
  C29: the key notes refine a map from key ids to texts. A successful set, clear, delete or
  prune changes the map that readers load exactly as its specification says; a failed one
  leaves the notes as they were; and no state of either shows a change of the manifest.
\<close>

theorem notes_refine_map:
  assumes "LoadNotes io fs path = Inr (Some al)" "notes_text al" "note_op_text c"
    and "io_tmp io \<noteq> notesPath path" "path \<noteq> notesPath path" "path \<noteq> io_tmp io"
    and "\<forall>env \<in> {io, rio}. io_read env (notesPath path) = None"
  shows "(case run_note c io path fs of
        (tr, None) \<Rightarrow> notes_map (LoadNotes rio (last tr) path) = note_spec c (notes_map (LoadNotes rio fs path))
      | (tr, Some e) \<Rightarrow> LoadNotes rio (last tr) path = LoadNotes rio fs path)
    \<and> (\<forall>st \<in> set (fst (run_note c io path fs)). st path = fs path)"
proof -
  have l: "loadNotesLocked io fs path = Inr (Some al)" using assms(1) by (simp add: LoadNotes_def)
  have l': "LoadNotes rio fs path = Inr (Some al)"
    using l assms(7) by (simp add: LoadNotes_def loadNotesLocked_def ReadFile_def)
  note d = loadNotesLocked_distinct [OF l]
  note impl = note_impl_spec [OF d, of c]
  note t = note_impl_text [OF assms(2,3)]
  let ?w = "write_private io (notesPath path) (notes_encode (Some (note_impl c al))) fs"
  from run_note_cases [OF l, of c] show ?thesis
  proof
    assume run: "run_note c io path fs = writeNotesLocked io path (Some (note_impl c al)) fs"
    have "\<forall>st \<in> set (fst (run_note c io path fs)). st path = fs path"
      using writeNotesLocked_frame [OF assms(5,6)] run by simp
    moreover have "notes_map (LoadNotes rio (last tr) path) = note_spec c (notes_map (LoadNotes rio fs path))"
      if "run_note c io path fs = (tr, None)" for tr
    proof -
      have "loadNotesLocked rio (last tr) path = Inr (Some (sort_key fst (note_impl c al)))"
        by (rule writeNotesLocked_success [OF _ impl(1) t assms(4)]) (use that run assms(7) in auto)
      then show ?thesis using sort_key_fst_map_of [OF impl(1)] impl(2) l' by (simp add: notes_map_def LoadNotes_def)
    qed
    moreover have "LoadNotes rio (last tr) path = LoadNotes rio fs path" if "run_note c io path fs = (tr, Some e)" for tr e
    proof -
      have "snd ?w \<noteq> None" "tr = fst ?w" using that run by (auto simp: writeNotesLocked_def split: prod.splits)
      then show ?thesis using private_file.read_failed [OF assms(4), of "notes_encode (Some (note_impl c al))" fs]
        by (auto simp: LoadNotes_def loadNotesLocked_def final_def)
    qed
    ultimately show ?thesis by (auto split: prod.splits option.splits)
  next
    assume "run_note c io path fs = ([fs], None) \<and> note_impl c al = al"
    then show ?thesis using impl(2) l' by (simp add: notes_map_def)
  qed
qed

text \<open>
  A notes file that holds \<open>null\<close> is a \<open>nil\<close> map: setting a note on it is an assignment to a
  \<open>nil\<close> map.
\<close>

lemma SetNote_null:
  assumes "ReadFile io fs (notesPath path) = Inr (Doc JNull)" "nt \<noteq> []"
  shows "SetNote io path u fp nt fs = ([fs], Some ANilMap)"
  using assms by (simp add: SetNote_def loadNotesLocked_def notes_decode_def)

theorem notes_refine_map_witness:
  "notes_map (LoadNotes io_ok (last (fst (run_note (NoteSet ''ann'' ''f'' ''laptop'') io_ok ''/c/u.json'' Map.empty))) ''/c/u.json'')
     = [''ann|f'' \<mapsto> ''laptop'']"
proof -
  let ?r = "run_note (NoteSet ''ann'' ''f'' ''laptop'') io_ok ''/c/u.json'' Map.empty"
  have np: "notesPath ''/c/u.json'' = ''/c/key-notes.json''" by code_simp
  have l: "LoadNotes io_ok Map.empty ''/c/u.json'' = Inr (Some [])"
    by (simp add: LoadNotes_def loadNotesLocked_def ReadFile_def io_ok_def IsNotExist_def)
  have "snd ?r = None" "note_op_text (NoteSet ''ann'' ''f'' ''laptop'')" by code_simp+
  then show ?thesis
    using notes_refine_map [OF l, of "NoteSet ''ann'' ''f'' ''laptop''" io_ok] np l
    by (cases ?r) (auto simp: io_ok_def notes_text_def notes_map_def keyNoteID_def)
qed

end
