(* ===== verification/Admin_Settings.thy ===== *)
theory Admin_Settings
  imports Shared_Config
begin

text \<open>
  The package \<open>internal/sftpadmin\<close>, file \<open>settings.go\<close>: the registry of editable settings and
  the transaction that applies a form of them to the shared configuration. The submitted
  values are a Go map; its entries are listed here in the order in which one run of the
  program happens to iterate over them.
\<close>

section \<open>The registry\<close>

record SettingDef =
  sd_Key :: string
  sd_Service :: string
  sd_Description :: string
  sd_AllowedValues :: string
  sd_Options :: "string list"
  sd_IsSecret :: bool

record SettingValue = SettingDef +
  sd_Value :: string

definition SettingsRegistry :: "SettingDef list" where
  "SettingsRegistry =
     [\<lparr>sd_Key = ''HASH_ALGORITHM'', sd_Service = ''file-sharing'', sd_Description = ''Hash algorithm for share URLs'',
       sd_AllowedValues = ''md5, sha256'', sd_Options = [''md5'', ''sha256''], sd_IsSecret = False\<rparr>,
      \<lparr>sd_Key = ''HASH_TARGET'', sd_Service = ''file-sharing'', sd_Description = ''What gets hashed'',
       sd_AllowedValues = ''file (contents), filename (basename)'', sd_Options = [''file'', ''filename''], sd_IsSecret = False\<rparr>,
      \<lparr>sd_Key = ''PUBLIC_URL'', sd_Service = ''file-sharing'', sd_Description = ''External base URL for share links'',
       sd_AllowedValues = ''non-empty URL'', sd_Options = [], sd_IsSecret = False\<rparr>,
      \<lparr>sd_Key = ''ADMIN_TOKEN'', sd_Service = ''file-sharing'', sd_Description = ''Bearer token for the share-link management API'',
       sd_AllowedValues = ''non-empty secret'', sd_Options = [], sd_IsSecret = True\<rparr>,
      \<lparr>sd_Key = ''SFTP_ADMIN_PASSWORD'', sd_Service = ''sftp-admin'', sd_Description = ''Password for this admin UI'',
       sd_AllowedValues = ''non-empty'', sd_Options = [], sd_IsSecret = True\<rparr>]"

datatype setting_error = UnknownSetting string | InvalidSetting config_error

definition valueOf :: "string \<Rightarrow> SharedConfig \<Rightarrow> (setting_error, string) result" where
  "valueOf key c =
     (if key = ''HASH_ALGORITHM'' then Inr (sc_HashAlgorithm c)
      else if key = ''HASH_TARGET'' then Inr (sc_HashTarget c)
      else if key = ''PUBLIC_URL'' then Inr (sc_PublicURL c)
      else if key = ''ADMIN_TOKEN'' then Inr (sc_AdminToken c)
      else if key = ''SFTP_ADMIN_PASSWORD'' then Inr (sc_SftpAdminPassword c)
      else Inl (UnknownSetting key))"

text \<open>The loop over the registry; an error of \<open>valueOf\<close> ends it.\<close>

fun setting_values :: "SettingDef list \<Rightarrow> SharedConfig \<Rightarrow> (setting_error, SettingValue list) result" where
  "setting_values [] c = Inr []"
| "setting_values (d # ds) c =
     bind_res (valueOf (sd_Key d) c) (\<lambda>v.
     bind_res (setting_values ds c) (\<lambda>vs.
     Inr (SettingDef.extend d \<lparr>sd_Value = v\<rparr> # vs)))"

datatype settings_failure = SettingsShared shared_error | SettingsField setting_error

definition GetSettings :: "io_env \<Rightarrow> cfs \<Rightarrow> string \<Rightarrow> (settings_failure, SettingValue list) result" where
  "GetSettings io fs configPath =
     bind_res (map_err SettingsShared (LoadShared io fs configPath)) (\<lambda>c.
     map_err SettingsField (setting_values SettingsRegistry c))"

definition isSecretSetting :: "string \<Rightarrow> bool" where
  "isSecretSetting key =
     (case find (\<lambda>d. sd_Key d = key) SettingsRegistry of None \<Rightarrow> False | Some d \<Rightarrow> sd_IsSecret d)"

section \<open>The transaction\<close>

text \<open>The \<open>switch\<close> of the loop: the configuration with one field replaced.\<close>

definition set_field :: "string \<Rightarrow> string \<Rightarrow> SharedConfig \<Rightarrow> SharedConfig option" where
  "set_field key value c =
     (if key = ''HASH_ALGORITHM'' then Some (c\<lparr>sc_HashAlgorithm := value\<rparr>)
      else if key = ''HASH_TARGET'' then Some (c\<lparr>sc_HashTarget := value\<rparr>)
      else if key = ''PUBLIC_URL'' then Some (c\<lparr>sc_PublicURL := value\<rparr>)
      else if key = ''ADMIN_TOKEN'' then Some (c\<lparr>sc_AdminToken := value\<rparr>)
      else if key = ''SFTP_ADMIN_PASSWORD'' then Some (c\<lparr>sc_SftpAdminPassword := value\<rparr>)
      else None)"

fun apply_values ::
    "(string \<times> string) list \<Rightarrow> SharedConfig \<Rightarrow> (string \<times> setting_error) list \<Rightarrow> SharedConfig \<times> (string \<times> setting_error) list" where
  "apply_values [] next errs = (next, errs)"
| "apply_values ((key, value) # vals) next errs =
     (if isSecretSetting key \<and> TrimSpace value = [] then apply_values vals next errs
      else (case set_field key value next of
              None \<Rightarrow> apply_values vals next (AList.update key (UnknownSetting key) errs)
            | Some trial \<Rightarrow>
                (case shared_Validate trial of
                   Some e \<Rightarrow> apply_values vals next (AList.update key (InvalidSetting e) errs)
                 | None \<Rightarrow> apply_values vals trial errs)))"

text \<open>
  The observable states of the files, and the result: a failure of the whole transaction, or
  the errors per field, which are empty exactly when the save succeeded.
\<close>

definition ApplySettings ::
    "io_env \<Rightarrow> string \<Rightarrow> (string \<times> string) list \<Rightarrow> cfs \<Rightarrow> cfs list \<times> (shared_error, (string \<times> setting_error) list) result" where
  "ApplySettings io configPath vals fs =
     (case LoadShared io fs configPath of
        Inl e \<Rightarrow> ([fs], Inl e)
      | Inr c \<Rightarrow>
          (case apply_values vals c [] of
             (next, errs) \<Rightarrow>
               if errs \<noteq> [] then ([fs], Inr errs)
               else (case shared_Save io configPath next fs of
                       (tr, None) \<Rightarrow> (tr, Inr [])
                     | (tr, Some e) \<Rightarrow> (tr, Inl e))))"

datatype apply_error = ApplyFailed shared_error | ApplyField string setting_error

definition ApplySetting :: "io_env \<Rightarrow> string \<Rightarrow> string \<Rightarrow> string \<Rightarrow> cfs \<Rightarrow> cfs list \<times> apply_error option" where
  "ApplySetting io configPath key value fs =
     (case ApplySettings io configPath [(key, value)] fs of
        (tr, Inl e) \<Rightarrow> (tr, Some (ApplyFailed e))
      | (tr, Inr errs) \<Rightarrow>
          (tr, case map_of errs key of Some msg \<Rightarrow> Some (ApplyField key msg) | None \<Rightarrow> None))"

section \<open>One field at a time\<close>

text \<open>
  From a valid configuration the verdict on a submitted value depends on that value alone, so
  the order of the iteration cannot matter.
\<close>

definition field_error :: "string \<Rightarrow> string \<Rightarrow> setting_error option" where
  "field_error key value =
     (if isSecretSetting key \<and> TrimSpace value = [] then None
      else if key = ''HASH_ALGORITHM'' then
        (if value \<in> {''md5'', ''sha256''} then None else Some (InvalidSetting (InvalidHashAlgorithm value)))
      else if key = ''HASH_TARGET'' then
        (if value \<in> {''file'', ''filename''} then None else Some (InvalidSetting (InvalidHashTarget value)))
      else if key = ''PUBLIC_URL'' then (if value = [] then Some (InvalidSetting InvalidPublicURL) else None)
      else if key = ''ADMIN_TOKEN'' \<or> key = ''SFTP_ADMIN_PASSWORD'' then None
      else Some (UnknownSetting key))"

text \<open>What a form makes of the value of a setting.\<close>

definition new_value :: "(string \<rightharpoonup> string) \<Rightarrow> string \<Rightarrow> string \<Rightarrow> string" where
  "new_value vals key old =
     (case vals key of None \<Rightarrow> old
      | Some v \<Rightarrow> if isSecretSetting key \<and> TrimSpace v = [] \<or> field_error key v \<noteq> None then old else v)"

definition new_config :: "(string \<rightharpoonup> string) \<Rightarrow> SharedConfig \<Rightarrow> SharedConfig" where
  "new_config vals c =
     \<lparr>sc_HashAlgorithm = new_value vals ''HASH_ALGORITHM'' (sc_HashAlgorithm c),
      sc_HashTarget = new_value vals ''HASH_TARGET'' (sc_HashTarget c),
      sc_PublicURL = new_value vals ''PUBLIC_URL'' (sc_PublicURL c),
      sc_AdminToken = new_value vals ''ADMIN_TOKEN'' (sc_AdminToken c),
      sc_SftpAdminPassword = new_value vals ''SFTP_ADMIN_PASSWORD'' (sc_SftpAdminPassword c)\<rparr>"

definition new_errors :: "(string \<rightharpoonup> string) \<Rightarrow> string \<rightharpoonup> setting_error" where
  "new_errors vals key = (case vals key of None \<Rightarrow> None | Some v \<Rightarrow> field_error key v)"

text \<open>The five keys, and what the definitions say for each of them.\<close>

abbreviation known_keys :: "string list" where
  "known_keys \<equiv> [''HASH_ALGORITHM'', ''HASH_TARGET'', ''PUBLIC_URL'', ''ADMIN_TOKEN'', ''SFTP_ADMIN_PASSWORD'']"

lemma secret_keys [simp]:
  "\<not> isSecretSetting ''HASH_ALGORITHM''" "\<not> isSecretSetting ''HASH_TARGET''" "\<not> isSecretSetting ''PUBLIC_URL''"
  "isSecretSetting ''ADMIN_TOKEN''" "isSecretSetting ''SFTP_ADMIN_PASSWORD''"
  by code_simp+

lemma unknown_neq:
  assumes "key \<notin> set known_keys"
  shows "''HASH_ALGORITHM'' \<noteq> key" "''HASH_TARGET'' \<noteq> key" "''PUBLIC_URL'' \<noteq> key" "''ADMIN_TOKEN'' \<noteq> key"
    "''SFTP_ADMIN_PASSWORD'' \<noteq> key"
  using assms by auto

lemma secret_unknown: "key \<notin> set known_keys \<Longrightarrow> \<not> isSecretSetting key"
  using unknown_neq [of key] by (simp add: isSecretSetting_def SettingsRegistry_def)

lemma set_field_keys:
  "set_field ''HASH_ALGORITHM'' v c = Some (c\<lparr>sc_HashAlgorithm := v\<rparr>)"
  "set_field ''HASH_TARGET'' v c = Some (c\<lparr>sc_HashTarget := v\<rparr>)"
  "set_field ''PUBLIC_URL'' v c = Some (c\<lparr>sc_PublicURL := v\<rparr>)"
  "set_field ''ADMIN_TOKEN'' v c = Some (c\<lparr>sc_AdminToken := v\<rparr>)"
  "set_field ''SFTP_ADMIN_PASSWORD'' v c = Some (c\<lparr>sc_SftpAdminPassword := v\<rparr>)"
  "key \<notin> set known_keys \<Longrightarrow> set_field key v c = None"
  by (simp_all add: set_field_def)

lemma field_error_keys:
  "field_error ''HASH_ALGORITHM'' v = (if v = ''md5'' \<or> v = ''sha256'' then None else Some (InvalidSetting (InvalidHashAlgorithm v)))"
  "field_error ''HASH_TARGET'' v = (if v = ''file'' \<or> v = ''filename'' then None else Some (InvalidSetting (InvalidHashTarget v)))"
  "field_error ''PUBLIC_URL'' v = (if v = [] then Some (InvalidSetting InvalidPublicURL) else None)"
  "field_error ''ADMIN_TOKEN'' v = None"
  "field_error ''SFTP_ADMIN_PASSWORD'' v = None"
  "key \<notin> set known_keys \<Longrightarrow> field_error key v = Some (UnknownSetting key)"
  by (simp_all add: field_error_def secret_unknown)

lemma new_config_keys:
  "new_config [''HASH_ALGORITHM'' \<mapsto> v] c = c\<lparr>sc_HashAlgorithm := new_value [''HASH_ALGORITHM'' \<mapsto> v] ''HASH_ALGORITHM'' (sc_HashAlgorithm c)\<rparr>"
  "new_config [''HASH_TARGET'' \<mapsto> v] c = c\<lparr>sc_HashTarget := new_value [''HASH_TARGET'' \<mapsto> v] ''HASH_TARGET'' (sc_HashTarget c)\<rparr>"
  "new_config [''PUBLIC_URL'' \<mapsto> v] c = c\<lparr>sc_PublicURL := new_value [''PUBLIC_URL'' \<mapsto> v] ''PUBLIC_URL'' (sc_PublicURL c)\<rparr>"
  "new_config [''ADMIN_TOKEN'' \<mapsto> v] c = c\<lparr>sc_AdminToken := new_value [''ADMIN_TOKEN'' \<mapsto> v] ''ADMIN_TOKEN'' (sc_AdminToken c)\<rparr>"
  "new_config [''SFTP_ADMIN_PASSWORD'' \<mapsto> v] c =
     c\<lparr>sc_SftpAdminPassword := new_value [''SFTP_ADMIN_PASSWORD'' \<mapsto> v] ''SFTP_ADMIN_PASSWORD'' (sc_SftpAdminPassword c)\<rparr>"
  by (simp_all add: new_config_def new_value_def)

lemma new_value_other: "k \<noteq> key \<Longrightarrow> new_value [key \<mapsto> v] k old = old"
  by (simp add: new_value_def)

lemma new_value_same:
  "new_value [key \<mapsto> v] key old =
     (if isSecretSetting key \<and> TrimSpace v = [] \<or> field_error key v \<noteq> None then old else v)"
  by (simp add: new_value_def)

lemma new_config_unknown: "key \<notin> set known_keys \<Longrightarrow> new_config [key \<mapsto> v] c = c"
  using unknown_neq [of key] by (simp add: new_config_def new_value_other)

lemma TrimSpace_Nil: "TrimSpace [] = []"
  by (simp add: TrimSpace_def)

lemma valid_config:
  assumes "shared_Validate c = None"
  shows "sc_HashTarget c = ''file'' \<or> sc_HashTarget c = ''filename''"
    "sc_HashAlgorithm c = ''md5'' \<or> sc_HashAlgorithm c = ''sha256''"
    "sc_PublicURL c \<noteq> []" "sc_AdminToken c \<noteq> []" "sc_SftpAdminPassword c \<noteq> []"
  using assms by (simp_all add: shared_Validate_None)

text \<open>One round of the loop.\<close>

definition apply_one :: "string \<Rightarrow> string \<Rightarrow> SharedConfig \<Rightarrow> SharedConfig \<times> setting_error option" where
  "apply_one key value c =
     (case set_field key value c of
        None \<Rightarrow> (c, Some (UnknownSetting key))
      | Some trial \<Rightarrow>
          (case shared_Validate trial of Some e \<Rightarrow> (c, Some (InvalidSetting e)) | None \<Rightarrow> (trial, None)))"

lemma apply_one_exact:
  assumes "shared_Validate c = None" "\<not> (isSecretSetting key \<and> TrimSpace value = [])"
  shows "apply_one key value c = (new_config [key \<mapsto> value] c, field_error key value)"
proof (cases "key \<in> set known_keys")
  case True
  note v = valid_config [OF assms(1)]
  have ne: "value \<noteq> []" if "isSecretSetting key" using that assms(2) TrimSpace_Nil by auto
  have key: "key = ''HASH_ALGORITHM'' \<or> key = ''HASH_TARGET'' \<or> key = ''PUBLIC_URL'' \<or> key = ''ADMIN_TOKEN''
      \<or> key = ''SFTP_ADMIN_PASSWORD'' \<or> False"
    using True by (simp only: list.set insert_iff empty_iff)
  note keys = apply_one_def set_field_keys new_config_keys new_value_same field_error_keys option.case
  from key show ?thesis
  proof (elim disjE)
    assume k: "key = ''ADMIN_TOKEN''"
    show ?thesis using v ne assms(2) unfolding k keys by (simp add: shared_Validate_def)
  next
    assume k: "key = ''SFTP_ADMIN_PASSWORD''"
    show ?thesis using v ne assms(2) unfolding k keys by (simp add: shared_Validate_def)
  next
    assume k: "key = ''PUBLIC_URL''"
    show ?thesis using v unfolding k keys by (simp add: shared_Validate_def)
  next
    assume k: "key = ''HASH_ALGORITHM''"
    show ?thesis using v unfolding k keys by (elim disjE) (simp_all add: shared_Validate_def)
  next
    assume k: "key = ''HASH_TARGET''"
    show ?thesis using v unfolding k keys by (elim disjE) (simp_all add: shared_Validate_def)
  qed simp
next
  case False
  show ?thesis using set_field_keys(6) [OF False] field_error_keys(6) [OF False] new_config_unknown [OF False]
    by (simp add: apply_one_def)
qed

lemma apply_values_Cons:
  "apply_values ((key, value) # vals) c errs =
     (if isSecretSetting key \<and> TrimSpace value = [] then apply_values vals c errs
      else (case apply_one key value c of
              (c', None) \<Rightarrow> apply_values vals c' errs
            | (c', Some e) \<Rightarrow> apply_values vals c' (AList.update key e errs)))"
  by (simp add: apply_one_def split: option.split)

lemma new_config_blank: "isSecretSetting key \<and> TrimSpace value = [] \<Longrightarrow> new_config [key \<mapsto> value] c = c"
proof -
  assume "isSecretSetting key \<and> TrimSpace value = []"
  then have "new_value [key \<mapsto> value] k old = old" for k old by (simp add: new_value_def)
  then show ?thesis by (simp add: new_config_def)
qed

lemma new_value_step:
  assumes "vals key = None"
  shows "new_value vals k (new_value [key \<mapsto> value] k old) = new_value (vals(key \<mapsto> value)) k old"
  using assms by (cases "k = key") (simp_all add: new_value_def)

lemma new_config_step:
  assumes "vals key = None"
  shows "new_config vals (new_config [key \<mapsto> value] c) = new_config (vals(key \<mapsto> value)) c"
  unfolding new_config_def [of vals "new_config [key \<mapsto> value] c"] new_config_def [of "vals(key \<mapsto> value)"]
  by (simp add: new_value_step [of vals key, OF assms, symmetric]) (simp add: new_config_def)

lemma new_config_empty: "new_config Map.empty c = c"
  by (simp add: new_config_def new_value_def)

lemma apply_one_valid: "shared_Validate c = None \<Longrightarrow> shared_Validate (fst (apply_one key value c)) = None"
  by (simp add: apply_one_def split: option.split)

lemma apply_values_config:
  "distinct (keys_of vals) \<Longrightarrow> shared_Validate c = None
   \<Longrightarrow> fst (apply_values vals c errs) = new_config (map_of vals) c
     \<and> shared_Validate (fst (apply_values vals c errs)) = None"
proof (induction vals arbitrary: c errs)
  case (Cons kv vals)
  obtain key v0 where kv: "kv = (key, v0)" by (cases kv)
  have fresh: "map_of vals key = None" and d: "distinct (keys_of vals)"
    using Cons.prems(1) by (simp_all add: kv map_of_eq_None_iff)
  note v = Cons.prems(2)
  have m: "map_of (kv # vals) = (map_of vals)(key \<mapsto> v0)" by (simp add: kv)
  show ?case
  proof (cases "isSecretSetting key \<and> TrimSpace v0 = []")
    case True
    have "new_config (map_of (kv # vals)) c = new_config (map_of vals) c"
      unfolding m using new_config_step [of "map_of vals" key, OF fresh, of v0 c] new_config_blank [OF True] by simp
    then show ?thesis using Cons.IH [OF d v, of errs] unfolding kv apply_values_Cons if_P [OF True] by (auto simp add: fun_upd_def)
  next
    case False
    obtain c' e where one: "apply_one key v0 c = (c', e)" by (cases "apply_one key v0 c")
    have c': "c' = new_config [key \<mapsto> v0] c" "shared_Validate c' = None"
      using apply_one_exact [OF v False] apply_one_valid [OF v, of key v0] one by simp_all
    obtain errs' where "apply_values (kv # vals) c errs = apply_values vals c' errs'"
      using one unfolding kv apply_values_Cons if_not_P [OF False] by (cases e) auto
    then show ?thesis
      using Cons.IH [OF d c'(2), of errs'] new_config_step [of "map_of vals" key, OF fresh, of v0 c]
      by (metis m c'(1))
  qed
qed (simp add: new_config_empty)

lemma apply_values_errors:
  "distinct (keys_of vals) \<Longrightarrow> shared_Validate c = None
   \<Longrightarrow> map_of (snd (apply_values vals c errs)) = map_of errs ++ new_errors (map_of vals)"
proof (induction vals arbitrary: c errs)
  case (Cons kv vals)
  obtain key v0 where kv: "kv = (key, v0)" by (cases kv)
  have fresh: "map_of vals key = None" and d: "distinct (keys_of vals)"
    using Cons.prems(1) by (simp_all add: kv map_of_eq_None_iff)
  note v = Cons.prems(2)
  have ne: "new_errors (map_of (kv # vals)) =
      (case field_error key v0 of None \<Rightarrow> new_errors (map_of vals) | Some e \<Rightarrow> (new_errors (map_of vals))(key \<mapsto> e))"
    using fresh by (auto simp: kv new_errors_def fun_eq_iff split: option.split)
  have key: "new_errors (map_of vals) key = None" using fresh by (simp add: new_errors_def)
  have add: "map_of (AList.update key e errs) ++ new_errors (map_of vals)
      = map_of errs ++ (new_errors (map_of vals))(key \<mapsto> e)" for e
    using key by (auto simp: map_add_def fun_eq_iff split: option.split)
  show ?case
  proof (cases "isSecretSetting key \<and> TrimSpace v0 = []")
    case True
    then have "field_error key v0 = None" by (simp add: field_error_def)
    then show ?thesis
      using Cons.IH [OF d v, of errs] ne unfolding kv apply_values_Cons if_P [OF True] by (simp add: fun_upd_def)
  next
    case False
    obtain c' e where one: "apply_one key v0 c = (c', e)" by (cases "apply_one key v0 c")
    have e: "e = field_error key v0" and v': "shared_Validate c' = None"
      using apply_one_exact [OF v False] apply_one_valid [OF v, of key v0] one by simp_all
    show ?thesis
    proof (cases e)
      case None
      then show ?thesis using Cons.IH [OF d v'] one ne e unfolding kv apply_values_Cons if_not_P [OF False] by (simp add: fun_upd_def)
    next
      case (Some x)
      have "apply_values (kv # vals) c errs = apply_values vals c' (AList.update key x errs)"
        using one Some unfolding kv apply_values_Cons if_not_P [OF False] by simp
      then have "map_of (snd (apply_values (kv # vals) c errs)) = map_of (AList.update key x errs) ++ new_errors (map_of vals)"
        by (simp only: Cons.IH [OF d v'])
      moreover have "new_errors (map_of (kv # vals)) = (new_errors (map_of vals))(key \<mapsto> x)"
        unfolding ne e [symmetric] Some by simp
      ultimately show ?thesis by (simp only: add)
    qed
  qed
qed (simp add: new_errors_def map_add_def fun_eq_iff)

section \<open>Properties\<close>

lemma ApplySettings_values:
  assumes "LoadShared io fs path = Inr c" "distinct (keys_of vals)"
  obtains (refused) errs where "ApplySettings io path vals fs = ([fs], Inr errs)" "map_of errs = new_errors (map_of vals)"
      "\<exists>k. new_errors (map_of vals) k \<noteq> None"
  | (saved) "\<forall>k. new_errors (map_of vals) k = None" "ApplySettings io path vals fs =
        (case shared_Save io path (new_config (map_of vals) c) fs of
           (tr, None) \<Rightarrow> (tr, Inr []) | (tr, Some e) \<Rightarrow> (tr, Inl e))"
proof -
  have v: "shared_Validate c = None" by (rule LoadShared_valid [OF assms(1)])
  obtain c' errs where av: "apply_values vals c [] = (c', errs)" by (cases "apply_values vals c []")
  have c': "c' = new_config (map_of vals) c"
    using apply_values_config [OF assms(2) v, of "[]"] av by auto
  have errs: "map_of errs = new_errors (map_of vals)"
    using apply_values_errors [OF assms(2) v, of "[]"] av by simp
  show ?thesis
  proof (cases "errs = []")
    case True
    then show ?thesis using saved errs [symmetric] av c' assms(1) by (simp add: ApplySettings_def)
  next
    case False
    then obtain k e es where "errs = (k, e) # es" by (cases errs) auto
    then have "new_errors (map_of vals) k = Some e" using errs [symmetric] by simp
    then have "\<exists>k. new_errors (map_of vals) k \<noteq> None" by blast
    then show ?thesis using refused [of errs] errs False av assms(1) by (simp add: ApplySettings_def)
  qed
qed

lemma new_config_valid:
  assumes "shared_Validate c = None" "distinct (keys_of vals)"
  shows "shared_Validate (new_config (map_of vals) c) = None"
  using apply_values_config [OF assms(2,1), of "[]"] by (cases "apply_values vals c []") auto

text \<open>
  C33: saving the settings form is one transaction that does not depend on the order in
  which the submitted map is iterated. If the current configuration loads and every
  submitted value is acceptable by itself (an empty secret counts as unchanged), the save
  publishes exactly the configuration with the submitted values in place, which is valid; if
  any value is not acceptable, nothing is written, and the errors reported are exactly
  those of the unacceptable fields.
\<close>

theorem ApplySettings_transaction:
  assumes "LoadShared io fs path = Inr c" "distinct (keys_of vals)"
  shows "(if \<exists>k. new_errors (map_of vals) k \<noteq> None
      then \<exists>errs. ApplySettings io path vals fs = ([fs], Inr errs) \<and> map_of errs = new_errors (map_of vals)
      else ApplySettings io path vals fs =
        (case shared_Save io path (new_config (map_of vals) c) fs of
           (tr, None) \<Rightarrow> (tr, Inr []) | (tr, Some e) \<Rightarrow> (tr, Inl e)))
    \<and> shared_Validate (new_config (map_of vals) c) = None"
  using new_config_valid [OF LoadShared_valid [OF assms(1)] assms(2)]
  by (cases rule: ApplySettings_values [OF assms]) auto

definition demo_config_fs :: cfs where
  "demo_config_fs = [''/etc/c'' \<mapsto> \<lparr>cf_doc = shared_encode demo_shared, cf_mode = 416, cf_gid = 0\<rparr>]"

theorem ApplySettings_transaction_witness:
  "ApplySettings io_ok ''/etc/c'' [(''HASH_TARGET'', ''inode''), (''PUBLIC_URL'', ''http://x'')] demo_config_fs
     = ([demo_config_fs], Inr (snd (apply_values [(''HASH_TARGET'', ''inode''), (''PUBLIC_URL'', ''http://x'')] demo_shared [])))"
proof -
  let ?v = "[(''HASH_TARGET'', ''inode''), (''PUBLIC_URL'', ''http://x'')]"
  have l: "LoadShared io_ok demo_config_fs ''/etc/c'' = Inr demo_shared" by code_simp
  moreover have "new_errors (map_of ?v) ''HASH_TARGET'' \<noteq> None" by (simp add: new_errors_def field_error_keys)
  ultimately show ?thesis
    using ApplySettings_transaction [OF l, of ?v]
    by (auto simp: ApplySettings_def case_prod_unfold split: if_splits option.splits)
qed

end
