(* ===== verification/Admin_Views.thy ===== *)
theory Admin_Views
  imports Admin_Store Admin_Settings Links_Pkg
begin

text \<open>
  The package \<open>internal/sftpadmin\<close>, file \<open>ui.go\<close>: the data of the pages of the admin service
  and the functions that compute it from the manifest and the links. The templates that
  print the data are in \<open>Admin_Pages\<close>.
\<close>

section \<open>Page data\<close>

record pageData =
  pd_Title :: string
  pd_ShowNav :: bool
  pd_Active :: string
  pd_CSRF :: string

record keyView =
  kv_Key :: string
  kv_Fingerprint :: string
  kv_Short :: string
  kv_Type :: string
  kv_Valid :: bool
  kv_Note :: string

record userRow =
  ur_Username :: string
  ur_Enabled :: bool
  ur_Keys :: "keyView list"
  ur_ValidKeys :: nat
  ur_InvalidKeys :: nat

record generatedResult =
  gr_Username :: string
  gr_Token :: string
  gr_Fingerprint :: string

text \<open>The message of an error page: a fixed text or the text of an error value.\<close>

datatype message =
    MText string
  | MUsername username_error
  | MKey key_error
  | MStore admin_error
  | MPrefix string message
  | MLink link_error

record usersView = pageData +
  uv_Users :: "userRow list"
  uv_HasInvalid :: bool
  uv_Problems :: "string list"
  uv_Notice :: string
  uv_Generated :: "generatedResult option"
  uv_ErrorTitle :: string
  uv_Error :: "message option"

record settingsGroup =
  sg_Service :: string
  sg_Items :: "SettingValue list"

record settingsView = pageData +
  sv_Groups :: "settingsGroup list"
  sv_Notice :: string
  sv_Errors :: "(string \<times> setting_error) list"

record linkRow =
  lr_ID :: string
  lr_URL :: string
  lr_Scope :: Scope
  lr_HasPassword :: bool
  lr_CreatedAt :: time
  lr_ExpiresAt :: "time option"
  lr_Description :: string

record linksView = pageData +
  lv_Links :: "linkRow list"
  lv_Notice :: string
  lv_Error :: "message option"

section \<open>The users page\<close>

text \<open>The ellipsis is three bytes of UTF-8.\<close>

definition shortFingerprint :: "string \<Rightarrow> string" where
  "shortFingerprint fp =
     (let body = TrimPrefix fp ''SHA256:'' in
      if length body \<le> 20 then fp
      else ''SHA256:'' @ take 8 body @ [CHR 0xE2, CHR 0x80, CHR 0xA6] @ drop (length body - 8) body)"

fun problems_from :: "string \<Rightarrow> nat \<Rightarrow> string list \<Rightarrow> string list" where
  "problems_from user i [] = []"
| "problems_from user i (k # ks) =
     (case ValidatePublicKey k of
        Inl _ \<Rightarrow> (user @ '' key #'' @ FormatInt (int i + 1) @ '': not a valid SSH public key'') # problems_from user (i + 1) ks
      | Inr _ \<Rightarrow> problems_from user (i + 1) ks)"

definition invalidProblems :: "Manifest \<Rightarrow> string list" where
  "invalidProblems m = concat (map (\<lambda>u. problems_from (us_Username u) 0 (us_Keys u)) (mf_Users m))"

definition key_view :: "string \<Rightarrow> keyView" where
  "key_view k =
     (case ValidatePublicKey k of
        Inl _ \<Rightarrow> \<lparr>kv_Key = ''(invalid)'', kv_Fingerprint = ''(invalid)'', kv_Short = [], kv_Type = [], kv_Valid = False, kv_Note = []\<rparr>
      | Inr (canon, fp) \<Rightarrow>
          \<lparr>kv_Key = canon, kv_Fingerprint = fp, kv_Short = shortFingerprint fp,
           kv_Type = takeWhile (\<lambda>c. c \<noteq> CHR '' '') canon, kv_Valid = True, kv_Note = []\<rparr>)"

text \<open>The row of one user: the loop over its keys with the two counters.\<close>

fun user_row_keys :: "string list \<Rightarrow> userRow \<Rightarrow> userRow" where
  "user_row_keys [] row = row"
| "user_row_keys (k # ks) row =
     (let v = key_view k;
          row = row\<lparr>ur_Keys := ur_Keys row @ [v]\<rparr>
      in user_row_keys ks
           (if kv_Valid v then row\<lparr>ur_ValidKeys := ur_ValidKeys row + 1\<rparr>
            else row\<lparr>ur_InvalidKeys := ur_InvalidKeys row + 1\<rparr>))"

definition user_row :: "User \<Rightarrow> userRow" where
  "user_row u = user_row_keys (us_Keys u)
     \<lparr>ur_Username = us_Username u, ur_Enabled = us_Enabled u, ur_Keys = [], ur_ValidKeys = 0, ur_InvalidKeys = 0\<rparr>"

definition userDashboard :: "Manifest \<Rightarrow> string \<Rightarrow> usersView" where
  "userDashboard m csrf =
     \<lparr>pd_Title = ''SFTP users'', pd_ShowNav = True, pd_Active = ''users'', pd_CSRF = csrf,
      uv_Users = map user_row (mf_Users m),
      uv_HasInvalid = list_ex (\<lambda>u. list_ex (\<lambda>k. \<not> kv_Valid (key_view k)) (us_Keys u)) (mf_Users m),
      uv_Problems = [], uv_Notice = [], uv_Generated = None, uv_ErrorTitle = [], uv_Error = None\<rparr>"

section \<open>The links page\<close>

definition link_row :: "string \<Rightarrow> Link \<Rightarrow> linkRow" where
  "link_row publicURL l =
     \<lparr>lr_ID = lk_ID l,
      lr_URL = (if publicURL \<noteq> [] then TrimRightByte publicURL CHR ''/'' @ ''/l/'' @ lk_ID l else []),
      lr_Scope = lk_Scope l, lr_HasPassword = HasPassword l, lr_CreatedAt = lk_CreatedAt l,
      lr_ExpiresAt = lk_ExpiresAt l, lr_Description = lk_Description l\<rparr>"

definition linksDashboard :: "Link list \<Rightarrow> string \<Rightarrow> string \<Rightarrow> linksView" where
  "linksDashboard allLinks csrf publicURL =
     \<lparr>pd_Title = ''Share Links'', pd_ShowNav = True, pd_Active = ''links'', pd_CSRF = csrf,
      lv_Links = map (link_row publicURL) allLinks, lv_Notice = [], lv_Error = None\<rparr>"

section \<open>Facts\<close>

lemma kv_Valid_key_view: "kv_Valid (key_view k) = valid_key k"
  by (auto simp: key_view_def valid_key_def split: sum.split)

lemma user_row_keys_exact:
  "user_row_keys ks row = row\<lparr>ur_Keys := ur_Keys row @ map key_view ks,
     ur_ValidKeys := ur_ValidKeys row + length (filter valid_key ks),
     ur_InvalidKeys := ur_InvalidKeys row + length (filter (\<lambda>k. \<not> valid_key k) ks)\<rparr>"
  by (induction ks arbitrary: row) (simp_all add: Let_def kv_Valid_key_view)

lemma problems_from_length: "length (problems_from user i ks) = length (filter (\<lambda>k. \<not> valid_key k) ks)"
  by (induction ks arbitrary: i) (simp_all add: valid_key_def split: sum.split)

text \<open>
  The users page shows the manifest. It has one row per user in the order of the
  manifest, with the user's name, switch and keys; the counters of a row are the numbers of
  its valid and invalid keys; the list of problems has one line per invalid key, and the repair is
  offered exactly if there is one, that is if the manifest is not strictly valid.
\<close>

theorem userDashboard_faithful:
  assumes "validateManifest m False = None"
  shows "map (\<lambda>r. (ur_Username r, ur_Enabled r, length (ur_Keys r))) (uv_Users (userDashboard m csrf))
      = map (\<lambda>u. (us_Username u, us_Enabled u, length (us_Keys u))) (mf_Users m)
    \<and> map (\<lambda>r. (ur_ValidKeys r, ur_InvalidKeys r)) (uv_Users (userDashboard m csrf))
      = map (\<lambda>u. (length (filter valid_key (us_Keys u)), length (filter (\<lambda>k. \<not> valid_key k) (us_Keys u)))) (mf_Users m)
    \<and> length (invalidProblems m) = (\<Sum>r\<leftarrow>uv_Users (userDashboard m csrf). ur_InvalidKeys r)
    \<and> (uv_HasInvalid (userDashboard m csrf) \<longleftrightarrow> invalidProblems m \<noteq> [])
    \<and> (uv_HasInvalid (userDashboard m csrf) \<longleftrightarrow> validateManifest m True \<noteq> None)"
proof -
  have row: "user_row u = \<lparr>ur_Username = us_Username u, ur_Enabled = us_Enabled u, ur_Keys = map key_view (us_Keys u),
      ur_ValidKeys = length (filter valid_key (us_Keys u)),
      ur_InvalidKeys = length (filter (\<lambda>k. \<not> valid_key k) (us_Keys u))\<rparr>" for u
    by (simp add: user_row_def user_row_keys_exact)
  have n: "length (invalidProblems m) = invalid_count m"
    by (simp add: invalidProblems_def invalid_count_def length_concat problems_from_length comp_def)
  have z: "invalid_count m = 0 \<longleftrightarrow> list_all (\<lambda>u. list_all valid_key (us_Keys u)) (mf_Users m)"
    by (auto simp: invalid_count_def list_all_iff filter_empty_conv)
  have h: "uv_HasInvalid (userDashboard m csrf) \<longleftrightarrow> invalid_count m \<noteq> 0"
    unfolding z by (auto simp: userDashboard_def kv_Valid_key_view list_ex_iff list_all_iff)
  have s: "validateManifest m True \<noteq> None \<longleftrightarrow> invalid_count m \<noteq> 0"
    using assms unfolding z validateManifest_None by (auto simp: manifest_ok_def)
  have e: "invalidProblems m \<noteq> [] \<longleftrightarrow> invalid_count m \<noteq> 0" unfolding n [symmetric] by simp
  have c: "(\<Sum>r\<leftarrow>uv_Users (userDashboard m csrf). ur_InvalidKeys r) = invalid_count m"
    by (simp add: userDashboard_def row comp_def invalid_count_def)
  show ?thesis
    unfolding s h e c n by (simp add: userDashboard_def row comp_def)
qed

theorem userDashboard_faithful_witness:
  "uv_HasInvalid (userDashboard demo_legacy ''t'') \<and> length (invalidProblems demo_legacy) = 1"
proof -
  have "validateManifest demo_legacy False = None" by code_simp
  moreover have "invalidProblems demo_legacy = [''bob key #1: not a valid SSH public key'']" by code_simp
  ultimately show ?thesis using userDashboard_faithful [of demo_legacy "''t''"] by simp
qed

end
