(* ===== verification/Admin_Session.thy ===== *)
theory Admin_Session
  imports Go_Base64 Go_Digest Go_Time
begin

text \<open>
  The package \<open>internal/sftpadmin\<close>, file \<open>session.go\<close>: the sessions of the admin service, the
  counters of failed logins, password and CSRF comparison. An operation takes the moments
  it reads from the clock and the bytes it draws from the random source as arguments; a
  comparison in constant time of two digests is their equality.
\<close>

section \<open>Data\<close>

definition sessionCookieName :: string where
  "sessionCookieName = ''sftp_admin_session''"

definition csrfField :: string where
  "csrfField = ''csrf_token''"

definition sessionTTL :: time where
  "sessionTTL = 30 * 60 * second"

definition maxLoginAttempts :: nat where
  "maxLoginAttempts = 5"

definition loginWindow :: time where
  "loginWindow = 60 * second"

record session =
  se_csrf :: string
  se_expires :: time

record authState =
  au_pwHash :: bytes
  au_sessions :: "string \<rightharpoonup> session"
  au_failures :: "string \<rightharpoonup> time list"
  au_ttl :: time

definition newAuthState :: "string \<Rightarrow> authState" where
  "newAuthState password =
     \<lparr>au_pwHash = Sum256 password, au_sessions = Map.empty, au_failures = Map.empty, au_ttl = sessionTTL\<rparr>"

section \<open>Passwords\<close>

definition checkPassword :: "string \<Rightarrow> authState \<Rightarrow> bool" where
  "checkPassword got a = (if got = [] then False else Sum256 got = au_pwHash a)"

definition checkPasswordAgainst :: "string \<Rightarrow> string \<Rightarrow> bool" where
  "checkPasswordAgainst got want = (if got = [] \<or> want = [] then False else Sum256 got = Sum256 want)"

section \<open>Failed logins\<close>

text \<open>A missing entry of the map reads as the empty slice.\<close>

definition failures_of :: "string \<Rightarrow> authState \<Rightarrow> time list" where
  "failures_of ip a = (case au_failures a ip of None \<Rightarrow> [] | Some ts \<Rightarrow> ts)"

definition recentFailuresLocked :: "time \<Rightarrow> string \<Rightarrow> authState \<Rightarrow> authState \<times> time list" where
  "recentFailuresLocked now ip a =
     (let cutoff = now - loginWindow;
          kept = filter (\<lambda>t. cutoff < t) (failures_of ip a)
      in if kept = [] then (a\<lparr>au_failures := (au_failures a)(ip := None)\<rparr>, [])
         else (a\<lparr>au_failures := (au_failures a)(ip \<mapsto> kept)\<rparr>, kept))"

definition loginAllowed :: "time \<Rightarrow> string \<Rightarrow> authState \<Rightarrow> authState \<times> bool" where
  "loginAllowed now ip a =
     (case recentFailuresLocked now ip a of (a', kept) \<Rightarrow> (a', length kept < maxLoginAttempts))"

definition recordFailure :: "time \<Rightarrow> string \<Rightarrow> authState \<Rightarrow> authState" where
  "recordFailure now ip a =
     (case recentFailuresLocked now ip a of
        (a', kept) \<Rightarrow> a'\<lparr>au_failures := (au_failures a')(ip \<mapsto> kept @ [now])\<rparr>)"

definition recordSuccess :: "string \<Rightarrow> authState \<Rightarrow> authState" where
  "recordSuccess ip a = a\<lparr>au_failures := (au_failures a)(ip := None)\<rparr>"

section \<open>Sessions\<close>

text \<open>\<open>newToken\<close> of the 32 random bytes, or of a failing random source.\<close>

definition newToken :: "bytes option \<Rightarrow> string option" where
  "newToken rnd = map_option RawURLEncode rnd"

definition createSession ::
    "bytes option \<Rightarrow> bytes option \<Rightarrow> time \<Rightarrow> authState \<Rightarrow> authState \<times> (string \<times> string) option" where
  "createSession rnd1 rnd2 now a =
     (case newToken rnd1 of
        None \<Rightarrow> (a, None)
      | Some ident \<Rightarrow>
          (case newToken rnd2 of
             None \<Rightarrow> (a, None)
           | Some csrf \<Rightarrow>
               (a\<lparr>au_sessions := (au_sessions a)(ident \<mapsto> \<lparr>se_csrf = csrf, se_expires = now + au_ttl a\<rparr>)\<rparr>,
                Some (ident, csrf))))"

definition auth_lookup :: "time \<Rightarrow> string \<Rightarrow> authState \<Rightarrow> authState \<times> session option" where
  "auth_lookup now ident a =
     (case au_sessions a ident of
        None \<Rightarrow> (a, None)
      | Some s \<Rightarrow>
          if now > se_expires s then (a\<lparr>au_sessions := (au_sessions a)(ident := None)\<rparr>, None)
          else (a, Some s))"

definition destroy :: "string \<Rightarrow> authState \<Rightarrow> authState" where
  "destroy ident a = a\<lparr>au_sessions := (au_sessions a)(ident := None)\<rparr>"

definition checkCSRF :: "session \<Rightarrow> string \<Rightarrow> bool" where
  "checkCSRF sess got = (Sum256 (se_csrf sess) = Sum256 got)"

section \<open>Client addresses\<close>

text \<open>\<open>net.SplitHostPort\<close>, as far as the host; \<^const>\<open>None\<close> is an error.\<close>

definition before_last :: "char \<Rightarrow> string \<Rightarrow> string" where
  "before_last c s = rev (tl (dropWhile (\<lambda>x. x \<noteq> c) (rev s)))"

definition SplitHost :: "string \<Rightarrow> string option" where
  "SplitHost hp =
     (if CHR '':'' \<notin> set hp then None
      else if hd hp = CHR ''['' then
        (if CHR '']'' \<notin> set hp then None
         else (let inner = takeWhile (\<lambda>c. c \<noteq> CHR '']'') (tl hp);
                   rest = tl (dropWhile (\<lambda>c. c \<noteq> CHR '']'') hp)
               in if rest = [] \<or> hd rest \<noteq> CHR '':'' \<or> CHR '':'' \<in> set (tl rest) then None
                  else if CHR ''['' \<in> set (tl hp) \<or> CHR '']'' \<in> set rest then None
                  else Some inner))
      else (let host = before_last CHR '':'' hp
            in if CHR '':'' \<in> set host \<or> CHR ''['' \<in> set hp \<or> CHR '']'' \<in> set hp then None else Some host))"

definition clientIP :: "string \<Rightarrow> string" where
  "clientIP remoteAddr = (case SplitHost remoteAddr of None \<Rightarrow> remoteAddr | Some host \<Rightarrow> host)"

section \<open>Cookies\<close>

record session_cookie =
  sk_Name :: string
  sk_Value :: string
  sk_Path :: string
  sk_HttpOnly :: bool
  sk_SameSiteStrict :: bool
  sk_MaxAge :: int

definition setSessionCookie :: "string \<Rightarrow> session_cookie" where
  "setSessionCookie ident = \<lparr>sk_Name = sessionCookieName, sk_Value = ident, sk_Path = ''/'', sk_HttpOnly = True,
     sk_SameSiteStrict = True, sk_MaxAge = sessionTTL div second\<rparr>"

definition clearSessionCookie :: session_cookie where
  "clearSessionCookie = \<lparr>sk_Name = sessionCookieName, sk_Value = [], sk_Path = ''/'', sk_HttpOnly = True,
     sk_SameSiteStrict = True, sk_MaxAge = - 1\<rparr>"

section \<open>The login limit\<close>

lemma failures_of_upd [simp]:
  "failures_of ip (a\<lparr>au_failures := (au_failures a)(ip' \<mapsto> ts)\<rparr>) = (if ip = ip' then ts else failures_of ip a)"
  "failures_of ip (a\<lparr>au_failures := (au_failures a)(ip' := None)\<rparr>) = (if ip = ip' then [] else failures_of ip a)"
  by (simp_all add: failures_of_def)

lemma recentFailures_kept:
  "snd (recentFailuresLocked now ip a) = filter (\<lambda>t. now - loginWindow < t) (failures_of ip a)"
  "failures_of ip' (fst (recentFailuresLocked now ip a)) =
     (if ip' = ip then filter (\<lambda>t. now - loginWindow < t) (failures_of ip a) else failures_of ip' a)"
  by (auto simp: recentFailuresLocked_def Let_def)

text \<open>The failures that count at a moment.\<close>

abbreviation recent :: "time \<Rightarrow> time list \<Rightarrow> time list" where
  "recent now ts \<equiv> filter (\<lambda>t. now - loginWindow < t) ts"

lemma loginAllowed_recent: "snd (loginAllowed now ip a) = (length (recent now (failures_of ip a)) < maxLoginAttempts)"
  by (simp add: loginAllowed_def recentFailures_kept case_prod_unfold)

lemma login_failures:
  "failures_of ip' (fst (loginAllowed now ip a)) =
     (if ip' = ip then recent now (failures_of ip a) else failures_of ip' a)"
  "failures_of ip' (recordFailure now ip a) =
     (if ip' = ip then recent now (failures_of ip a) @ [now] else failures_of ip' a)"
  "failures_of ip' (recordSuccess ip a) = (if ip' = ip then [] else failures_of ip' a)"
  by (simp_all add: loginAllowed_def recentFailures_kept case_prod_unfold recordFailure_def recordSuccess_def)

text \<open>
  The login handler of \<open>server.go\<close> takes the lock of the counters twice: once for the check, and after
  it has looked at the password a second time for the record. Handlers of several requests run at the same time,
  so these sections of different attempts interleave. A state is the counters and, for each address,
  the number of its attempts in flight: those that passed the check and have not made their record. A
  record is only made by an attempt in flight.
\<close>

datatype login_section = SecCheck string | SecFail string | SecSuccess string

fun section_ip :: "login_section \<Rightarrow> string" where
  "section_ip (SecCheck ip) = ip"
| "section_ip (SecFail ip) = ip"
| "section_ip (SecSuccess ip) = ip"

type_synonym login_state = "authState \<times> (string \<Rightarrow> nat)"

fun section_step :: "time \<Rightarrow> login_section \<Rightarrow> login_state \<Rightarrow> login_state option" where
  "section_step now (SecCheck ip) (a, p) =
     (case loginAllowed now ip a of
        (a', ok) \<Rightarrow> Some (a', if ok then p(ip := p ip + 1) else p))"
| "section_step now (SecFail ip) (a, p) =
     (if p ip = 0 then None else Some (recordFailure now ip a, p(ip := p ip - 1)))"
| "section_step now (SecSuccess ip) (a, p) =
     (if p ip = 0 then None else Some (recordSuccess ip a, p(ip := p ip - 1)))"

text \<open>
  The runs of the service with at most \<open>k\<close> attempts of an address in flight at once, the last section first;
  a section reads the clock under the lock, so the moments are in order. With \<open>k = 1\<close> the attempts of an
  address are served one after another.
\<close>

inductive login_run :: "nat \<Rightarrow> string \<Rightarrow> (time \<times> login_section) list \<Rightarrow> login_state \<Rightarrow> bool"
  for k :: nat and pw :: string where
  login_start: "login_run k pw [] (newAuthState pw, \<lambda>_. 0)"
| login_next: "login_run k pw h st \<Longrightarrow> \<forall>e \<in> set h. fst e \<le> now \<Longrightarrow> section_step now c st = Some st'
    \<Longrightarrow> snd st' (section_ip c) \<le> k \<Longrightarrow> login_run k pw ((now, c) # h) st'"

text \<open>The moments of the recorded failures of an address since its last accepted login.\<close>

fun failed_since :: "string \<Rightarrow> (time \<times> login_section) list \<Rightarrow> time list" where
  "failed_since ip [] = []"
| "failed_since ip ((now, c) # h) =
     (case c of
        SecFail ip' \<Rightarrow> if ip' = ip then failed_since ip h @ [now] else failed_since ip h
      | SecSuccess ip' \<Rightarrow> if ip' = ip then [] else failed_since ip h
      | SecCheck _ \<Rightarrow> failed_since ip h)"

definition counts :: "nat \<Rightarrow> string \<Rightarrow> time \<Rightarrow> time list \<Rightarrow> login_state \<Rightarrow> bool" where
  "counts k ip now fs st \<longleftrightarrow>
     (\<forall>c \<ge> now - loginWindow. filter (\<lambda>t. c < t) (failures_of ip (fst st)) = filter (\<lambda>t. c < t) fs)
     \<and> (\<forall>t \<in> set fs. t \<le> now)
     \<and> (0 < snd st ip \<longrightarrow> length (recent now fs) + snd st ip \<le> 4 + k)
     \<and> (\<forall>t. length (filter (\<lambda>x. t - loginWindow < x \<and> x \<le> t) fs) \<le> 4 + k)"

lemma recent_later: "t \<le> now \<Longrightarrow> length (recent now fs) \<le> length (recent t fs)"
  by (induction fs) auto

lemma counts_later: "counts k ip t fs st \<Longrightarrow> t \<le> now \<Longrightarrow> counts k ip now fs st"
  using recent_later [of t now fs] by (auto simp: counts_def)

lemma recent_recent: "now - loginWindow \<le> c \<Longrightarrow> filter (\<lambda>x. now - loginWindow < x \<and> c < x) fs = filter ((<) c) fs"
  by (rule filter_cong) auto

lemma window_snoc:
  assumes "\<forall>t \<in> set fs. t \<le> now" "length (recent now fs) < n"
    and "\<forall>t. length (filter (\<lambda>x. t - loginWindow < x \<and> x \<le> t) fs) \<le> n"
  shows "length (filter (\<lambda>x. t - loginWindow < x \<and> x \<le> t) (fs @ [now])) \<le> n"
proof (cases "t - loginWindow < now \<and> now \<le> t")
  case True
  have "length (filter (\<lambda>x. t - loginWindow < x \<and> x \<le> t) fs) \<le> length (recent now fs)"
    using True by (induction fs) auto
  then show ?thesis using True assms(2) by simp
next
  case False
  have "length (filter (\<lambda>x. t - loginWindow < x \<and> x \<le> t) fs) \<le> n" using assms(3) by blast
  then show ?thesis using False by auto
qed

lemma section_step_check:
  "section_step now (SecCheck ip) (a, p) = Some (fst (loginAllowed now ip a),
     if length (recent now (failures_of ip a)) < 5 then p(ip := p ip + 1) else p)"
  using loginAllowed_recent [of now ip a] by (simp add: case_prod_unfold maxLoginAttempts_def)

text \<open>Each section keeps the counters in step with the history.\<close>

lemma counts_check:
  assumes "counts k ip now fs (a, p)" "section_step now (SecCheck ip) (a, p) = Some st'" "snd st' ip \<le> k"
  shows "counts k ip now fs st'"
proof -
  have r: "recent now (failures_of ip a) = recent now fs" using assms(1) by (simp add: counts_def)
  have st': "st' = (fst (loginAllowed now ip a), if length (recent now fs) < 5 then p(ip := p ip + 1) else p)"
    using assms(2) r by (simp add: section_step_check del: section_step.simps)
  show ?thesis using assms(1,3) r by (auto simp: counts_def st' login_failures recent_recent)
qed

lemma counts_fail:
  assumes "counts k ip now fs (a, p)" "section_step now (SecFail ip) (a, p) = Some st'"
  shows "counts k ip now (fs @ [now]) st'"
proof -
  have p: "0 < p ip" and st': "st' = (recordFailure now ip a, p(ip := p ip - 1))"
    using assms(2) by (auto split: if_splits)
  have c: "recent now (failures_of ip a) = recent now fs" "length (recent now fs) + p ip \<le> 4 + k"
    using assms(1) p by (auto simp: counts_def)
  then have "length (filter (\<lambda>x. t - loginWindow < x \<and> x \<le> t) (fs @ [now])) \<le> 4 + k" for t
    using window_snoc [of fs now "4 + k"] assms(1) p unfolding counts_def by simp
  then show ?thesis using assms(1) p c
    by (auto simp: counts_def st' login_failures recent_recent)
qed

lemma counts_success:
  assumes "counts k ip now fs (a, p)" "section_step now (SecSuccess ip) (a, p) = Some st'" "p ip \<le> k"
  shows "counts k ip now [] st'"
  using assms by (auto simp: counts_def login_failures split: if_splits)

lemma counts_other:
  assumes "counts k ip now fs (a, p)" "section_step now c (a, p) = Some st'" "section_ip c \<noteq> ip"
  shows "counts k ip now fs st'"
proof (cases c)
  case (SecCheck ip')
  then show ?thesis using assms
    by (auto simp: counts_def login_failures section_step_check simp del: section_step.simps(1) split: if_splits)
qed (use assms in \<open>auto simp: counts_def login_failures split: if_splits\<close>)

lemma login_run_counts:
  assumes "login_run k pw h st"
  shows "(\<forall>now. (\<forall>e \<in> set h. fst e \<le> now) \<longrightarrow> counts k ip now (failed_since ip h) st) \<and> snd st ip \<le> k"
  using assms
proof (induction rule: login_run.induct)
  case login_start
  show ?case by (simp add: counts_def newAuthState_def failures_of_def)
next
  case (login_next h st t c st')
  obtain a p where st: "st = (a, p)" by (cases st)
  have k: "snd st ip \<le> k" and t: "counts k ip t (failed_since ip h) (a, p)"
    using login_next.IH login_next.hyps(2) st by blast+
  have "counts k ip t (failed_since ip ((t, c) # h)) st'"
  proof (cases "section_ip c = ip")
    case True
    then show ?thesis
      using counts_check [OF t, of st'] counts_fail [OF t, of st'] counts_success [OF t, of st'] login_next.hyps(3,4) k st
      by (cases c) auto
  next
    case False
    then show ?thesis using counts_other [OF t _ False] login_next.hyps(3) st by (cases c) auto
  qed
  moreover have "snd st' ip \<le> k"
    using login_next.hyps(3,4) k st by (cases c) (auto split: if_splits prod.splits)
  ultimately show ?case by (auto intro: counts_later)
qed

text \<open>
  C23: the login limit. The sections of the login handlers of several requests interleave, with at most
  \<open>k\<close> attempts of an address between their check and their record at once. Whatever the
  interleaving, in any window of a minute at most \<open>4 + k\<close> failed attempts of an address are
  recorded since its last accepted login, so at most five when its attempts come one after another; and an
  attempt is let through to the password exactly when fewer than five failures since the last
  accepted login lie in the last minute. An accepted login clears the counter, as the code means it to,
  and attempts from other addresses make no difference.
\<close>

theorem login_limit:
  assumes "login_run k pw h (a, p)" "\<forall>e \<in> set h. fst e \<le> now"
  shows "length (filter (\<lambda>x. t - loginWindow < x \<and> x \<le> t) (failed_since ip h)) \<le> 4 + k
    \<and> snd (loginAllowed now ip a) = (length (filter (\<lambda>x. now - loginWindow < x) (failed_since ip h)) < 5)"
  using login_run_counts [OF assms(1), of ip] assms(2)
  by (simp add: counts_def loginAllowed_recent maxLoginAttempts_def)

text \<open>
  Two attempts that are checked before either is recorded: the minute has six failures. The seventh attempt is
  turned away, and let through again when the minute is over.
\<close>

definition demo_attempts :: "(time \<times> login_section) list" where
  "demo_attempts = map (\<lambda>(t, c). (t * second, c ''10.0.0.7''))
     [(6, SecFail), (6, SecFail), (5, SecCheck), (5, SecCheck), (4, SecFail), (4, SecCheck),
      (3, SecFail), (3, SecCheck), (2, SecFail), (2, SecCheck), (1, SecFail), (1, SecCheck)]"

lemmas section_simps = second_def loginWindow_def maxLoginAttempts_def Let_def failures_of_def newAuthState_def
  loginAllowed_def recentFailuresLocked_def recordFailure_def

lemma demo_attempts_run: "\<exists>a p. login_run 2 ''pw'' demo_attempts (a, p)"
  unfolding demo_attempts_def list.map prod.case
  by (intro exI, (rule login_next login_start | simp add: section_simps)+)

theorem login_limit_witness:
  "\<exists>a p. login_run 2 ''pw'' demo_attempts (a, p)
     \<and> length (filter (\<lambda>x. 6 * second - loginWindow < x \<and> x \<le> 6 * second) (failed_since ''10.0.0.7'' demo_attempts)) = 6
     \<and> \<not> snd (loginAllowed (7 * second) ''10.0.0.7'' a) \<and> snd (loginAllowed (67 * second) ''10.0.0.7'' a)"
proof -
  obtain a p where r: "login_run 2 ''pw'' demo_attempts (a, p)" using demo_attempts_run by blast
  have "\<forall>e \<in> set demo_attempts. fst e \<le> 7 * second" "\<forall>e \<in> set demo_attempts. fst e \<le> 67 * second"
    by (simp_all add: demo_attempts_def second_def)
  then show ?thesis
    using r login_limit [OF r, of "7 * second" "6 * second" "''10.0.0.7''"] login_limit [OF r, of "67 * second" 0 "''10.0.0.7''"]
    by (intro exI [of _ a] exI [of _ p]) (simp add: demo_attempts_def second_def loginWindow_def)
qed

section \<open>The life of a session\<close>

datatype auth_op =
    OpCheck string
  | OpFail string
  | OpSuccess string
  | OpCreate "bytes option" "bytes option"
  | OpLookup string
  | OpDestroy string

fun auth_step :: "time \<Rightarrow> auth_op \<Rightarrow> authState \<Rightarrow> authState" where
  "auth_step now (OpCheck ip) a = fst (loginAllowed now ip a)"
| "auth_step now (OpFail ip) a = recordFailure now ip a"
| "auth_step now (OpSuccess ip) a = recordSuccess ip a"
| "auth_step now (OpCreate r1 r2) a = fst (createSession r1 r2 now a)"
| "auth_step now (OpLookup i) a = fst (auth_lookup now i a)"
| "auth_step now (OpDestroy i) a = destroy i a"

text \<open>A history of operations, and what it says of a session: the last creation, unless it was destroyed.\<close>

fun run_auth :: "(time \<times> auth_op) list \<Rightarrow> authState \<Rightarrow> authState" where
  "run_auth [] a = a"
| "run_auth ((now, c) # h) a = run_auth h (auth_step now c a)"

fun session_step :: "string \<Rightarrow> time \<Rightarrow> auth_op \<Rightarrow> session option \<Rightarrow> session option" where
  "session_step i now (OpCreate (Some r1) (Some r2)) s =
     (if RawURLEncode r1 = i then Some \<lparr>se_csrf = RawURLEncode r2, se_expires = now + sessionTTL\<rparr> else s)"
| "session_step i now (OpDestroy j) s = (if j = i then None else s)"
| "session_step i now c s = s"

fun session_spec :: "string \<Rightarrow> (time \<times> auth_op) list \<Rightarrow> session option \<Rightarrow> session option" where
  "session_spec i [] s = s"
| "session_spec i ((now, c) # h) s = session_spec i h (session_step i now c s)"

definition live :: "time \<Rightarrow> session option \<Rightarrow> session option" where
  "live now s = (case s of None \<Rightarrow> None | Some x \<Rightarrow> if now > se_expires x then None else Some x)"

lemma auth_lookup_live: "snd (auth_lookup now i a) = live now (au_sessions a i)"
  by (simp add: auth_lookup_def live_def split: option.split)

lemma login_sections_sessions [simp]:
  "au_sessions (fst (loginAllowed now ip a)) = au_sessions a" "au_ttl (fst (loginAllowed now ip a)) = au_ttl a"
  "au_sessions (recordFailure now ip a) = au_sessions a" "au_ttl (recordFailure now ip a) = au_ttl a"
  "au_sessions (recordSuccess ip a) = au_sessions a" "au_ttl (recordSuccess ip a) = au_ttl a"
  by (simp_all add: loginAllowed_def recentFailuresLocked_def recordFailure_def recordSuccess_def Let_def
      case_prod_unfold split: bool.split)

lemma auth_step_ttl: "au_ttl (auth_step now c a) = au_ttl a"
  by (cases c) (auto simp: createSession_def auth_lookup_def destroy_def
      split: option.splits)

text \<open>A session that is in force from the moment of a step on is exactly what the step says.\<close>

lemma auth_step_session:
  assumes "au_ttl a = sessionTTL" "t \<le> now" "\<And>u. t \<le> u \<Longrightarrow> live u (au_sessions a i) = live u s" "now \<le> u"
  shows "live u (au_sessions (auth_step now c a) i) = live u (session_step i now c s)"
proof -
  have s: "live u (au_sessions a i) = live u s" using assms(2,3,4) by simp
  show ?thesis
  proof (cases c)
    case (OpCreate r1 r2)
    then show ?thesis using s assms(1)
      by (cases r1; cases r2) (auto simp: createSession_def newToken_def)
  next
    case (OpLookup j)
    then show ?thesis using s assms(4) by (auto simp: auth_lookup_def live_def split: option.splits)
  qed (use s in \<open>simp_all add: destroy_def live_def\<close>)
qed

lemma run_auth_session:
  assumes "au_ttl a = sessionTTL" "\<And>u. t \<le> u \<Longrightarrow> live u (au_sessions a i) = live u s"
    and "sorted (map fst h)" "\<forall>e \<in> set h. t \<le> fst e \<and> fst e \<le> now" "t \<le> now"
  shows "live now (au_sessions (run_auth h a) i) = live now (session_spec i h s)"
  using assms
proof (induction h a arbitrary: s t rule: run_auth.induct)
  case (2 now' c h a)
  have t: "t \<le> now'" using "2.prems"(4) by simp
  have "live u (au_sessions (auth_step now' c a) i) = live u (session_step i now' c s)" if "now' \<le> u" for u
    by (rule auth_step_session [OF "2.prems"(1) t "2.prems"(2) that])
  then show ?case
    using "2.IH" [of now' "session_step i now' c s"] "2.prems" by (simp add: auth_step_ttl)
qed simp

text \<open>
  A session is accepted exactly while it lives. After any history of login checks and records, session
  creations, lookups and logouts in the order of time, a session identifier is accepted if
  and only if it was issued, was not destroyed since, and its thirty minutes are not over; it
  then carries the CSRF token issued with it. Dropping expired sessions on lookup is never
  observable.
\<close>

theorem session_lifetime:
  assumes "sorted (map fst h)" "\<forall>e \<in> set h. fst e \<le> now"
  shows "snd (auth_lookup now i (run_auth h (newAuthState pw))) =
    (case session_spec i h None of
       None \<Rightarrow> None | Some s \<Rightarrow> if now \<le> se_expires s then Some s else None)"
proof -
  have n: "au_ttl (newAuthState pw) = sessionTTL" "au_sessions (newAuthState pw) i = None"
    by (simp_all add: newAuthState_def)
  have "live now (au_sessions (run_auth h (newAuthState pw)) i) = live now (session_spec i h None)"
  proof (cases h)
    case (Cons e h')
    then show ?thesis
      using run_auth_session [of "newAuthState pw" "fst e" i None h now] n assms by auto
  qed (simp add: n)
  then show ?thesis by (simp add: auth_lookup_live live_def not_less split: option.split)
qed

theorem session_lifetime_witness:
  "snd (auth_lookup (5 * second) (RawURLEncode ''id'') (run_auth [(0, OpCreate (Some ''id'') (Some ''csrf''))] (newAuthState ''pw'')))
     = Some \<lparr>se_csrf = RawURLEncode ''csrf'', se_expires = sessionTTL\<rparr>"
  using session_lifetime [of "[(0, OpCreate (Some ''id'') (Some ''csrf''))]" "5 * second" "RawURLEncode ''id''" "''pw''"]
  by (simp add: second_def sessionTTL_def)

end
