(* ===== verification/Admin_Config.thy ===== *)
theory Admin_Config
  imports Admin_Store
begin

text \<open>
  The start of the admin service: the package \<open>internal/sftpadmin\<close>, file \<open>config.go\<close> (its own
  configuration, the first shared configuration and the permissions of its directory), and
  the seeding of the first user in \<open>cmd/sftp-admin/main.go\<close>.
\<close>

section \<open>Configuration\<close>

definition DefaultUsersFile :: string where
  "DefaultUsersFile = ''/var/lib/sftp-users/users.json''"

definition DefaultAddr :: string where
  "DefaultAddr = '':8080''"

definition DefaultAdminLinksDir :: string where
  "DefaultAdminLinksDir = ''/var/lib/file-links''"

record AdminConfig =
  ac_Password :: string
  ac_Addr :: string
  ac_UsersFile :: string
  ac_SeedUser :: string
  ac_SeedPubKey :: string
  ac_SharedPath :: string
  ac_LinksDir :: string

datatype admin_config_error =
    SharedPathRelative
  | PasswordRequired
  | SeedIncomplete
  | SeedUsername username_error
  | SeedKey key_error
  | BadGID
  | PermissionIO ioerr
  | SaveFailed shared_error

definition listen_addr :: "string \<Rightarrow> string" where
  "listen_addr a = (if a = [] then DefaultAddr else if CHR '':'' \<notin> set a then '':'' @ a else a)"

definition LoadConfig :: "io_env \<Rightarrow> cfs \<Rightarrow> (string \<Rightarrow> string) \<Rightarrow> (admin_config_error, AdminConfig) result" where
  "LoadConfig io fs getenv =
     (let cfg = \<lparr>ac_Password = getenv ''SFTP_ADMIN_PASSWORD'', ac_Addr = getenv ''PORT'',
                 ac_UsersFile = getenv ''SFTP_USERS_FILE'', ac_SeedUser = getenv ''SFTP_SEED_USER'',
                 ac_SeedPubKey = getenv ''SFTP_SEED_PUBKEY'', ac_SharedPath = getenv ''SHARED_CONFIG_PATH'',
                 ac_LinksDir = getenv ''LINKS_DIR''\<rparr>;
          cfg = cfg\<lparr>ac_SharedPath := or_default (ac_SharedPath cfg) DefaultSharedConfigPath\<rparr>
      in
      bind_res (ensure (IsAbs (ac_SharedPath cfg)) SharedPathRelative) (\<lambda>_.
      let cfg = cfg\<lparr>ac_LinksDir := or_default (ac_LinksDir cfg) DefaultAdminLinksDir\<rparr> in
      bind_res (ensure (ac_Password cfg \<noteq> [] \<or>
          (case LoadShared io fs (ac_SharedPath cfg) of Inl _ \<Rightarrow> False | Inr sc \<Rightarrow> sc_SftpAdminPassword sc \<noteq> []))
        PasswordRequired) (\<lambda>_.
      let cfg = cfg\<lparr>ac_Addr := listen_addr (ac_Addr cfg)\<rparr>;
          cfg = cfg\<lparr>ac_UsersFile := or_default (ac_UsersFile cfg) DefaultUsersFile\<rparr>
      in
      bind_res (ensure ((ac_SeedUser cfg = []) = (ac_SeedPubKey cfg = [])) SeedIncomplete) (\<lambda>_.
      if ac_SeedUser cfg = [] then Inr cfg
      else
        bind_res (clear (map_option SeedUsername (ValidateUsername (ac_SeedUser cfg)))) (\<lambda>_.
        bind_res (map_err SeedKey (ValidatePublicKey (ac_SeedPubKey cfg))) (\<lambda>_.
        Inr cfg))))))"

section \<open>Permissions of the shared configuration\<close>

text \<open>
  The mode a call of \<open>os.Chmod\<close> asks the system for. A file mode of the library has the nine permission
  bits in place, and setuid, setgid and sticky as the bits 23, 22 and 20; the bits 9 to 11, where the system
  has the three, are ignored.
\<close>

definition syscallMode :: "nat \<Rightarrow> nat" where
  "syscallMode m = m mod 512 + (if bit m 23 then 2048 else 0) + (if bit m 22 then 1024 else 0)
     + (if bit m 20 then 512 else 0)"

lemma syscallMode_used [simp]: "syscallMode 1528 = 504" "syscallMode 416 = 416"
  by (simp_all add: syscallMode_def bit_iff_odd)

text \<open>
  Directories have a mode and a group; a new one gets the attributes the system gives it.
  The record lists the faults of the calls in their order and the attributes of a new directory.
\<close>

record dirattr =
  da_mode :: nat
  da_gid :: int

record prep_env =
  pe_mkdir :: "ioerr option"
  pe_chown_dir :: "ioerr option"
  pe_chmod_dir :: "ioerr option"
  pe_stat :: "ioerr option"
  pe_chown_file :: "ioerr option"
  pe_chmod_file :: "ioerr option"
  pe_stat_again :: "ioerr option"
  pe_newdir :: dirattr

type_synonym dirs = "string \<rightharpoonup> dirattr"

definition stat_file :: "ioerr option \<Rightarrow> cfs \<Rightarrow> string \<Rightarrow> ioerr option" where
  "stat_file fault fs p = (case fault of Some e \<Rightarrow> Some e | None \<Rightarrow> if fs p = None then Some ENotExist else None)"

definition mkdir_all :: "prep_env \<Rightarrow> string \<Rightarrow> dirs \<Rightarrow> dirs" where
  "mkdir_all pe d ds = (if ds d = None then ds(d \<mapsto> pe_newdir pe) else ds)"

definition map_dir :: "(dirattr \<Rightarrow> dirattr) \<Rightarrow> string \<Rightarrow> dirs \<Rightarrow> dirs" where
  "map_dir f d ds = ds(d := map_option f (ds d))"

definition prepareSharedPermissions ::
    "prep_env \<Rightarrow> string \<Rightarrow> string \<Rightarrow> dirs \<times> cfs \<Rightarrow> (dirs \<times> cfs) \<times> admin_config_error option" where
  "prepareSharedPermissions pe filePath gidText st =
     (case st of (ds, fs) \<Rightarrow>
      let dir = Dir filePath in
      case pe_mkdir pe of
        Some e \<Rightarrow> (st, Some (PermissionIO e))
      | None \<Rightarrow>
     (let ds = mkdir_all pe dir ds;
          chowned = (if gidText = [] then Inr ds
             else (case Atoi gidText of
                     None \<Rightarrow> Inl BadGID
                   | Some gid \<Rightarrow>
                       if gid < 0 then Inl BadGID
                       else (case pe_chown_dir pe of
                               Some e \<Rightarrow> Inl (PermissionIO e)
                             | None \<Rightarrow> Inr (map_dir (da_gid_update (\<lambda>_. gid)) dir ds))))
      in case chowned of
        Inl e \<Rightarrow> ((ds, fs), Some e)
      | Inr ds \<Rightarrow>
     (case pe_chmod_dir pe of
        Some e \<Rightarrow> ((ds, fs), Some (PermissionIO e))
      | None \<Rightarrow>
     (let ds = map_dir (da_mode_update (\<lambda>_. syscallMode 1528)) dir ds in
      case stat_file (pe_stat pe) fs filePath of
        Some e \<Rightarrow> ((ds, fs), if IsNotExist e then None else Some (PermissionIO e))
      | None \<Rightarrow>
     (let chowned = (if gidText = [] then Inr fs
             else (case pe_chown_file pe of
                     Some e \<Rightarrow> Inl (PermissionIO e)
                   | None \<Rightarrow> Inr (set_gid filePath (case Atoi gidText of None \<Rightarrow> 0 | Some g \<Rightarrow> g) fs)))
      in case chowned of
        Inl e \<Rightarrow> ((ds, fs), Some e)
      | Inr fs \<Rightarrow>
     (case pe_chmod_file pe of
        Some e \<Rightarrow> ((ds, fs), Some (PermissionIO e))
      | None \<Rightarrow> ((ds, set_mode filePath (syscallMode 416) fs), None)))))))"

definition seed_shared :: "(string \<Rightarrow> string) \<Rightarrow> SharedConfig" where
  "seed_shared getenv =
     (let port = or_default (getenv ''PORT'') ''8080''
      in \<lparr>sc_HashAlgorithm = or_default (getenv ''HASH_ALGORITHM'') ''md5'',
          sc_HashTarget = or_default (getenv ''HASH_TARGET'') ''file'',
          sc_PublicURL = or_default (getenv ''PUBLIC_URL'') (''http://localhost:'' @ port),
          sc_AdminToken = getenv ''ADMIN_TOKEN'',
          sc_SftpAdminPassword = getenv ''SFTP_ADMIN_PASSWORD''\<rparr>)"

text \<open>The states of the control files, the directories at the end, and the error.\<close>

definition SeedSharedConfig ::
    "prep_env \<Rightarrow> io_env \<Rightarrow> string \<Rightarrow> (string \<Rightarrow> string) \<Rightarrow> dirs \<times> cfs \<Rightarrow> dirs \<times> cfs list \<times> admin_config_error option" where
  "SeedSharedConfig pe io path getenv st =
     (case prepareSharedPermissions pe path (getenv ''WEB_GID'') st of
        ((ds, fs), Some e) \<Rightarrow> (ds, [fs], Some e)
      | ((ds, fs), None) \<Rightarrow>
          (case stat_file (pe_stat_again pe) fs path of
             None \<Rightarrow> (ds, [fs], None)
           | Some e \<Rightarrow>
               if \<not> IsNotExist e then (ds, [fs], Some (PermissionIO e))
               else (case shared_Save io path (seed_shared getenv) fs of
                       (tr, r) \<Rightarrow> (ds, tr, map_option SaveFailed r))))"

section \<open>The first user\<close>

definition seed_mutation :: "AdminConfig \<Rightarrow> string \<Rightarrow> Manifest \<Rightarrow> (admin_error, Manifest) result" where
  "seed_mutation cfg pub m =
     Inr (m\<lparr>mf_Users := mf_Users m @ [\<lparr>us_Username = ac_SeedUser cfg, us_Enabled = True, us_Keys = [pub]\<rparr>]\<rparr>)"

text \<open>The \<open>Store\<close> of the admin service is the path of its manifest.\<close>

definition seedIfAbsent :: "ioerr option \<Rightarrow> io_env \<Rightarrow> AdminConfig \<Rightarrow> cfs \<Rightarrow> admin_op" where
  "seedIfAbsent fault io cfg fs =
     (if ac_SeedUser cfg = [] then ([fs], None)
      else (case stat_file fault fs (ac_UsersFile cfg) of
              None \<Rightarrow> ([fs], None)
            | Some e \<Rightarrow>
                if \<not> IsNotExist e then ([fs], Some (AIO e))
                else (case ValidatePublicKey (ac_SeedPubKey cfg) of
                        Inl e \<Rightarrow> ([fs], Some (AKey (ac_SeedUser cfg) e))
                      | Inr (pub, _) \<Rightarrow> manifest_Update io (ac_UsersFile cfg) (seed_mutation cfg pub) fs)))"

section \<open>Loading\<close>

definition env_config :: "(string \<Rightarrow> string) \<Rightarrow> AdminConfig" where
  "env_config getenv = \<lparr>ac_Password = getenv ''SFTP_ADMIN_PASSWORD'', ac_Addr = listen_addr (getenv ''PORT''),
     ac_UsersFile = or_default (getenv ''SFTP_USERS_FILE'') DefaultUsersFile, ac_SeedUser = getenv ''SFTP_SEED_USER'',
     ac_SeedPubKey = getenv ''SFTP_SEED_PUBKEY'',
     ac_SharedPath = or_default (getenv ''SHARED_CONFIG_PATH'') DefaultSharedConfigPath,
     ac_LinksDir = or_default (getenv ''LINKS_DIR'') DefaultAdminLinksDir\<rparr>"

lemma LoadConfig_env:
  "LoadConfig io fs getenv =
     (let cfg = env_config getenv in
      if \<not> IsAbs (ac_SharedPath cfg) then Inl SharedPathRelative
      else if \<not> (ac_Password cfg \<noteq> [] \<or>
          (case LoadShared io fs (ac_SharedPath cfg) of Inl _ \<Rightarrow> False | Inr sc \<Rightarrow> sc_SftpAdminPassword sc \<noteq> []))
      then Inl PasswordRequired
      else if (ac_SeedUser cfg = []) \<noteq> (ac_SeedPubKey cfg = []) then Inl SeedIncomplete
      else if ac_SeedUser cfg = [] then Inr cfg
      else (case ValidateUsername (ac_SeedUser cfg) of
              Some e \<Rightarrow> Inl (SeedUsername e)
            | None \<Rightarrow> (case ValidatePublicKey (ac_SeedPubKey cfg) of Inl e \<Rightarrow> Inl (SeedKey e) | Inr _ \<Rightarrow> Inr cfg)))"
  unfolding LoadConfig_def env_config_def Let_def ensure_def
  by (cases "ValidateUsername (getenv ''SFTP_SEED_USER'')"; cases "ValidatePublicKey (getenv ''SFTP_SEED_PUBKEY'')") simp_all

lemma LoadConfig_Inr:
  assumes "LoadConfig io fs getenv = Inr cfg"
  shows "cfg = env_config getenv" "IsAbs (ac_SharedPath cfg)"
    "ac_SeedUser cfg \<noteq> [] \<Longrightarrow> ValidateUsername (ac_SeedUser cfg) = None \<and> valid_key (ac_SeedPubKey cfg)"
  using assms
  by (simp_all add: LoadConfig_env Let_def valid_key_def split: if_split_asm sum.split_asm option.split_asm)

section \<open>Permissions\<close>

lemma prepare_ok:
  assumes "prepareSharedPermissions pe path gidText (ds, fs) = ((ds', fs'), None)"
  shows "map_option da_mode (ds' (Dir path)) = Some 504"
    and "gidText \<noteq> [] \<Longrightarrow> map_option da_gid (ds' (Dir path)) = Atoi gidText"
    and "fs' path = None \<longleftrightarrow> fs path = None"
    and "p \<noteq> path \<Longrightarrow> fs' p = fs p"
    and "fs path = Some f \<Longrightarrow> fs' \<noteq> fs \<Longrightarrow>
           \<exists>f'. fs' path = Some f' \<and> cf_doc f' = cf_doc f \<and> cf_mode f' = 416 \<and> (gidText \<noteq> [] \<longrightarrow> Atoi gidText = Some (cf_gid f'))"
    and "fs path = Some f \<Longrightarrow> pe_stat pe = None \<Longrightarrow>
           \<exists>f'. fs' path = Some f' \<and> cf_doc f' = cf_doc f \<and> cf_mode f' = 416 \<and> (gidText \<noteq> [] \<longrightarrow> Atoi gidText = Some (cf_gid f'))"
  using assms
  by (auto simp: prepareSharedPermissions_def Let_def mkdir_all_def map_dir_def set_mode_def set_gid_def stat_file_def
      split: option.splits if_splits sum.splits)

text \<open>
  C34: the first start writes the shared configuration and later starts never change it.
  When seeding succeeds, the directory has mode 0770 (the octal 2770 of the code asks for setgid
  with a bit the library ignores) and the configured group; if the file
  was there its content is kept and it has mode 0640 and the configured group; if it was not, every
  reader loads exactly the configuration the environment gives, with defaults for what is unset.
\<close>

theorem SeedSharedConfig_first_boot:
  assumes "SeedSharedConfig pe io path getenv (ds, fs) = (ds', tr, None)"
    and "pe_stat pe = None" "pe_stat_again pe = None" "io_tmp io \<noteq> path" "io_read rio path = None"
    and "shared_text (seed_shared getenv)"
  shows "map_option da_mode (ds' (Dir path)) = Some 504
    \<and> (getenv ''WEB_GID'' \<noteq> [] \<longrightarrow> map_option da_gid (ds' (Dir path)) = Atoi (getenv ''WEB_GID''))
    \<and> (case fs path of
         Some f \<Rightarrow> (\<exists>f'. last tr path = Some f' \<and> cf_doc f' = cf_doc f \<and> cf_mode f' = 416
                     \<and> (getenv ''WEB_GID'' \<noteq> [] \<longrightarrow> Atoi (getenv ''WEB_GID'') = Some (cf_gid f')))
       | None \<Rightarrow> LoadShared rio (last tr) path = Inr (seed_shared getenv))"
proof -
  obtain fs1 where prep: "prepareSharedPermissions pe path (getenv ''WEB_GID'') (ds, fs) = ((ds', fs1), None)"
    using assms(1) by (auto simp: SeedSharedConfig_def split: prod.splits option.splits if_splits)
  note p = prepare_ok [OF prep]
  show ?thesis
  proof (cases "fs path")
    case (Some f)
    then have "tr = [fs1]" using assms(1,3) prep p(3) by (auto simp: SeedSharedConfig_def stat_file_def split: if_splits prod.splits)
    then show ?thesis using p(1,2) p(6) [OF Some assms(2)] Some by simp
  next
    case None
    let ?s = "shared_Save io path (seed_shared getenv) fs1"
    have s: "snd ?s = None" "fst ?s = tr"
      using assms(1,3) prep p(3) None by (auto simp: SeedSharedConfig_def stat_file_def IsNotExist_def split: prod.splits)
    note ok = shared_Save_ok [OF s(1)]
    have "LoadShared rio (last tr) path = Inr (seed_shared getenv)"
      using LoadShared_new [OF _ ok(1) assms(6)] shared_file.read_after [OF assms(4) ok(2) assms(5)] ok(3) s(2)
      by (simp add: final_def)
    then show ?thesis using p(1,2) None by simp
  qed
qed

definition demo_env :: "string \<Rightarrow> string" where
  "demo_env k = (if k = ''ADMIN_TOKEN'' then ''tok'' else if k = ''SFTP_ADMIN_PASSWORD'' then ''pw''
     else if k = ''WEB_GID'' then ''2001'' else [])"

definition prep_ok :: prep_env where
  "prep_ok = \<lparr>pe_mkdir = None, pe_chown_dir = None, pe_chmod_dir = None, pe_stat = None, pe_chown_file = None,
     pe_chmod_file = None, pe_stat_again = None, pe_newdir = \<lparr>da_mode = 504, da_gid = 0\<rparr>\<rparr>"

theorem SeedSharedConfig_first_boot_witness:
  "LoadShared io_ok (last (fst (snd (SeedSharedConfig prep_ok io_ok ''/etc/app/config.json'' demo_env (Map.empty, Map.empty)))))
     ''/etc/app/config.json'' = Inr (seed_shared demo_env)"
proof -
  let ?r = "SeedSharedConfig prep_ok io_ok ''/etc/app/config.json'' demo_env (Map.empty, Map.empty)"
  have "snd (snd ?r) = None" "shared_text (seed_shared demo_env)" by code_simp+
  moreover have "pe_stat prep_ok = None" "pe_stat_again prep_ok = None" "io_tmp io_ok \<noteq> ''/etc/app/config.json''"
    "io_read io_ok ''/etc/app/config.json'' = None" by (simp_all add: prep_ok_def io_ok_def)
  moreover have "?r = (fst ?r, fst (snd ?r), snd (snd ?r))" by simp
  ultimately show ?thesis
    using SeedSharedConfig_first_boot [of prep_ok io_ok "''/etc/app/config.json''" demo_env Map.empty Map.empty
        "fst ?r" "fst (snd ?r)" io_ok] by simp
qed

section \<open>The first user\<close>

lemma seed_keeps_text:
  assumes "ValidatePublicKey k = Inr (pub, fp)"
  shows "keeps_text (seed_mutation cfg pub)"
  using canonical_key(2) [OF assms] by (simp add: keeps_text_def seed_mutation_def keys_text_def)

lemma first_load: "io_read io path = None \<Longrightarrow> fs path = None \<Longrightarrow>
    manifest_loadLocked io fs path = Inr \<lparr>mf_Version = 1, mf_Users = []\<rparr>"
  by (simp add: manifest_loadLocked_def ReadFile_def IsNotExist_def ManifestVersion_def)

text \<open>The manifest of a first start.\<close>

definition seed_manifest :: "string \<Rightarrow> string \<Rightarrow> Manifest" where
  "seed_manifest user pub = \<lparr>mf_Version = 1, mf_Users = [\<lparr>us_Username = user, us_Enabled = True, us_Keys = [pub]\<rparr>]\<rparr>"

lemma seed_first_boot:
  assumes "LoadConfig lio lfs getenv = Inr cfg" "ac_SeedUser cfg \<noteq> []" "io_tmp io \<noteq> ac_UsersFile cfg"
    and "io_read rio (ac_UsersFile cfg) = None" "io_read io (ac_UsersFile cfg) = None"
    and "seedIfAbsent None io cfg fs = (tr, err)" and None: "fs (ac_UsersFile cfg) = None"
  shows "case err of
        Some e \<Rightarrow> (\<exists>x. e = AIO x) \<and> (\<forall>st \<in> set tr. st (ac_UsersFile cfg) = None)
      | None \<Rightarrow> (\<exists>pub fp. ValidatePublicKey (ac_SeedPubKey cfg) = Inr (pub, fp)
          \<and> manifest_Load rio (last tr) (ac_UsersFile cfg) = Inr (seed_manifest (ac_SeedUser cfg) pub))"
proof -
  note c = LoadConfig_Inr(3) [OF assms(1,2)]
  obtain pub fp where pub: "ValidatePublicKey (ac_SeedPubKey cfg) = Inr (pub, fp)"
    using c by (auto simp: valid_key_def split: sum.splits)
  let ?m = "seed_manifest (ac_SeedUser cfg) pub"
  let ?w = "write_private io (ac_UsersFile cfg) (manifest_encode ?m) fs"
  have ok: "manifest_ok True ?m" "keys_text ?m"
    using canonical_key [OF pub] c by (simp_all add: seed_manifest_def manifest_ok_def keys_text_def)
  have "seedIfAbsent None io cfg fs = manifest_Update io (ac_UsersFile cfg) (seed_mutation cfg pub) fs"
    using assms(2) None pub by (simp add: seedIfAbsent_def stat_file_def IsNotExist_def)
  also have "\<dots> = manifest_writeLocked io (ac_UsersFile cfg) ?m fs"
    using ok(1) by (simp add: manifest_Update_def first_load [of io "ac_UsersFile cfg" fs, OF assms(5) None] seed_mutation_def seed_manifest_def
        ManifestVersion_def validateManifest_None [symmetric])
  finally have r: "tr = fst ?w" "err = map_option AIO (snd ?w)"
    using assms(6) by (simp_all add: manifest_writeLocked_def split: prod.splits)
  show ?thesis
  proof (cases "snd ?w")
    case w: None
    have "manifest_Load rio (last tr) (ac_UsersFile cfg) = Inr ?m"
      using manifest_Load_new [OF _ ok] private_file.read_after [OF assms(3) w assms(4)] r(1) by (simp add: final_def)
    then show ?thesis using w r(2) pub by simp
  next
    case (Some e)
    then show ?thesis using r None private_file.failed [OF assms(3), of "manifest_encode ?m" fs] by simp
  qed
qed

text \<open>
  The first user is created once. With a configuration that loads, seeding never touches
  a manifest that exists; on a first start it fails only by an I/O error of the write, and
  otherwise every reader then loads a manifest that holds exactly the enabled seed user with
  the canonical form of the key.
\<close>

theorem seedIfAbsent_once:
  assumes "LoadConfig lio lfs getenv = Inr cfg" "ac_SeedUser cfg \<noteq> []" "io_tmp io \<noteq> ac_UsersFile cfg"
    and "io_read rio (ac_UsersFile cfg) = None" "io_read io (ac_UsersFile cfg) = None"
    and "seedIfAbsent None io cfg fs = (tr, err)"
  shows "case fs (ac_UsersFile cfg) of
      Some f \<Rightarrow> tr = [fs] \<and> err = None
    | None \<Rightarrow> (case err of
        Some e \<Rightarrow> (\<exists>x. e = AIO x) \<and> (\<forall>st \<in> set tr. st (ac_UsersFile cfg) = None)
      | None \<Rightarrow> (\<exists>pub fp. ValidatePublicKey (ac_SeedPubKey cfg) = Inr (pub, fp)
          \<and> manifest_Load rio (last tr) (ac_UsersFile cfg) = Inr (seed_manifest (ac_SeedUser cfg) pub)))"
proof (cases "fs (ac_UsersFile cfg)")
  case (Some f)
  then show ?thesis using assms(2,6) by (simp add: seedIfAbsent_def stat_file_def)
next
  case None
  then show ?thesis using seed_first_boot [OF assms] by simp
qed

definition demo_seed_env :: "string \<Rightarrow> string" where
  "demo_seed_env k = (if k = ''SFTP_SEED_USER'' then ''ann'' else if k = ''SFTP_SEED_PUBKEY'' then demo_key
     else if k = ''SFTP_ADMIN_PASSWORD'' then ''pw'' else [])"

definition demo_seed_cfg :: AdminConfig where
  "demo_seed_cfg = \<lparr>ac_Password = ''pw'', ac_Addr = '':8080'', ac_UsersFile = ''/var/lib/sftp-users/users.json'',
     ac_SeedUser = ''ann'', ac_SeedPubKey = demo_key, ac_SharedPath = ''/etc/app/config.json'', ac_LinksDir = ''/var/lib/file-links''\<rparr>"

lemma demo_LoadConfig: "LoadConfig io_ok Map.empty demo_seed_env = Inr demo_seed_cfg"
proof -
  have "ValidateUsername ''ann'' = None" by code_simp
  moreover have "demo_key \<noteq> []" by (simp add: demo_key_def)
  ultimately show ?thesis
    using demo_key_valid
    by (simp add: LoadConfig_def demo_seed_env_def demo_seed_cfg_def or_default_def listen_addr_def DefaultAddr_def
        DefaultUsersFile_def DefaultAdminLinksDir_def DefaultSharedConfigPath_def IsAbs_def demo_key_def Let_def)
qed

lemma demo_seed_run: "snd (seedIfAbsent None io_ok demo_seed_cfg Map.empty) = None"
proof -
  have "snd (write_private io_ok ''/var/lib/sftp-users/users.json'' d Map.empty) = None" for d
    by (simp add: write_private_def io_ok_def run_calls_Cons call_effects)
  moreover have "ValidatePublicKey demo_key = Inr (demo_key, ''SHA256:'' @ fingerprintSHA256 demo_blob)"
    using demo_key_valid by (simp add: demo_key_def)
  moreover have "ac_UsersFile demo_seed_cfg = ''/var/lib/sftp-users/users.json''" by (simp add: demo_seed_cfg_def)
  ultimately have "\<not> (\<exists>x. snd (seedIfAbsent None io_ok demo_seed_cfg Map.empty) = Some (AIO x))"
    by (auto simp: seedIfAbsent_def stat_file_def IsNotExist_def manifest_Update_def manifest_writeLocked_result
        first_load io_ok_def seed_mutation_def Let_def split: sum.splits option.splits)
  moreover have "io_tmp io_ok \<noteq> ac_UsersFile demo_seed_cfg" "io_read io_ok (ac_UsersFile demo_seed_cfg) = None"
    "ac_SeedUser demo_seed_cfg \<noteq> []"
    by (simp_all add: demo_seed_cfg_def io_ok_def)
  ultimately show ?thesis
    using seed_first_boot [OF demo_LoadConfig, of io_ok io_ok Map.empty] by (cases "seedIfAbsent None io_ok demo_seed_cfg Map.empty")
      (auto split: option.splits)
qed

theorem seedIfAbsent_once_witness:
  "manifest_Load io_ok (last (fst (seedIfAbsent None io_ok demo_seed_cfg Map.empty))) ''/var/lib/sftp-users/users.json''
     = Inr (seed_manifest ''ann'' demo_key)"
proof -
  let ?r = "seedIfAbsent None io_ok demo_seed_cfg Map.empty"
  have "ValidatePublicKey demo_key = Inr (demo_key, ''SHA256:'' @ fingerprintSHA256 demo_blob)"
    using demo_key_valid by (simp add: demo_key_def)
  then show ?thesis
    using seedIfAbsent_once [OF demo_LoadConfig, of io_ok io_ok Map.empty "fst ?r" "snd ?r"] demo_seed_run
    by (simp add: demo_seed_cfg_def io_ok_def)
qed

end
