(* ===== verification/Admin_Server.thy ===== *)
theory Admin_Server
  imports Admin_Views Admin_Session Admin_Config
begin

text \<open>
  The package \<open>internal/sftpadmin\<close>, file \<open>server.go\<close>: the HTTP handlers of the admin service. A
  handler is a function of the world it runs in, the request and the server's state; it
  returns the new state, the states of the control files that other processes can observe
  while it runs, and the response. A handler runs to its end before the next one starts; the
  mutations it passes to the manifest are definitions of their own, so that what they do
  to a manifest that has changed in between can be stated as well.
\<close>

section \<open>The world, requests and responses\<close>

text \<open>
  \<open>aw_io i\<close> is what the system calls of the \<open>i\<close>-th write of a handler, and the reads around
  it, meet; \<open>aw_rand i\<close> are the bytes of its \<open>i\<close>-th draw from the random source;
  \<open>aw_keygen\<close> is \<open>ssh-keygen\<close>, \<open>aw_bcrypt\<close> the hashing of one link password.
\<close>

record AdminWorld =
  aw_files :: cfs
  aw_io :: "nat \<Rightarrow> io_env"
  aw_now :: time
  aw_rand :: "nat \<Rightarrow> bytes option"
  aw_keygen :: "string \<Rightarrow> (ioerr, string \<times> string) result"
  aw_bcrypt :: "string \<Rightarrow> string option"

text \<open>A request: the first value of each form field and query parameter that is present.\<close>

record AdminRequest =
  aq_method :: string
  aq_path :: string
  aq_remote :: string
  aq_form :: "string \<Rightarrow> string option"
  aq_query :: "string \<Rightarrow> string option"
  aq_cookie :: "string \<Rightarrow> string option"
  aq_bad_form :: bool

definition FormValue :: "AdminRequest \<Rightarrow> string \<Rightarrow> string" where
  "FormValue r k = (case aq_form r k of None \<Rightarrow> [] | Some v \<Rightarrow> v)"

definition QueryGet :: "AdminRequest \<Rightarrow> string \<Rightarrow> string" where
  "QueryGet r k = (case aq_query r k of None \<Rightarrow> [] | Some v \<Rightarrow> v)"

text \<open>\<open>AAborted\<close>: the handler panicked, and the connection is closed without a response.\<close>

datatype abody =
    ANone
  | AErrorText message
  | AHealth
  | ALoginPage string
  | AUsersPage usersView
  | ASettingsPage settingsView
  | ALinksPage linksView
  | APrivateKey string
  | AAborted

record AdminResponse =
  ar_status :: nat
  ar_body :: abody
  ar_location :: string
  ar_cookie :: "session_cookie option"
  ar_disposition :: string
  ar_no_store :: bool

definition areply :: "nat \<Rightarrow> abody \<Rightarrow> AdminResponse" where
  "areply st b = \<lparr>ar_status = st, ar_body = b, ar_location = [], ar_cookie = None, ar_disposition = [], ar_no_store = False\<rparr>"

definition aerror :: "string \<Rightarrow> nat \<Rightarrow> AdminResponse" where
  "aerror msg st = areply st (AErrorText (MText msg))"

definition see_other :: "string \<Rightarrow> AdminResponse" where
  "see_other url = (areply 303 ANone)\<lparr>ar_location := url\<rparr>"

text \<open>The pages; \<open>render\<close> answers 200.\<close>

definition renderLogin :: "string \<Rightarrow> AdminResponse" where
  "renderLogin errMsg = areply 200 (ALoginPage errMsg)"

definition renderUsersStatus :: "usersView \<Rightarrow> nat \<Rightarrow> AdminResponse" where
  "renderUsersStatus v st = areply st (AUsersPage v)"

definition renderUsers :: "usersView \<Rightarrow> AdminResponse" where
  "renderUsers v = areply 200 (AUsersPage v)"

definition renderSettings :: "settingsView \<Rightarrow> AdminResponse" where
  "renderSettings v = areply 200 (ASettingsPage
     (v\<lparr>pd_Title := ''Settings'', pd_ShowNav := True, pd_Active := ''settings''\<rparr>))"

definition renderLinksStatus :: "linksView \<Rightarrow> nat \<Rightarrow> AdminResponse" where
  "renderLinksStatus v st = areply st (ALinksPage
     (v\<lparr>pd_Title := ''Share Links'', pd_ShowNav := True, pd_Active := ''links''\<rparr>))"

definition renderLinks :: "linksView \<Rightarrow> AdminResponse" where
  "renderLinks v = renderLinksStatus v 200"

section \<open>The server\<close>

definition pendingKeyTTL :: time where
  "pendingKeyTTL = 10 * 60 * second"

record pendingKey =
  pk_username :: string
  pk_private :: string
  pk_expires :: time

text \<open>The store of the manifest is its path.\<close>

record AdminServer =
  as_store :: string
  as_auth :: authState
  as_password :: string
  as_sharedPath :: string
  as_links :: LinkStore
  as_pending :: "string \<rightharpoonup> pendingKey"

type_synonym ahandled = "AdminServer \<times> cfs list \<times> AdminResponse"

definition NewServer :: "AdminWorld \<Rightarrow> AdminConfig \<Rightarrow> AdminServer" where
  "NewServer w cfg =
     \<lparr>as_store = ac_UsersFile cfg, as_auth = newAuthState (ac_Password cfg), as_password = ac_Password cfg,
      as_sharedPath = ac_SharedPath cfg,
      as_links = fst (links_Load (aw_io w 0) (aw_files w) (links_NewStore (ac_LinksDir cfg))),
      as_pending = Map.empty\<rparr>"

definition admin_reloadLinks :: "AdminWorld \<Rightarrow> AdminServer \<Rightarrow> AdminServer" where
  "admin_reloadLinks w s = s\<lparr>as_links := fst (links_Load (aw_io w 0) (aw_files w) (as_links s))\<rparr>"

section \<open>Authorization\<close>

definition admin_current :: "AdminWorld \<Rightarrow> AdminRequest \<Rightarrow> AdminServer \<Rightarrow> AdminServer \<times> session option" where
  "admin_current w r s =
     (case aq_cookie r sessionCookieName of
        None \<Rightarrow> (s, None)
      | Some c \<Rightarrow> (case auth_lookup (aw_now w) c (as_auth s) of (a, x) \<Rightarrow> (s\<lparr>as_auth := a\<rparr>, x)))"

definition requireAuth :: "AdminWorld \<Rightarrow> AdminRequest \<Rightarrow> AdminServer \<Rightarrow> AdminServer \<times> (AdminResponse, session) result" where
  "requireAuth w r s =
     (case admin_current w r s of
        (s, None) \<Rightarrow>
          (s, Inl (if aq_method r = ''GET'' then see_other ''/login'' else aerror ''login required'' 401))
      | (s, Some sess) \<Rightarrow>
          if aq_method r = ''POST'' \<and> \<not> checkCSRF sess (FormValue r csrfField)
          then (s, Inl (aerror ''bad csrf token'' 403))
          else (s, Inr sess))"

text \<open>A handler that starts with \<open>requireAuth\<close>.\<close>

definition with_auth ::
    "AdminWorld \<Rightarrow> AdminRequest \<Rightarrow> (session \<Rightarrow> AdminServer \<Rightarrow> ahandled) \<Rightarrow> AdminServer \<Rightarrow> ahandled" where
  "with_auth w r k s =
     (case requireAuth w r s of
        (s, Inl resp) \<Rightarrow> (s, [aw_files w], resp)
      | (s, Inr sess) \<Rightarrow> k sess s)"

definition checkLoginPassword :: "AdminWorld \<Rightarrow> string \<Rightarrow> AdminServer \<Rightarrow> bool" where
  "checkLoginPassword w got s =
     (let want = (case LoadShared (aw_io w 0) (aw_files w) (as_sharedPath s) of
             Inl _ \<Rightarrow> as_password s
           | Inr sc \<Rightarrow> if sc_SftpAdminPassword sc \<noteq> [] then sc_SftpAdminPassword sc else as_password s)
      in checkPasswordAgainst got want)"

definition admin_handleHealth :: "AdminWorld \<Rightarrow> AdminServer \<Rightarrow> ahandled" where
  "admin_handleHealth w s = (s, [aw_files w], areply 200 AHealth)"

definition handleLoginPage :: "AdminWorld \<Rightarrow> AdminRequest \<Rightarrow> AdminServer \<Rightarrow> ahandled" where
  "handleLoginPage w r s =
     (case admin_current w r s of
        (s, Some _) \<Rightarrow> (s, [aw_files w], see_other ''/'')
      | (s, None) \<Rightarrow> (s, [aw_files w], renderLogin []))"

definition handleLogin :: "AdminWorld \<Rightarrow> AdminRequest \<Rightarrow> AdminServer \<Rightarrow> ahandled" where
  "handleLogin w r s =
     (let ip = clientIP (aq_remote r) in
      case loginAllowed (aw_now w) ip (as_auth s) of
        (a, False) \<Rightarrow>
          (s\<lparr>as_auth := a\<rparr>, [aw_files w], aerror ''too many failed attempts, try again later'' 429)
      | (a, True) \<Rightarrow>
          if \<not> checkLoginPassword w (FormValue r ''password'') s
          then (s\<lparr>as_auth := recordFailure (aw_now w) ip a\<rparr>, [aw_files w], renderLogin ''Wrong password.'')
          else (case createSession (aw_rand w 0) (aw_rand w 1) (aw_now w) (recordSuccess ip a) of
             (a, None) \<Rightarrow> (s\<lparr>as_auth := a\<rparr>, [aw_files w], aerror ''session creation failed'' 500)
           | (a, Some (ident, csrf)) \<Rightarrow>
               (s\<lparr>as_auth := a\<rparr>, [aw_files w], (see_other ''/'')\<lparr>ar_cookie := Some (setSessionCookie ident)\<rparr>)))"

definition handleLogout :: "AdminWorld \<Rightarrow> AdminRequest \<Rightarrow> AdminServer \<Rightarrow> ahandled" where
  "handleLogout w r s =
     (let bye = (see_other ''/login'')\<lparr>ar_cookie := Some clearSessionCookie\<rparr> in
      case aq_cookie r sessionCookieName of
        None \<Rightarrow> (s, [aw_files w], bye)
      | Some c \<Rightarrow>
          (case auth_lookup (aw_now w) c (as_auth s) of
             (a, x) \<Rightarrow>
               if (case x of None \<Rightarrow> False | Some sess \<Rightarrow> \<not> checkCSRF sess (FormValue r csrfField))
               then (s\<lparr>as_auth := a\<rparr>, [aw_files w], aerror ''bad csrf token'' 403)
               else (s\<lparr>as_auth := destroy c a\<rparr>, [aw_files w], bye)))"

section \<open>The users page\<close>

definition note_of :: "key_notes \<Rightarrow> string \<Rightarrow> string" where
  "note_of n k = (case n of None \<Rightarrow> [] | Some al \<Rightarrow> (case map_of al k of None \<Rightarrow> [] | Some x \<Rightarrow> x))"

definition attach_notes :: "key_notes \<Rightarrow> userRow \<Rightarrow> userRow" where
  "attach_notes n row = row\<lparr>ur_Keys := map (\<lambda>v. if kv_Valid v
     then v\<lparr>kv_Note := note_of n (keyNoteID (ur_Username row) (kv_Fingerprint v))\<rparr> else v) (ur_Keys row)\<rparr>"

definition dashboardView :: "io_env \<Rightarrow> cfs \<Rightarrow> AdminServer \<Rightarrow> Manifest \<Rightarrow> string \<Rightarrow> usersView" where
  "dashboardView io fs s m csrf =
     (let v = userDashboard m csrf;
          v = (case LoadNotes io fs (as_store s) of
                 Inl _ \<Rightarrow> v
               | Inr n \<Rightarrow> v\<lparr>uv_Users := map (attach_notes n) (uv_Users v)\<rparr>)
      in v\<lparr>uv_Problems := invalidProblems m\<rparr>)"

definition dashboardWithError ::
    "io_env \<Rightarrow> cfs \<Rightarrow> AdminServer \<Rightarrow> string \<Rightarrow> string \<Rightarrow> message \<Rightarrow> nat \<Rightarrow> AdminResponse" where
  "dashboardWithError io fs s csrf title msg st =
     (case manifest_Load io fs (as_store s) of
        Inl _ \<Rightarrow> aerror ''cannot load users'' 500
      | Inr m \<Rightarrow> renderUsersStatus
          ((dashboardView io fs s m csrf)\<lparr>uv_ErrorTitle := title, uv_Error := Some msg\<rparr>) st)"

definition dashboardWithGenerated ::
    "io_env \<Rightarrow> cfs \<Rightarrow> AdminServer \<Rightarrow> string \<Rightarrow> string \<Rightarrow> string \<Rightarrow> string \<Rightarrow> AdminResponse" where
  "dashboardWithGenerated io fs s csrf username token fp =
     (case manifest_Load io fs (as_store s) of
        Inl _ \<Rightarrow> aerror ''cannot load users'' 500
      | Inr m \<Rightarrow> renderUsers ((dashboardView io fs s m csrf)\<lparr>uv_Generated :=
          Some \<lparr>gr_Username = username, gr_Token = token, gr_Fingerprint = fp\<rparr>\<rparr>))"

text \<open>The result of a repair, read back from the query parameters of the redirect.\<close>

definition repairNotice :: "AdminRequest \<Rightarrow> string" where
  "repairNotice r =
     (case aq_query r ''repaired'' of
        None \<Rightarrow> []
      | Some raw \<Rightarrow>
          if raw = [] then []
          else (case Atoi raw of
              None \<Rightarrow> []
            | Some n \<Rightarrow>
                if n < 0 then []
                else if n = 0 then ''No invalid entries found.''
                else (let disabled = filter (\<lambda>name. name \<noteq> [] \<and> ValidateUsername name = None)
                            (map TrimSpace (SplitByte CHR '','' (QueryGet r ''disabled'')));
                          word = (if n = 1 then ''entry'' else ''entries'')
                      in if disabled = [] then ''Removed '' @ FormatInt n @ '' invalid '' @ word @ ''; disabled: none.''
                         else ''Removed '' @ FormatInt n @ '' invalid '' @ word @ ''; disabled: '' @ Join disabled '', '' @ ''.'')))"

definition handleIndex :: "AdminWorld \<Rightarrow> AdminRequest \<Rightarrow> AdminServer \<Rightarrow> ahandled" where
  "handleIndex w r = with_auth w r (\<lambda>sess s.
     (s, [aw_files w],
      case manifest_Load (aw_io w 0) (aw_files w) (as_store s) of
        Inl _ \<Rightarrow> dashboardWithError (aw_io w 0) (aw_files w) s (se_csrf sess) ''Could not load users''
                   (MText ''cannot load users'') 500
      | Inr m \<Rightarrow> renderUsers ((dashboardView (aw_io w 0) (aw_files w) s m (se_csrf sess))\<lparr>uv_Notice := repairNotice r\<rparr>)))"

section \<open>Mutations of the manifest\<close>

definition statusForError :: "admin_error \<Rightarrow> nat" where
  "statusForError e =
     (if e = ANoSuchUser \<or> e = ANoSuchKey then 404
      else (case e of AInvalid _ \<Rightarrow> 409 | _ \<Rightarrow> 500))"

definition writeError :: "admin_error \<Rightarrow> AdminResponse" where
  "writeError e = areply (statusForError e) (AErrorText (MStore e))"

fun usableKeys :: "string list \<Rightarrow> nat" where
  "usableKeys [] = 0"
| "usableKeys (k # ks) = (case ValidatePublicKey k of Inl _ \<Rightarrow> usableKeys ks | Inr _ \<Rightarrow> usableKeys ks + 1)"

text \<open>The loops that change the first entry with a name and report a missing one.\<close>

fun update_user :: "string \<Rightarrow> (User \<Rightarrow> (admin_error, User) result) \<Rightarrow> User list \<Rightarrow> (admin_error, User list) result" where
  "update_user name f [] = Inl ANoSuchUser"
| "update_user name f (u # us) =
     (if us_Username u = name then (case f u of Inl e \<Rightarrow> Inl e | Inr u' \<Rightarrow> Inr (u' # us))
      else (case update_user name f us of Inl e \<Rightarrow> Inl e | Inr us' \<Rightarrow> Inr (u # us')))"

definition on_users :: "(User list \<Rightarrow> (admin_error, User list) result) \<Rightarrow> Manifest \<Rightarrow> (admin_error, Manifest) result" where
  "on_users f m = (case f (mf_Users m) of Inl e \<Rightarrow> Inl e | Inr us \<Rightarrow> Inr (m\<lparr>mf_Users := us\<rparr>))"

definition create_user :: "string \<Rightarrow> string \<Rightarrow> Manifest \<Rightarrow> (admin_error, Manifest) result" where
  "create_user username pub = on_users (\<lambda>us.
     if username \<in> set (map us_Username us) then Inl AUserExists
     else Inr (us @ [\<lparr>us_Username = username, us_Enabled = True, us_Keys = [pub]\<rparr>]))"

definition add_key :: "string \<Rightarrow> string \<Rightarrow> Manifest \<Rightarrow> (admin_error, Manifest) result" where
  "add_key username canon = on_users (update_user username (\<lambda>u.
     if canon \<in> set (us_Keys u) then Inr u else Inr (u\<lparr>us_Keys := us_Keys u @ [canon]\<rparr>)))"

definition append_key :: "string \<Rightarrow> string \<Rightarrow> Manifest \<Rightarrow> (admin_error, Manifest) result" where
  "append_key username canon = on_users (update_user username (\<lambda>u. Inr (u\<lparr>us_Keys := us_Keys u @ [canon]\<rparr>)))"

definition set_status :: "string \<Rightarrow> bool \<Rightarrow> Manifest \<Rightarrow> (admin_error, Manifest) result" where
  "set_status username enabled = on_users (update_user username (\<lambda>u. Inr (u\<lparr>us_Enabled := enabled\<rparr>)))"

fun remove_user :: "string \<Rightarrow> User list \<Rightarrow> (admin_error, User list) result" where
  "remove_user name [] = Inl ANoSuchUser"
| "remove_user name (u # us) =
     (if us_Username u = name then (if us_Enabled u then Inl ADeleteEnabled else Inr us)
      else (case remove_user name us of Inl e \<Rightarrow> Inl e | Inr us' \<Rightarrow> Inr (u # us')))"

definition delete_user :: "string \<Rightarrow> Manifest \<Rightarrow> (admin_error, Manifest) result" where
  "delete_user username = on_users (remove_user username)"

definition has_fingerprint :: "string \<Rightarrow> string \<Rightarrow> bool" where
  "has_fingerprint fp k = (case FingerprintOf k of Inl _ \<Rightarrow> False | Inr kfp \<Rightarrow> kfp = fp)"

definition findKey :: "Manifest \<Rightarrow> string \<Rightarrow> string \<Rightarrow> bool \<times> bool" where
  "findKey m username fp =
     (let us = filter (\<lambda>u. us_Username u = username) (mf_Users m)
      in (us \<noteq> [], list_ex (\<lambda>u. list_ex (has_fingerprint fp) (us_Keys u)) us))"

text \<open>The loop over the keys: the first match is dropped.\<close>

fun drop_key :: "string \<Rightarrow> string list \<Rightarrow> string list \<times> bool" where
  "drop_key fp [] = ([], False)"
| "drop_key fp (k # ks) =
     (if has_fingerprint fp k then (ks, True) else (case drop_key fp ks of (kept, matched) \<Rightarrow> (k # kept, matched)))"

definition deleteKey :: "string \<Rightarrow> string \<Rightarrow> Manifest \<Rightarrow> (admin_error, Manifest) result" where
  "deleteKey username fp = on_users (update_user username (\<lambda>u.
     case drop_key fp (us_Keys u) of
       (kept, matched) \<Rightarrow>
         if \<not> matched then Inl ANoSuchKey
         else (let u = u\<lparr>us_Keys := kept\<rparr>
               in Inr (if us_Enabled u \<and> usableKeys kept = 0 then u\<lparr>us_Enabled := False, us_Keys := []\<rparr> else u))))"

text \<open>The note ids of all valid keys of a manifest.\<close>

definition live_note_ids :: "Manifest \<Rightarrow> string list" where
  "live_note_ids m = concat (map (\<lambda>u. concat (map (\<lambda>k.
     case FingerprintOf k of Inl _ \<Rightarrow> [] | Inr fp \<Rightarrow> [keyNoteID (us_Username u) fp]) (us_Keys u))) (mf_Users m))"

end
