(* ===== verification/Admin_Handlers.thy ===== *)
theory Admin_Handlers
  imports Admin_Server
begin

text \<open>
  The package \<open>internal/sftpadmin\<close>, file \<open>server.go\<close>, continued: the handlers that change users,
  keys, notes, settings and links, the download of a generated private key, and the routes.
\<close>

section \<open>Users and keys\<close>

text \<open>
  The key a request brings, or a new pair: the canonical public key and the private key, which is
  empty for a pasted key.
\<close>

definition create_keys :: "AdminWorld \<Rightarrow> string \<Rightarrow> string \<Rightarrow> (message \<times> nat, string \<times> string) result" where
  "create_keys w username pasted =
     (if pasted = [] then
        (case GenerateEd25519KeyPair (aw_keygen w) username of
           Inl _ \<Rightarrow> Inl (MText ''key generation failed'', 500)
         | Inr kp \<Rightarrow>
             (case ValidatePublicKey (kp_PublicKey kp) of
                Inl _ \<Rightarrow> Inl (MText ''generated key failed validation'', 500)
              | Inr (canon, _) \<Rightarrow> Inr (canon, kp_PrivatePEM kp)))
      else (case ValidatePublicKey pasted of
              Inl e \<Rightarrow> Inl (MKey e, 400)
            | Inr (canon, _) \<Rightarrow> Inr (canon, [])))"

text \<open>The end of both generating handlers: the private key is stashed under a fresh token.\<close>

definition offer_private ::
    "AdminWorld \<Rightarrow> session \<Rightarrow> string \<Rightarrow> string \<Rightarrow> string \<Rightarrow> string \<Rightarrow> cfs list \<Rightarrow> AdminServer \<Rightarrow> ahandled" where
  "offer_private w sess title username private pub tr s =
     (case newToken (aw_rand w 0) of
        None \<Rightarrow> (s, tr, dashboardWithError (aw_io w 1) (last tr) s (se_csrf sess) title
                   (MText ''download token creation failed'') 500)
      | Some token \<Rightarrow>
          (let s = s\<lparr>as_pending := (as_pending s)(token \<mapsto>
                 \<lparr>pk_username = username, pk_private = private, pk_expires = aw_now w + pendingKeyTTL\<rparr>)\<rparr>;
               fp = (case FingerprintOf pub of Inl _ \<Rightarrow> [] | Inr fp \<Rightarrow> fp)
           in (s, tr, dashboardWithGenerated (aw_io w 1) (last tr) s (se_csrf sess) username token fp)))"

definition handleCreate :: "AdminWorld \<Rightarrow> AdminRequest \<Rightarrow> AdminServer \<Rightarrow> ahandled" where
  "handleCreate w r = with_auth w r (\<lambda>sess s.
     let title = ''Could not create user'';
         err = (\<lambda>msg st. (s, [aw_files w], dashboardWithError (aw_io w 0) (aw_files w) s (se_csrf sess) title msg st));
         username = TrimSpace (FormValue r ''username'')
     in case ValidateUsername username of
          Some e \<Rightarrow> err (MUsername e) 400
        | None \<Rightarrow>
            (case create_keys w username (TrimSpace (FormValue r ''public_key'')) of
               Inl (msg, st) \<Rightarrow> err msg st
             | Inr (pub, private) \<Rightarrow>
                 (case manifest_Update (aw_io w 0) (as_store s) (create_user username pub) (aw_files w) of
                    (tr, Some e) \<Rightarrow>
                      (s, tr, dashboardWithError (aw_io w 1) (last tr) s (se_csrf sess) title (MStore e) 409)
                  | (tr, None) \<Rightarrow>
                      if private = [] then (s, tr, see_other ''/'')
                      else offer_private w sess title username private pub tr s)))"

definition handleAddKey :: "AdminWorld \<Rightarrow> AdminRequest \<Rightarrow> AdminServer \<Rightarrow> ahandled" where
  "handleAddKey w r = with_auth w r (\<lambda>sess s.
     let username = TrimSpace (FormValue r ''username'')
     in case ValidatePublicKey (TrimSpace (FormValue r ''public_key'')) of
          Inl e \<Rightarrow> (s, [aw_files w], areply 400 (AErrorText (MKey e)))
        | Inr (canon, _) \<Rightarrow>
            (case manifest_Update (aw_io w 0) (as_store s) (add_key username canon) (aw_files w) of
               (tr, Some e) \<Rightarrow> (s, tr, writeError e)
             | (tr, None) \<Rightarrow> (s, tr, see_other ''/'')))"

text \<open>The checks of the handlers that address one key: the user name, the fingerprint, the entry.\<close>

definition known_key :: "io_env \<Rightarrow> cfs \<Rightarrow> AdminServer \<Rightarrow> string \<Rightarrow> string \<Rightarrow> (message \<times> nat, unit) result" where
  "known_key io fs s username fp =
     (case manifest_Load io fs (as_store s) of
        Inl _ \<Rightarrow> Inl (MText ''cannot load users'', 500)
      | Inr m \<Rightarrow>
          (case findKey m username fp of
             (userFound, keyFound) \<Rightarrow>
               if \<not> userFound then Inl (MStore ANoSuchUser, 404)
               else if \<not> keyFound then Inl (MStore ANoSuchKey, 404)
               else Inr ()))"

definition key_address :: "string \<Rightarrow> string \<Rightarrow> (message \<times> nat, unit) result" where
  "key_address username fp =
     (case ValidateUsername username of
        Some e \<Rightarrow> Inl (MUsername e, 400)
      | None \<Rightarrow> if \<not> ValidFingerprint fp then Inl (MText ''invalid fingerprint: want canonical SHA256 form'', 400) else Inr ())"

definition handleDeleteKey :: "AdminWorld \<Rightarrow> AdminRequest \<Rightarrow> AdminServer \<Rightarrow> ahandled" where
  "handleDeleteKey w r = with_auth w r (\<lambda>sess s.
     let title = ''Could not remove key'';
         username = TrimSpace (FormValue r ''username'');
         fp = TrimSpace (FormValue r ''fingerprint'')
     in case bind_res (key_address username fp) (\<lambda>_. known_key (aw_io w 0) (aw_files w) s username fp) of
          Inl (msg, st) \<Rightarrow>
            (s, [aw_files w], dashboardWithError (aw_io w 0) (aw_files w) s (se_csrf sess) title msg st)
        | Inr _ \<Rightarrow>
            (case manifest_Update (aw_io w 0) (as_store s) (deleteKey username fp) (aw_files w) of
               (tr, Some e) \<Rightarrow>
                 (s, tr, dashboardWithError (aw_io w 1) (last tr) s (se_csrf sess) title (MStore e) (statusForError e))
             | (tr, None) \<Rightarrow>
                 (s, tr @ fst (DeleteNote (aw_io w 1) (as_store s) username fp (last tr)), see_other ''/'')))"

definition handleKeyNote :: "AdminWorld \<Rightarrow> AdminRequest \<Rightarrow> AdminServer \<Rightarrow> ahandled" where
  "handleKeyNote w r = with_auth w r (\<lambda>sess s.
     let title = ''Could not save key note'';
         username = TrimSpace (FormValue r ''username'');
         fp = TrimSpace (FormValue r ''fingerprint'');
         nt = TrimSpace (FormValue r ''note'');
         err = (\<lambda>msg st. dashboardWithError (aw_io w 0) (aw_files w) s (se_csrf sess) title msg st)
     in case bind_res (key_address username fp) (\<lambda>_.
             bind_res (ensure (RuneCountInString nt \<le> MaxKeyNoteLength) (MText ''note too long: max 120 characters'', 400)) (\<lambda>_.
             known_key (aw_io w 0) (aw_files w) s username fp)) of
          Inl (msg, st) \<Rightarrow> (s, [aw_files w], err msg st)
        | Inr _ \<Rightarrow>
            (case SetNote (aw_io w 0) (as_store s) username fp nt (aw_files w) of
               (tr, Some e) \<Rightarrow>
                 (s, tr, if e = ANilMap then areply 0 AAborted
                         else dashboardWithError (aw_io w 1) (last tr) s (se_csrf sess) title (MText ''cannot save note'') 500)
             | (tr, None) \<Rightarrow> (s, tr, see_other ''/'')))"

text \<open>\<open>url.QueryEscape\<close>.\<close>

definition hex_digit :: "nat \<Rightarrow> char" where
  "hex_digit n = char_of (if n < 10 then n + 48 else n + 55)"

definition escape_byte :: "char \<Rightarrow> string" where
  "escape_byte c =
     (let n = of_char c :: nat in
      if 97 \<le> n \<and> n \<le> 122 \<or> 65 \<le> n \<and> n \<le> 90 \<or> 48 \<le> n \<and> n \<le> 57 \<or> c \<in> set ''-_.~'' then [c]
      else if c = CHR '' '' then ''+''
      else [CHR ''%'', hex_digit (n div 16), hex_digit (n mod 16)])"

definition QueryEscape :: "string \<Rightarrow> string" where
  "QueryEscape s = concat (map escape_byte s)"

text \<open>The best-effort removal of notes of keys that are gone.\<close>

definition prune_notes :: "io_env \<Rightarrow> string \<Rightarrow> cfs \<Rightarrow> cfs list" where
  "prune_notes io path fs =
     (case manifest_Load io fs path of
        Inl _ \<Rightarrow> [fs]
      | Inr m \<Rightarrow> fst (PruneNotes io path (live_note_ids m) fs))"

definition handleRemoveInvalidKeys :: "AdminWorld \<Rightarrow> AdminRequest \<Rightarrow> AdminServer \<Rightarrow> ahandled" where
  "handleRemoveInvalidKeys w r = with_auth w r (\<lambda>sess s.
     case RemoveInvalidKeys (aw_io w 0) (as_store s) (aw_files w) of
       (tr, Inl e) \<Rightarrow>
         (s, tr, dashboardWithError (aw_io w 1) (last tr) s (se_csrf sess) ''Could not repair keys'' (MText ''repair failed'') 500)
     | (tr, Inr rep) \<Rightarrow>
         (s, tr @ prune_notes (aw_io w 1) (as_store s) (last tr),
          see_other (''/?repaired='' @ FormatInt (int (rp_RemovedKeys rep)) @
            (if rp_DisabledUsers rep \<noteq> [] then ''&disabled='' @ QueryEscape (Join (rp_DisabledUsers rep) '','') else []))))"

definition handleGenerateKey :: "AdminWorld \<Rightarrow> AdminRequest \<Rightarrow> AdminServer \<Rightarrow> ahandled" where
  "handleGenerateKey w r = with_auth w r (\<lambda>sess s.
     let title = ''Could not generate key'';
         err = (\<lambda>msg st. (s, [aw_files w], dashboardWithError (aw_io w 0) (aw_files w) s (se_csrf sess) title msg st));
         username = TrimSpace (FormValue r ''username'')
     in case ValidateUsername username of
          Some e \<Rightarrow> err (MUsername e) 400
        | None \<Rightarrow>
       (case manifest_Load (aw_io w 0) (aw_files w) (as_store s) of
          Inl _ \<Rightarrow> err (MText ''cannot load users'') 500
        | Inr m \<Rightarrow>
            if username \<notin> set (map us_Username (mf_Users m)) then err (MStore ANoSuchUser) 404
            else (case GenerateEd25519KeyPair (aw_keygen w) username of
                Inl _ \<Rightarrow> err (MText ''key generation failed'') 500
              | Inr kp \<Rightarrow>
            (case ValidatePublicKey (kp_PublicKey kp) of
                Inl _ \<Rightarrow> err (MText ''generated key failed validation'') 500
              | Inr (canon, _) \<Rightarrow>
            (case manifest_Update (aw_io w 0) (as_store s) (append_key username canon) (aw_files w) of
                (tr, Some e) \<Rightarrow>
                  (s, tr, dashboardWithError (aw_io w 1) (last tr) s (se_csrf sess) title (MStore e) (statusForError e))
              | (tr, None) \<Rightarrow> offer_private w sess title username (kp_PrivatePEM kp) canon tr s)))))"

text \<open>The entry of a user that the checks before an update see: the last one with the name.\<close>

definition lookup_user :: "Manifest \<Rightarrow> string \<Rightarrow> User option" where
  "lookup_user m username =
     (case rev (filter (\<lambda>u. us_Username u = username) (mf_Users m)) of [] \<Rightarrow> None | u # _ \<Rightarrow> Some u)"

definition can_enable :: "io_env \<Rightarrow> cfs \<Rightarrow> AdminServer \<Rightarrow> string \<Rightarrow> (message \<times> nat, unit) result" where
  "can_enable io fs s username =
     (case manifest_Load io fs (as_store s) of
        Inl _ \<Rightarrow> Inl (MText ''cannot load users'', 500)
      | Inr m \<Rightarrow>
          (case lookup_user m username of
             None \<Rightarrow> Inl (MStore ANoSuchUser, 404)
           | Some u \<Rightarrow>
               if usableKeys (us_Keys u) = 0 then Inl (MText ''cannot enable a user with no usable keys'', 409)
               else Inr ()))"

definition status_action :: "string \<Rightarrow> bool option" where
  "status_action a = (if a = ''disable'' then Some False else if a = ''enable'' then Some True else None)"

definition handleStatus :: "AdminWorld \<Rightarrow> AdminRequest \<Rightarrow> AdminServer \<Rightarrow> ahandled" where
  "handleStatus w r = with_auth w r (\<lambda>sess s.
     let title = ''Could not update user status'';
         username = TrimSpace (FormValue r ''username'')
     in case bind_res (need (MText ''unknown action'', 400) (status_action (FormValue r ''action''))) (\<lambda>enabled.
             bind_res (if enabled then can_enable (aw_io w 0) (aw_files w) s username else Inr ()) (\<lambda>_. Inr enabled)) of
          Inl (msg, st) \<Rightarrow>
            (s, [aw_files w], dashboardWithError (aw_io w 0) (aw_files w) s (se_csrf sess) title msg st)
        | Inr enabled \<Rightarrow>
            (case manifest_Update (aw_io w 0) (as_store s) (set_status username enabled) (aw_files w) of
               (tr, Some e) \<Rightarrow>
                 (s, tr, dashboardWithError (aw_io w 1) (last tr) s (se_csrf sess) title (MStore e) (statusForError e))
             | (tr, None) \<Rightarrow> (s, tr, see_other ''/'')))"

definition can_delete :: "io_env \<Rightarrow> cfs \<Rightarrow> AdminServer \<Rightarrow> string \<Rightarrow> (message \<times> nat, unit) result" where
  "can_delete io fs s username =
     (case ValidateUsername username of
        Some e \<Rightarrow> Inl (MUsername e, 400)
      | None \<Rightarrow>
     (case manifest_Load io fs (as_store s) of
        Inl _ \<Rightarrow> Inl (MText ''cannot load users'', 500)
      | Inr m \<Rightarrow>
          (case lookup_user m username of
             None \<Rightarrow> Inl (MStore ANoSuchUser, 404)
           | Some u \<Rightarrow> if us_Enabled u then Inl (MStore ADeleteEnabled, 409) else Inr ())))"

definition handleDelete :: "AdminWorld \<Rightarrow> AdminRequest \<Rightarrow> AdminServer \<Rightarrow> ahandled" where
  "handleDelete w r = with_auth w r (\<lambda>sess s.
     let title = ''Could not delete user'';
         username = TrimSpace (FormValue r ''username'')
     in case can_delete (aw_io w 0) (aw_files w) s username of
          Inl (msg, st) \<Rightarrow>
            (s, [aw_files w], dashboardWithError (aw_io w 0) (aw_files w) s (se_csrf sess) title msg st)
        | Inr _ \<Rightarrow>
            (case manifest_Update (aw_io w 0) (as_store s) (delete_user username) (aw_files w) of
               (tr, Some e) \<Rightarrow>
                 (s, tr, dashboardWithError (aw_io w 1) (last tr) s (se_csrf sess) title (MStore e)
                    (if e = ADeleteEnabled then 409 else statusForError e))
             | (tr, None) \<Rightarrow> (s, tr @ prune_notes (aw_io w 1) (as_store s) (last tr), see_other ''/'')))"

section \<open>The private key of a generated pair\<close>

definition admin_handleDownload :: "AdminWorld \<Rightarrow> AdminRequest \<Rightarrow> AdminServer \<Rightarrow> ahandled" where
  "admin_handleDownload w r = with_auth w r (\<lambda>sess s.
     let token = QueryGet r ''token'' in
     case as_pending s token of
       None \<Rightarrow> (s, [aw_files w], aerror ''key already downloaded or expired'' 404)
     | Some pk \<Rightarrow>
         (let s = s\<lparr>as_pending := (as_pending s)(token := None)\<rparr> in
          if token = [] \<or> aw_now w > pk_expires pk
          then (s, [aw_files w], aerror ''key already downloaded or expired'' 404)
          else (s, [aw_files w], (areply 200 (APrivateKey (pk_private pk)))
                 \<lparr>ar_no_store := True, ar_disposition := ''attachment; filename=\"'' @ pk_username pk @ ''_ed25519\"''\<rparr>)))"

section \<open>Settings\<close>

definition sharedConfigPath :: "AdminServer \<Rightarrow> string" where
  "sharedConfigPath s = (if as_sharedPath s \<noteq> [] then as_sharedPath s else DefaultSharedConfigPath)"

definition admin_publicURL :: "io_env \<Rightarrow> cfs \<Rightarrow> AdminServer \<Rightarrow> string" where
  "admin_publicURL io fs s =
     (case LoadShared io fs (sharedConfigPath s) of Inl _ \<Rightarrow> [] | Inr sc \<Rightarrow> sc_PublicURL sc)"

fun add_setting :: "SettingValue \<Rightarrow> settingsGroup list \<Rightarrow> settingsGroup list" where
  "add_setting v [] = [\<lparr>sg_Service = sd_Service v, sg_Items = [v]\<rparr>]"
| "add_setting v (g # gs) =
     (if sg_Service g = sd_Service v then g\<lparr>sg_Items := sg_Items g @ [v]\<rparr> # gs else g # add_setting v gs)"

definition settingsGroups :: "io_env \<Rightarrow> cfs \<Rightarrow> AdminServer \<Rightarrow> (settings_failure, settingsGroup list) result" where
  "settingsGroups io fs s =
     bind_res (GetSettings io fs (sharedConfigPath s)) (\<lambda>values. Inr (fold add_setting values []))"

definition settings_view :: "string \<Rightarrow> settingsGroup list \<Rightarrow> settingsView" where
  "settings_view csrf groups = \<lparr>pd_Title = [], pd_ShowNav = False, pd_Active = [], pd_CSRF = csrf,
     sv_Groups = groups, sv_Notice = [], sv_Errors = []\<rparr>"

definition handleSettings :: "AdminWorld \<Rightarrow> AdminRequest \<Rightarrow> AdminServer \<Rightarrow> ahandled" where
  "handleSettings w r = with_auth w r (\<lambda>sess s.
     (s, [aw_files w],
      case settingsGroups (aw_io w 0) (aw_files w) s of
        Inl _ \<Rightarrow> aerror ''cannot load settings'' 500
      | Inr groups \<Rightarrow> renderSettings (settings_view (se_csrf sess) groups)))"

text \<open>The values of the form for the keys of the registry that are present.\<close>

definition form_values :: "AdminRequest \<Rightarrow> (string \<times> string) list" where
  "form_values r = concat (map (\<lambda>d. case aq_form r (sd_Key d) of None \<Rightarrow> [] | Some v \<Rightarrow> [(sd_Key d, TrimSpace v)]) SettingsRegistry)"

text \<open>The keys the page reports as saved, and the handler logs as updated.\<close>

definition saved_keys :: "(string \<times> setting_error) list \<Rightarrow> (string \<times> string) list \<Rightarrow> string list" where
  "saved_keys errs vals = map sd_Key (filter (\<lambda>d.
     map_of errs (sd_Key d) = None
     \<and> (case map_of vals (sd_Key d) of None \<Rightarrow> False | Some v \<Rightarrow> \<not> (v = [] \<and> sd_IsSecret d))) SettingsRegistry)"

definition handleSettingsSave :: "AdminWorld \<Rightarrow> AdminRequest \<Rightarrow> AdminServer \<Rightarrow> ahandled" where
  "handleSettingsSave w r = with_auth w r (\<lambda>sess s.
     if aq_bad_form r then (s, [aw_files w], aerror ''invalid form'' 400)
     else (let path = sharedConfigPath s in
       case GetSettings (aw_io w 0) (aw_files w) path of
         Inl _ \<Rightarrow> (s, [aw_files w], aerror ''cannot load settings'' 500)
       | Inr before \<Rightarrow>
           (let vals = form_values r in
            case ApplySettings (aw_io w 0) path vals (aw_files w) of
              (tr, Inl e) \<Rightarrow> (s, tr, aerror ''cannot load settings'' 500)
            | (tr, Inr errs) \<Rightarrow>
                (let saved = saved_keys errs vals in
                 (s, tr,
                  case settingsGroups (aw_io w 1) (last tr) s of
                    Inl _ \<Rightarrow> aerror ''cannot load settings'' 500
                  | Inr groups \<Rightarrow> renderSettings ((settings_view (se_csrf sess) groups)\<lparr>sv_Errors := errs,
                      sv_Notice := if saved \<noteq> [] then ''Saved: '' @ Join saved '', '' else []\<rparr>))))))"

section \<open>Links\<close>

definition linksNotice :: "AdminRequest \<Rightarrow> string" where
  "linksNotice r = (if QueryGet r ''created'' \<noteq> [] then ''Link created: '' @ QueryGet r ''created'' else [])"

definition handleLinks :: "AdminWorld \<Rightarrow> AdminRequest \<Rightarrow> AdminServer \<Rightarrow> ahandled" where
  "handleLinks w r s0 = with_auth w r (\<lambda>sess s.
     (s, [aw_files w],
      renderLinks ((linksDashboard (links_List (as_links s)) (se_csrf sess) (admin_publicURL (aw_io w 0) (aw_files w) s))
        \<lparr>lv_Notice := linksNotice r\<rparr>))) (admin_reloadLinks w s0)"

definition linksWithError :: "io_env \<Rightarrow> cfs \<Rightarrow> AdminServer \<Rightarrow> string \<Rightarrow> message \<Rightarrow> nat \<Rightarrow> AdminResponse" where
  "linksWithError io fs s csrf msg st =
     renderLinksStatus ((linksDashboard (links_List (as_links s)) csrf (admin_publicURL io fs s))\<lparr>lv_Error := Some msg\<rparr>) st"

text \<open>The offset is in minutes west of UTC, as the browser gives it.\<close>

definition parseAdminExpiry :: "string \<Rightarrow> string \<Rightarrow> (message, time option) result" where
  "parseAdminExpiry value offsetText =
     (if value = [] then Inr None
      else bind_res
        (if offsetText = [] then Inr 0
         else (case Atoi offsetText of
                 None \<Rightarrow> Inl (MText ''invalid browser timezone offset'')
               | Some p \<Rightarrow> if p < -14 * 60 \<or> p > 14 * 60 then Inl (MText ''invalid browser timezone offset'') else Inr p))
        (\<lambda>offsetMinutes.
          case ParseLocal value (- offsetMinutes * 60) of
            None \<Rightarrow> Inl (MText ''parsing time'')
          | Some t \<Rightarrow> Inr (Some t)))"

text \<open>The checks of \<open>handleLinkCreate\<close> in their order: the scope, the password hash and the expiry to store.\<close>

definition link_input :: "AdminWorld \<Rightarrow> AdminRequest \<Rightarrow> (message \<times> nat, Scope \<times> string \<times> time option) result" where
  "link_input w r =
     (let scopeType = TrimSpace (FormValue r ''scope_type'');
          scopeUser = TrimSpace (FormValue r ''scope_user'');
          password = FormValue r ''password'';
          expiresStr = FormValue r ''expires''
      in
      bind_res (ensure (scopeType = ScopeAdmin \<or> scopeType = ScopeUser) (MText ''Invalid scope type'', 400)) (\<lambda>_.
      bind_res (ensure (\<not> (scopeType = ScopeUser \<and> scopeUser = [])) (MText ''Username required for user scope'', 400)) (\<lambda>_.
      bind_res (if scopeType = ScopeUser
                then clear (map_option (\<lambda>e. (MPrefix ''Invalid username: '' (MUsername e), 400)) (ValidateUsername scopeUser))
                else Inr ()) (\<lambda>_.
      bind_res (if password \<noteq> [] then map_err (\<lambda>_. (MText ''Failed to hash password'', 500)) (HashPassword (aw_bcrypt w) password)
                else Inr []) (\<lambda>hash.
      bind_res (if expiresStr \<noteq> [] then map_err (\<lambda>_. (MText ''Invalid expiry date'', 400))
                  (parseAdminExpiry expiresStr (FormValue r ''expires_offset'')) else Inr None) (\<lambda>expiresAt.
      Inr (\<lparr>sp_Type = scopeType, sp_User = scopeUser\<rparr>, hash, expiresAt)))))))"

definition handleLinkCreate :: "AdminWorld \<Rightarrow> AdminRequest \<Rightarrow> AdminServer \<Rightarrow> ahandled" where
  "handleLinkCreate w r s0 = with_auth w r (\<lambda>sess s.
     let err = (\<lambda>msg st. (s, [aw_files w], linksWithError (aw_io w 0) (aw_files w) s (se_csrf sess) msg st)) in
     if aq_bad_form r then (s, [aw_files w], aerror ''invalid form'' 400)
     else (case link_input w r of
       Inl (msg, st) \<Rightarrow> err msg st
     | Inr (scope, hash, expiresAt) \<Rightarrow>
         (case NewID (aw_rand w 0) of
            None \<Rightarrow> err (MText ''Failed to generate link ID'') 500
          | Some ident \<Rightarrow>
              (case links_Create (aw_io w 0) (aw_now w) (aw_files w)
                      \<lparr>lk_ID = ident, lk_PasswordHash = hash, lk_Scope = scope,
                       lk_CreatedAt = truncate_second (aw_now w), lk_ExpiresAt = expiresAt,
                       lk_CreatedBy = ''admin'', lk_Description = TrimSpace (FormValue r ''description'')\<rparr> (as_links s) of
                 (ls, tr, Some e) \<Rightarrow>
                   (let s = s\<lparr>as_links := ls\<rparr> in
                    (s, tr, linksWithError (aw_io w 1) (last tr) s (se_csrf sess) (MPrefix ''Failed to create link: '' (MLink e)) 500))
               | (ls, tr, None) \<Rightarrow> (s\<lparr>as_links := ls\<rparr>, tr, see_other (''/links?created='' @ ident)))))) (admin_reloadLinks w s0)"

definition admin_handleLinkDelete :: "AdminWorld \<Rightarrow> AdminRequest \<Rightarrow> AdminServer \<Rightarrow> ahandled" where
  "admin_handleLinkDelete w r s0 = with_auth w r (\<lambda>sess s.
     if aq_bad_form r then (s, [aw_files w], aerror ''invalid form'' 400)
     else (let ident = TrimSpace (FormValue r ''id'') in
       if ident = [] then
         (s, [aw_files w], linksWithError (aw_io w 0) (aw_files w) s (se_csrf sess) (MText ''Link ID required'') 400)
       else (case links_Delete (aw_io w 0) (aw_now w) (aw_files w) ident (as_links s) of
               (ls, tr, Some e) \<Rightarrow>
                 (let s = s\<lparr>as_links := ls\<rparr> in
                  (s, tr, linksWithError (aw_io w 1) (last tr) s (se_csrf sess) (MPrefix ''Failed to delete link: '' (MLink e)) 500))
             | (ls, tr, None) \<Rightarrow> (s\<lparr>as_links := ls\<rparr>, tr, see_other ''/links'')))) (admin_reloadLinks w s0)"

section \<open>Routes\<close>

datatype aroute =
    ARHealth | ARIndex | ARLoginPage | ARLogin | ARLogout | ARCreate | ARAddKey | ARDeleteKey | ARKeyNote
  | ARRepair | ARGenerate | ARStatus | ARDelete | ARDownload | ARSettings | ARSettingsSave | ARLinks
  | ARLinkCreate | ARLinkDelete | ARNotFound | ARNotAllowed

definition get_routes :: "(string \<times> aroute) list" where
  "get_routes = [(''/healthz'', ARHealth), (''/'', ARIndex), (''/login'', ARLoginPage), (''/keys/download'', ARDownload),
     (''/settings'', ARSettings), (''/links'', ARLinks)]"

definition post_routes :: "(string \<times> aroute) list" where
  "post_routes = [(''/login'', ARLogin), (''/logout'', ARLogout), (''/users/create'', ARCreate),
     (''/users/add-key'', ARAddKey), (''/users/delete-key'', ARDeleteKey), (''/users/key-note'', ARKeyNote),
     (''/users/remove-invalid-keys'', ARRepair), (''/users/generate-key'', ARGenerate), (''/users/status'', ARStatus),
     (''/users/delete'', ARDelete), (''/settings'', ARSettingsSave), (''/links/create'', ARLinkCreate),
     (''/links/delete'', ARLinkDelete)]"

text \<open>The mux on clean paths; \<open>HEAD\<close> is served by a \<open>GET\<close> pattern.\<close>

definition admin_route :: "string \<Rightarrow> string \<Rightarrow> aroute" where
  "admin_route meth path =
     (let g = map_of get_routes path; p = map_of post_routes path;
          found = (if meth = ''GET'' \<or> meth = ''HEAD'' then g else if meth = ''POST'' then p else None)
      in case found of
           Some rt \<Rightarrow> rt
         | None \<Rightarrow> if g = None \<and> p = None then ARNotFound else ARNotAllowed)"

definition admin_ServeHTTP :: "AdminWorld \<Rightarrow> AdminRequest \<Rightarrow> AdminServer \<Rightarrow> ahandled" where
  "admin_ServeHTTP w r s =
     (case admin_route (aq_method r) (aq_path r) of
        ARHealth \<Rightarrow> admin_handleHealth w s
      | ARIndex \<Rightarrow> handleIndex w r s
      | ARLoginPage \<Rightarrow> handleLoginPage w r s
      | ARLogin \<Rightarrow> handleLogin w r s
      | ARLogout \<Rightarrow> handleLogout w r s
      | ARCreate \<Rightarrow> handleCreate w r s
      | ARAddKey \<Rightarrow> handleAddKey w r s
      | ARDeleteKey \<Rightarrow> handleDeleteKey w r s
      | ARKeyNote \<Rightarrow> handleKeyNote w r s
      | ARRepair \<Rightarrow> handleRemoveInvalidKeys w r s
      | ARGenerate \<Rightarrow> handleGenerateKey w r s
      | ARStatus \<Rightarrow> handleStatus w r s
      | ARDelete \<Rightarrow> handleDelete w r s
      | ARDownload \<Rightarrow> admin_handleDownload w r s
      | ARSettings \<Rightarrow> handleSettings w r s
      | ARSettingsSave \<Rightarrow> handleSettingsSave w r s
      | ARLinks \<Rightarrow> handleLinks w r s
      | ARLinkCreate \<Rightarrow> handleLinkCreate w r s
      | ARLinkDelete \<Rightarrow> admin_handleLinkDelete w r s
      | ARNotFound \<Rightarrow> (s, [aw_files w], aerror ''404 page not found'' 404)
      | ARNotAllowed \<Rightarrow> (s, [aw_files w], aerror ''Method Not Allowed'' 405))"

section \<open>Start-up\<close>

datatype admin_start_error = BadAdminConfig admin_config_error | SeedFailed admin_error

text \<open>\<open>run\<close> of \<open>cmd/sftp-admin/main.go\<close> up to serving: the directories, the observable states, the server.\<close>

definition admin_run ::
    "prep_env \<Rightarrow> ioerr option \<Rightarrow> AdminWorld \<Rightarrow> (string \<Rightarrow> string) \<Rightarrow> dirs
     \<Rightarrow> dirs \<times> cfs list \<times> (admin_start_error, AdminServer) result" where
  "admin_run pe fault w getenv ds =
     (case LoadConfig (aw_io w 0) (aw_files w) getenv of
        Inl e \<Rightarrow> (ds, [aw_files w], Inl (BadAdminConfig e))
      | Inr cfg \<Rightarrow>
          (case seedIfAbsent fault (aw_io w 0) cfg (aw_files w) of
             (tr, Some e) \<Rightarrow> (ds, tr, Inl (SeedFailed e))
           | (tr, None) \<Rightarrow>
               (case SeedSharedConfig pe (aw_io w 1) (ac_SharedPath cfg) getenv (ds, last tr) of
                  (ds, tr2, Some e) \<Rightarrow> (ds, tr @ tr2, Inl (BadAdminConfig e))
                | (ds, tr2, None) \<Rightarrow> (ds, tr @ tr2, Inr (NewServer (w\<lparr>aw_files := last tr2\<rparr>) cfg)))))"

end
