(* ===== verification/Admin_Users.thy ===== *)
theory Admin_Users
  imports Admin_Handlers
begin

text \<open>
  What the admin service does to the users: its mutations of the manifest implement operations
  on a map from names to users, and every manifest it writes keeps the promise that a user
  who is switched on has a usable key, in every state another process can observe.
\<close>

section \<open>Mutations\<close>

lemma usableKeys_count: "usableKeys ks = length (filter valid_key ks)"
  by (induction ks) (simp_all add: valid_key_def split: sum.split)

lemma update_user_split:
  assumes "update_user name f us = Inr us'"
  obtains xs u ys u' where "us = xs @ u # ys" "us_Username u = name" "name \<notin> set (map us_Username xs)"
    "f u = Inr u'" "us' = xs @ u' # ys"
  using assms
proof (induction us arbitrary: us' thesis)
  case (Cons v us)
  show ?case
  proof (cases "us_Username v = name")
    case True
    then show ?thesis using Cons.prems(1) [of "[]" v us] Cons.prems(2) by (auto split: sum.splits)
  next
    case False
    then obtain us1 where us1: "update_user name f us = Inr us1" "us' = v # us1"
      using Cons.prems(2) by (auto split: sum.splits)
    obtain xs u ys u' where "us = xs @ u # ys" "us_Username u = name" "name \<notin> set (map us_Username xs)"
      "f u = Inr u'" "us1 = xs @ u' # ys"
      using Cons.IH [OF _ us1(1)] by blast
    then show ?thesis using Cons.prems(1) [of "v # xs" u ys u'] us1(2) False by simp
  qed
qed simp

lemma remove_user_split:
  assumes "remove_user name us = Inr us'"
  obtains xs u ys where "us = xs @ u # ys" "us_Username u = name" "\<not> us_Enabled u" "name \<notin> set (map us_Username xs)"
    "us' = xs @ ys"
  using assms
proof (induction us arbitrary: us' thesis)
  case (Cons v us)
  show ?case
  proof (cases "us_Username v = name")
    case True
    then show ?thesis using Cons.prems(1) [of "[]" v us] Cons.prems(2) by (auto split: if_splits)
  next
    case False
    then obtain us1 where us1: "remove_user name us = Inr us1" "us' = v # us1"
      using Cons.prems(2) by (auto split: sum.splits)
    obtain xs u ys where "us = xs @ u # ys" "us_Username u = name" "\<not> us_Enabled u" "name \<notin> set (map us_Username xs)"
      "us1 = xs @ ys"
      using Cons.IH [OF _ us1(1)] by blast
    then show ?thesis using Cons.prems(1) [of "v # xs" u ys] us1(2) False by simp
  qed
qed simp

lemma on_users_Inr: "on_users f m = Inr m' \<longleftrightarrow> (\<exists>us. f (mf_Users m) = Inr us \<and> m' = m\<lparr>mf_Users := us\<rparr>)"
  by (auto simp: on_users_def split: sum.split)

lemma drop_key_subset: "set (fst (drop_key fp ks)) \<subseteq> set ks"
  by (induction ks) (auto split: prod.splits)

section \<open>Users with keys\<close>

definition serviceable :: "Manifest \<Rightarrow> bool" where
  "serviceable m \<longleftrightarrow> list_all (\<lambda>u. us_Enabled u \<longrightarrow> usableKeys (us_Keys u) > 0) (mf_Users m)"

definition good_file :: "cfile option \<Rightarrow> bool" where
  "good_file f \<longleftrightarrow> (case f of None \<Rightarrow> True
     | Some f \<Rightarrow> (\<exists>m. cf_doc f = manifest_encode m \<and> manifest_ok True m \<and> keys_text m \<and> serviceable m))"

lemma good_file_strict: "good_file f \<Longrightarrow> strict_file f"
  by (auto simp: good_file_def strict_file_def split: option.splits)

lemma good_file_loaded:
  assumes "good_file (fs path)" "manifest_loadLocked io fs path = Inr m"
  shows "manifest_ok True m" "keys_text m" "serviceable m"
proof -
  show "manifest_ok True m" "keys_text m" using strict_file_loaded [of fs path, OF good_file_strict] assms by blast+
  show "serviceable m"
  proof (cases "ReadFile io fs path")
    case (Inl e)
    then show ?thesis using assms(2) by (auto simp: manifest_loadLocked_def serviceable_def split: if_splits)
  next
    case (Inr d)
    then obtain f where "fs path = Some f" "cf_doc f = d" by (auto simp: ReadFile_def split: option.splits)
    then obtain m0 where "d = manifest_encode m0" "manifest_ok True m0" "keys_text m0" "serviceable m0"
      using assms(1) by (auto simp: good_file_def)
    then show ?thesis using Inr assms(2) manifest_Load_new [of io fs path m0] by (simp add: manifest_Load_def)
  qed
qed

text \<open>The contract of a mutation of the manifest that a file was loaded from.\<close>

locale safe_mutation =
  fixes loaded :: "Manifest \<Rightarrow> bool"
    and fn :: "Manifest \<Rightarrow> (admin_error, Manifest) result"
  assumes keeps: "loaded m \<Longrightarrow> keys_text m \<Longrightarrow> serviceable m \<Longrightarrow> fn m = Inr m' \<Longrightarrow> keys_text m' \<and> serviceable m'"
begin

lemma update_states:
  assumes "good_file (fs path)" "io_tmp io \<noteq> path" "\<And>m. manifest_loadLocked io fs path = Inr m \<Longrightarrow> loaded m"
    and "st \<in> set (fst (manifest_Update io path fn fs))"
  shows "good_file (st path)"
proof (cases rule: manifest_Update_cases [of io path fn fs])
  case (refused e)
  then show ?thesis using assms by simp
next
  case (written m m')
  note l = good_file_loaded [of fs path, OF assms(1) written(1)]
  have m': "keys_text (stamped m')" "serviceable (stamped m')"
    using keeps [OF assms(3) [OF written(1)] l(2,3) written(2)] by (simp_all add: keys_text_def serviceable_def stamped_def)
  have "st path = fs path \<or> (\<exists>f. st path = Some f \<and> cf_doc f = manifest_encode (stamped m'))"
    using private_file.observed [OF assms(2), of st "manifest_encode (stamped m')" fs] assms(4) written(4)
    by (simp add: manifest_writeLocked_result)
  then show ?thesis using assms(1) written(3) m' by (auto simp: good_file_def)
qed

end

lemma list_all_replace: "list_all P (xs @ u # ys) \<Longrightarrow> P u' \<Longrightarrow> list_all P (xs @ u' # ys)"
  by simp

lemma update_user_safe:
  assumes "\<And>u u'. us_Username u = name \<Longrightarrow> f u = Inr u' \<Longrightarrow> list_all (\<lambda>k. valid_utf8 k) (us_Keys u)
      \<Longrightarrow> list_all (\<lambda>k. valid_utf8 k) (us_Keys u')"
    and "\<And>m u u'. loaded m \<Longrightarrow> u \<in> set (mf_Users m) \<Longrightarrow> us_Username u = name \<Longrightarrow> f u = Inr u'
      \<Longrightarrow> (us_Enabled u \<longrightarrow> usableKeys (us_Keys u) > 0) \<Longrightarrow> us_Enabled u' \<longrightarrow> usableKeys (us_Keys u') > 0"
  shows "safe_mutation loaded (on_users (update_user name f))"
proof
  fix m m'
  assume l: "loaded m" and m: "keys_text m" "serviceable m" "on_users (update_user name f) m = Inr m'"
  from m(3) obtain us where us: "update_user name f (mf_Users m) = Inr us" "m' = m\<lparr>mf_Users := us\<rparr>"
    by (auto simp: on_users_Inr)
  obtain xs u ys u' where
    s: "mf_Users m = xs @ u # ys" "us_Username u = name" "name \<notin> set (map us_Username xs)" "f u = Inr u'" "us = xs @ u' # ys"
    by (rule update_user_split [OF us(1)])
  have "us_Enabled u' \<longrightarrow> usableKeys (us_Keys u') > 0"
    using assms(2) [OF l _ s(2,4)] m(2) s(1) by (auto simp: serviceable_def)
  then show "keys_text m' \<and> serviceable m'"
    using m(1,2) assms(1) [OF s(2,4)] s(1,5) us(2) by (auto simp: keys_text_def serviceable_def)
qed

text \<open>A canonical key may be added anywhere.\<close>

lemma usable_append: "valid_key k \<Longrightarrow> usableKeys (ks @ [k]) > 0"
  by (simp add: usableKeys_count)

lemma usable_mem: "valid_key k \<Longrightarrow> k \<in> set ks \<Longrightarrow> usableKeys ks > 0"
  by (induction ks) (auto simp: usableKeys_count)

lemma create_user_safe:
  "valid_key pub \<Longrightarrow> valid_utf8 pub \<Longrightarrow> safe_mutation (\<lambda>_. True) (create_user name pub)"
  by unfold_locales
    (auto simp: create_user_def on_users_Inr keys_text_def serviceable_def usableKeys_count split: if_splits)

lemma add_key_safe:
  "valid_key k \<Longrightarrow> valid_utf8 k \<Longrightarrow> safe_mutation (\<lambda>_. True) (add_key name k)"
  unfolding add_key_def by (rule update_user_safe) (auto simp: usable_append usable_mem split: if_splits)

lemma append_key_safe:
  "valid_key k \<Longrightarrow> valid_utf8 k \<Longrightarrow> safe_mutation (\<lambda>_. True) (append_key name k)"
  unfolding append_key_def by (rule update_user_safe) (auto simp: usable_append)

text \<open>Switching off, removing a key and removing a user need nothing.\<close>

interpretation switch_off: safe_mutation "\<lambda>_. True" "set_status name False" for name
  unfolding set_status_def by (rule update_user_safe) auto

interpretation key_removal: safe_mutation "\<lambda>_. True" "deleteKey name fp" for name fp
  unfolding deleteKey_def
proof (rule update_user_safe)
  fix u u'
  assume "(case drop_key fp (us_Keys u) of (kept, matched) \<Rightarrow> if \<not> matched then Inl ANoSuchKey
      else (let u = u\<lparr>us_Keys := kept\<rparr> in Inr (if us_Enabled u \<and> usableKeys kept = 0 then u\<lparr>us_Enabled := False, us_Keys := []\<rparr> else u))) = Inr u'"
    and "list_all (\<lambda>k. valid_utf8 k) (us_Keys u)"
  then show "list_all (\<lambda>k. valid_utf8 k) (us_Keys u')"
    using drop_key_subset [of fp "us_Keys u"] by (auto simp: list_all_iff Let_def split: prod.splits if_splits)
qed (auto simp: Let_def split: prod.splits if_splits)

interpretation user_removal: safe_mutation "\<lambda>_. True" "delete_user name" for name
proof
  fix m m'
  assume m: "keys_text m" "serviceable m" "delete_user name m = Inr m'"
  from m(3) obtain us where us: "remove_user name (mf_Users m) = Inr us" "m' = m\<lparr>mf_Users := us\<rparr>"
    by (auto simp: delete_user_def on_users_Inr)
  obtain xs u ys where "mf_Users m = xs @ u # ys" "us_Username u = name" "\<not> us_Enabled u"
    "name \<notin> set (map us_Username xs)" "us = xs @ ys"
    by (rule remove_user_split [OF us(1)])
  then show "keys_text m' \<and> serviceable m'" using m(1,2) us(2) by (simp add: keys_text_def serviceable_def)
qed

text \<open>Switching on needs a manifest in which the user has a usable key.\<close>

definition enableable :: "string \<Rightarrow> Manifest \<Rightarrow> bool" where
  "enableable name m \<longleftrightarrow> (\<forall>u \<in> set (mf_Users m). us_Username u = name \<longrightarrow> usableKeys (us_Keys u) > 0)"

interpretation switch_on: safe_mutation "enableable name" "set_status name True" for name
  unfolding set_status_def by (rule update_user_safe) (auto simp: enableable_def)

text \<open>
  On a manifest in which the user has no key, the mutation itself switches the user on all
  the same: the check of \<open>handleStatus\<close> is on the manifest it loaded before.
\<close>

lemma set_status_unchecked:
  "set_status ''bob'' True \<lparr>mf_Version = 1, mf_Users = [\<lparr>us_Username = ''bob'', us_Enabled = False, us_Keys = []\<rparr>]\<rparr>
     = Inr \<lparr>mf_Version = 1, mf_Users = [\<lparr>us_Username = ''bob'', us_Enabled = True, us_Keys = []\<rparr>]\<rparr>"
  "manifest_ok True \<lparr>mf_Version = 1, mf_Users = [\<lparr>us_Username = ''bob'', us_Enabled = True, us_Keys = []\<rparr>]\<rparr>"
  by (simp add: set_status_def on_users_def, code_simp)

section \<open>Writes that leave the manifest alone\<close>

lemma note_ops_frame:
  assumes "p \<noteq> notesPath path" "p \<noteq> io_tmp io"
  shows "st \<in> set (fst (SetNote io path u fp nt fs)) \<Longrightarrow> st p = fs p"
    "st \<in> set (fst (DeleteNote io path u fp fs)) \<Longrightarrow> st p = fs p"
    "st \<in> set (fst (PruneNotes io path keep fs)) \<Longrightarrow> st p = fs p"
  using writeNotesLocked_frame [OF assms]
  by (auto simp: SetNote_def DeleteNote_def PruneNotes_def Let_def split: sum.splits option.splits if_splits)

lemma prune_notes_frame:
  "p \<noteq> notesPath path \<Longrightarrow> p \<noteq> io_tmp io \<Longrightarrow> st \<in> set (prune_notes io path fs) \<Longrightarrow> st p = fs p"
  using note_ops_frame(3) [of p path io st] by (auto simp: prune_notes_def split: sum.splits)

lemma ApplySettings_frame:
  assumes "p \<noteq> path" "p \<noteq> io_tmp io" "st \<in> set (fst (ApplySettings io path vals fs))"
  shows "st p = fs p"
proof (cases "st = fs")
  case False
  then obtain c where "st \<in> set (fst (shared_Save io path c fs))"
    using assms(3) by (auto simp: ApplySettings_def case_prod_unfold split: sum.splits if_splits option.splits)
  from shared_Save_trace [OF this] show ?thesis using shared_file.others [OF assms(1,2)] by auto
qed simp

lemma saveLocked_frame:
  assumes "p \<noteq> ls_path ls" "p \<noteq> io_tmp io" "st \<in> set (fst (snd (saveLocked io now fs ls)))"
  shows "st p = fs p" "ls_path (fst (saveLocked io now fs ls)) = ls_path ls"
proof -
  show "st p = fs p"
  proof (cases "st = fs")
    case False
    then obtain raw where "st \<in> set (fst (write_shared io (ls_path ls) raw fs))"
      using assms(3) by (auto simp: saveLocked_def Let_def case_prod_unfold split: option.splits)
    then show ?thesis using shared_file.others [OF assms(1,2)] by blast
  qed simp
qed (simp add: saveLocked_state)

lemma links_ops_frame:
  assumes "p \<noteq> ls_path ls" "p \<noteq> io_tmp io"
  shows "st \<in> set (fst (snd (links_Create io now fs l ls))) \<Longrightarrow> st p = fs p"
    "st \<in> set (fst (snd (links_Delete io now fs i ls))) \<Longrightarrow> st p = fs p"
    "ls_path (fst (links_Create io now fs l ls)) = ls_path ls"
    "ls_path (fst (links_Delete io now fs i ls)) = ls_path ls"
  using saveLocked_frame(1) [of p "ls\<lparr>ls_links := AList.update (lk_ID l) l (ls_links ls)\<rparr>" io st now fs]
    saveLocked_frame(1) [of p "ls\<lparr>ls_links := AList.delete i (ls_links ls)\<rparr>" io st now fs] assms
  by (auto simp: links_Create_def links_Delete_def saveLocked_state split: if_splits)

section \<open>Handlers\<close>

text \<open>The files of the service are apart, and no temporary file takes the manifest's name.\<close>

definition wired :: "AdminWorld \<Rightarrow> AdminServer \<Rightarrow> bool" where
  "wired w s \<longleftrightarrow> (\<forall>i. io_tmp (aw_io w i) \<noteq> as_store s) \<and> notesPath (as_store s) \<noteq> as_store s
     \<and> ls_path (as_links s) \<noteq> as_store s \<and> sharedConfigPath s \<noteq> as_store s"

lemma wiredD:
  assumes "wired w s"
  shows "as_store s \<noteq> notesPath (as_store s)" "as_store s \<noteq> io_tmp (aw_io w i)" "as_store s \<noteq> ls_path (as_links s)"
    "as_store s \<noteq> sharedConfigPath s"
  using assms by (metis wired_def)+

definition same_paths :: "AdminServer \<Rightarrow> AdminServer \<Rightarrow> bool" where
  [simp]: "same_paths s' s \<longleftrightarrow> as_store s' = as_store s \<and> ls_path (as_links s') = ls_path (as_links s)
     \<and> as_sharedPath s' = as_sharedPath s"

definition tame :: "AdminServer \<Rightarrow> ahandled \<Rightarrow> bool" where
  "tame s h \<longleftrightarrow> (case h of (s', tr, resp) \<Rightarrow> tr \<noteq> [] \<and> (\<forall>st \<in> set tr. good_file (st (as_store s))) \<and> same_paths s' s)"

lemma requireAuth_server: "\<exists>a. fst (requireAuth w r s) = s\<lparr>as_auth := a\<rparr>"
proof -
  have "\<exists>a. s = s\<lparr>as_auth := a\<rparr>" by (rule exI [of _ "as_auth s"]) simp
  then show ?thesis
    by (auto simp: requireAuth_def admin_current_def split: option.splits prod.splits if_splits)
qed

lemma with_auth_tame:
  assumes "good_file (aw_files w (as_store s))"
    and "\<And>sess a. tame s (k sess (s\<lparr>as_auth := a\<rparr>))"
  shows "tame s (with_auth w r k s)"
proof -
  obtain a where a: "fst (requireAuth w r s) = s\<lparr>as_auth := a\<rparr>" using requireAuth_server by blast
  show ?thesis
  proof (cases "snd (requireAuth w r s)")
    case (Inl resp)
    then have "with_auth w r k s = (s\<lparr>as_auth := a\<rparr>, [aw_files w], resp)"
      using a by (cases "requireAuth w r s") (simp add: with_auth_def)
    then show ?thesis using assms(1) by (simp add: tame_def)
  next
    case (Inr sess)
    then have "with_auth w r k s = k sess (s\<lparr>as_auth := a\<rparr>)"
      using a by (cases "requireAuth w r s") (simp add: with_auth_def)
    then show ?thesis using assms(2) by simp
  qed
qed

lemma tame_same: "good_file (aw_files w (as_store s)) \<Longrightarrow> same_paths s' s \<Longrightarrow> tame s (s', [aw_files w], resp)"
  by (simp add: tame_def)

lemma trace_nonempty:
  "fst (manifest_writeLocked io path m fs) \<noteq> []" "fst (writeNotesLocked io path n fs) \<noteq> []"
  by (simp_all add: manifest_writeLocked_result private_file.some_state writeNotesLocked_def split: prod.split)
    (metis fst_conv private_file.some_state)

lemma Update_nonempty: "fst (manifest_Update io path fn fs) \<noteq> []"
  by (cases rule: manifest_Update_cases [of io path fn fs]) (simp_all add: trace_nonempty)

text \<open>The states of an update by a safe mutation.\<close>

definition good_trace :: "string \<Rightarrow> cfs list \<Rightarrow> bool" where
  "good_trace path tr \<longleftrightarrow> tr \<noteq> [] \<and> (\<forall>st \<in> set tr. good_file (st path))"

lemma tame_trace: "tame s (s', tr, resp) \<longleftrightarrow> good_trace (as_store s) tr \<and> same_paths s' s"
  by (auto simp: tame_def good_trace_def)

lemma good_trace_single [simp]: "good_trace path [fs] \<longleftrightarrow> good_file (fs path)"
  by (simp add: good_trace_def)

lemma good_trace_append:
  assumes "good_trace path tr" "\<And>st. st \<in> set tr' \<Longrightarrow> st path = last tr path"
  shows "good_trace path (tr @ tr')"
proof -
  have "good_file (last tr path)" using assms(1) by (simp add: good_trace_def)
  then have "\<forall>st \<in> set tr'. good_file (st path)" using assms(2) by metis
  then show ?thesis using assms(1) by (auto simp: good_trace_def)
qed

lemma good_trace_same:
  assumes "tr \<noteq> []" "\<And>st. st \<in> set tr \<Longrightarrow> st path = fs path" "good_file (fs path)"
  shows "good_trace path tr"
proof -
  have "good_file (st path)" if "st \<in> set tr" for st using assms(2) [OF that] assms(3) by simp
  then show ?thesis using assms(1) by (simp add: good_trace_def)
qed

lemma lookup_user_mem:
  assumes "lookup_user m u = Some v"
  shows "v \<in> set (mf_Users m)" "us_Username v = u"
proof -
  obtain vs where "rev (filter (\<lambda>x. us_Username x = u) (mf_Users m)) = v # vs"
    using assms by (auto simp: lookup_user_def split: list.splits)
  then have "v \<in> set (rev (filter (\<lambda>x. us_Username x = u) (mf_Users m)))" by simp
  then show "v \<in> set (mf_Users m)" "us_Username v = u" by simp_all
qed

lemma update_good:
  assumes "manifest_Update (aw_io w 0) (as_store s) fn (aw_files w) = (tr, e)"
    and "safe_mutation loaded fn" "good_file (aw_files w (as_store s))" "wired w s"
    and "\<And>m. manifest_loadLocked (aw_io w 0) (aw_files w) (as_store s) = Inr m \<Longrightarrow> loaded m"
  shows "good_trace (as_store s) tr"
proof -
  have "io_tmp (aw_io w 0) \<noteq> as_store s" using assms(4) by (simp add: wired_def)
  then have "good_file (st (as_store s))" if "st \<in> set tr" for st
    using safe_mutation.update_states [OF assms(2), of "aw_files w" "as_store s", OF assms(3)] assms(1,5) that by (metis fst_conv)
  then show ?thesis using Update_nonempty [of "aw_io w 0" "as_store s" fn "aw_files w"] assms(1) by (simp add: good_trace_def)
qed

lemma offer_private_tame:
  "tame s (offer_private w sess title u pk pub tr s') \<longleftrightarrow> good_trace (as_store s) tr \<and> same_paths s' s"
  by (simp add: offer_private_def tame_trace Let_def split: option.split)

lemma handleCreate_tame:
  assumes good: "good_file (aw_files w (as_store s))" and wired: "wired w s"
  shows "tame s (handleCreate w r s)"
proof -
  have "valid_key pub \<and> valid_utf8 pub" if "create_keys w u pasted = Inr (pub, pk)" for u pasted pub pk
    using that canonical_key by (auto simp: create_keys_def split: if_splits sum.splits prod.splits)
  then have "good_trace (as_store s) tr"
    if "create_keys w u pasted = Inr (pub, pk)" "manifest_Update (aw_io w 0) (as_store s) (create_user u pub) (aw_files w) = (tr, e)"
    for u pasted pub pk tr e
    using update_good [OF that(2) create_user_safe good wired] that(1) by blast
  then show ?thesis
    unfolding handleCreate_def
    by (intro with_auth_tame good)
      (auto simp: Let_def tame_trace offer_private_tame good split: option.split sum.split prod.split)
qed

lemma handleAddKey_tame:
  assumes good: "good_file (aw_files w (as_store s))" and wired: "wired w s"
  shows "tame s (handleAddKey w r s)"
proof -
  have "good_trace (as_store s) tr"
    if "ValidatePublicKey k = Inr (c, fp)" "manifest_Update (aw_io w 0) (as_store s) (add_key u c) (aw_files w) = (tr, e)"
    for k c fp u tr e
    using update_good [OF that(2) add_key_safe good wired] canonical_key [OF that(1)] by blast
  then show ?thesis
    unfolding handleAddKey_def
    by (intro with_auth_tame good)
      (auto simp: Let_def tame_trace good split: option.split sum.split prod.split)
qed

lemma handleGenerateKey_tame:
  assumes good: "good_file (aw_files w (as_store s))" and wired: "wired w s"
  shows "tame s (handleGenerateKey w r s)"
proof -
  have "good_trace (as_store s) tr"
    if "ValidatePublicKey k = Inr (c, fp)" "manifest_Update (aw_io w 0) (as_store s) (append_key u c) (aw_files w) = (tr, e)"
    for k c fp u tr e
    using update_good [OF that(2) append_key_safe good wired] canonical_key [OF that(1)] by blast
  then show ?thesis
    unfolding handleGenerateKey_def
    by (intro with_auth_tame good)
      (auto simp: Let_def tame_trace offer_private_tame good split: option.split sum.split prod.split)
qed

lemma handleDeleteKey_tame:
  assumes good: "good_file (aw_files w (as_store s))" and wired: "wired w s"
  shows "tame s (handleDeleteKey w r s)"
proof -
  have "good_trace (as_store s) (tr @ fst (DeleteNote (aw_io w 1) (as_store s) u fp (last tr)))" "good_trace (as_store s) tr"
    if "manifest_Update (aw_io w 0) (as_store s) (deleteKey u fp) (aw_files w) = (tr, e)" for u fp tr e
  proof -
    show t: "good_trace (as_store s) tr"
      using update_good [OF that key_removal.safe_mutation_axioms good wired] by blast
    show "good_trace (as_store s) (tr @ fst (DeleteNote (aw_io w 1) (as_store s) u fp (last tr)))"
      by (rule good_trace_append [OF t]) (rule note_ops_frame(2) [OF wiredD(1,2) [OF wired]])
  qed
  then show ?thesis
    unfolding handleDeleteKey_def
    by (intro with_auth_tame good)
      (auto simp: Let_def tame_trace good split: option.split sum.split prod.split)
qed

lemma handleStatus_tame:
  assumes good: "good_file (aw_files w (as_store s))" and wired: "wired w s"
  shows "tame s (handleStatus w r s)"
proof -
  have "good_trace (as_store s) tr"
    if "(if b then can_enable (aw_io w 0) (aw_files w) s1 u else Inr ()) = Inr x" "as_store s1 = as_store s"
      "manifest_Update (aw_io w 0) (as_store s) (set_status u b) (aw_files w) = (tr, e)" for b s1 u x tr e
  proof (cases b)
    case False
    then show ?thesis
      using update_good [OF _ switch_off.safe_mutation_axioms good wired, of u tr e] that(3) by simp
  next
    case True
    have "enableable u m" if l: "manifest_loadLocked (aw_io w 0) (aw_files w) (as_store s) = Inr m" for m
    proof -
      obtain v where v: "lookup_user m u = Some v" "usableKeys (us_Keys v) > 0"
        using \<open>(if b then _ else _) = _\<close> True l \<open>as_store s1 = as_store s\<close>
        by (auto simp: can_enable_def manifest_Load_def split: sum.splits option.splits if_splits)
      have "inj_on us_Username (set (mf_Users m))"
        using manifest_loadLocked_ok [OF l] by (simp add: manifest_ok_def distinct_map)
      then have "x = v" if "x \<in> set (mf_Users m)" "us_Username x = u" for x
        using that lookup_user_mem [OF v(1)] by (simp add: inj_on_def)
      then show ?thesis using v(2) by (auto simp: enableable_def)
    qed
    then show ?thesis
      using update_good [OF _ switch_on.safe_mutation_axioms good wired, of u tr e] that(3) True by simp
  qed
  from this [of True] this [of False] show ?thesis
    unfolding handleStatus_def
    by (intro with_auth_tame good)
      (auto simp: Let_def tame_trace good bind_res_Inr split: option.split sum.split prod.split)
qed

lemma handleDelete_tame:
  assumes good: "good_file (aw_files w (as_store s))" and wired: "wired w s"
  shows "tame s (handleDelete w r s)"
proof -
  have "good_trace (as_store s) (tr @ prune_notes (aw_io w 1) (as_store s) (last tr))" "good_trace (as_store s) tr"
    if "manifest_Update (aw_io w 0) (as_store s) (delete_user u) (aw_files w) = (tr, e)" for u tr e
  proof -
    show t: "good_trace (as_store s) tr"
      using update_good [OF that user_removal.safe_mutation_axioms good wired] by blast
    show "good_trace (as_store s) (tr @ prune_notes (aw_io w 1) (as_store s) (last tr))"
      by (rule good_trace_append [OF t]) (rule prune_notes_frame [OF wiredD(1,2) [OF wired]])
  qed
  then show ?thesis
    unfolding handleDelete_def
    by (intro with_auth_tame good)
      (auto simp: Let_def tame_trace good split: option.split sum.split prod.split)
qed

lemma handleKeyNote_tame:
  assumes good: "good_file (aw_files w (as_store s))" and wired: "wired w s"
  shows "tame s (handleKeyNote w r s)"
proof -
  have "good_trace (as_store s) tr" if "SetNote (aw_io w 0) (as_store s) u fp nt (aw_files w) = (tr, e)" for u fp nt tr e
  proof -
    have "tr \<noteq> []" using that trace_nonempty(2)
      by (auto simp: SetNote_def split: sum.splits if_splits option.splits) (metis fst_conv)+
    moreover have "st (as_store s) = aw_files w (as_store s)" if "st \<in> set tr" for st
      using note_ops_frame(1) [OF wiredD(1,2) [OF wired], of st 0 u fp nt "aw_files w"] that \<open>SetNote _ _ _ _ _ _ = _\<close> by simp
    ultimately show ?thesis using good_trace_same [of tr "as_store s" "aw_files w"] good by blast
  qed
  then show ?thesis
    unfolding handleKeyNote_def
    by (intro with_auth_tame good)
      (auto simp: Let_def tame_trace good split: option.split sum.split prod.split)
qed

lemma handleRemoveInvalidKeys_tame:
  assumes good: "good_file (aw_files w (as_store s))" and wired: "wired w s"
  shows "tame s (handleRemoveInvalidKeys w r s)"
proof -
  have none: "fst (RemoveInvalidKeys (aw_io w 0) (as_store s) (aw_files w)) = [aw_files w]"
  proof (cases "manifest_loadLocked (aw_io w 0) (aw_files w) (as_store s)")
    case (Inr m)
    have "manifest_ok True m" using good_file_loaded(1) [of "aw_files w" "as_store s", OF good Inr] .
    then have "invalid_count m = 0" by (auto simp: invalid_count_def manifest_ok_def list_all_iff filter_empty_conv)
    then show ?thesis using RemoveInvalidKeys_loaded [OF Inr] by simp
  qed (simp add: RemoveInvalidKeys_def)
  have t: "good_trace (as_store s) [aw_files w]" using good by simp
  have "good_trace (as_store s) ([aw_files w] @ prune_notes (aw_io w 1) (as_store s) (last [aw_files w]))"
    by (rule good_trace_append [OF t]) (rule prune_notes_frame [OF wiredD(1,2) [OF wired]])
  then show ?thesis
    unfolding handleRemoveInvalidKeys_def using none
    by (intro with_auth_tame good)
      (auto simp: tame_trace good split: sum.split prod.split)
qed

lemma handleSettingsSave_tame:
  assumes good: "good_file (aw_files w (as_store s))" and wired: "wired w s"
  shows "tame s (handleSettingsSave w r s)"
proof -
  have "good_trace (as_store s) tr"
    if "ApplySettings (aw_io w 0) (sharedConfigPath s) vals (aw_files w) = (tr, e)" for vals tr e
  proof -
    have "tr \<noteq> []" using that shared_file.some_state
      by (auto simp: ApplySettings_def shared_Save_def case_prod_unfold split: sum.splits if_splits option.splits)
    moreover have "st (as_store s) = aw_files w (as_store s)" if "st \<in> set tr" for st
      using ApplySettings_frame [OF wiredD(4,2) [OF wired], of st 0 vals "aw_files w"] that \<open>ApplySettings _ _ _ _ = _\<close> by simp
    ultimately show ?thesis using good_trace_same [of tr "as_store s" "aw_files w"] good by blast
  qed
  then show ?thesis
    unfolding handleSettingsSave_def
    by (intro with_auth_tame good)
      (auto simp: Let_def tame_trace good sharedConfigPath_def split: sum.split prod.split)
qed

lemma links_ops_nonempty:
  "fst (snd (links_Create io now fs l ls)) \<noteq> []" "fst (snd (links_Delete io now fs i ls)) \<noteq> []"
  using shared_file.some_state
  by (simp_all add: links_Create_def links_Delete_def saveLocked_def Let_def case_prod_unfold split: option.split)

lemma links_ops_good:
  assumes "good_file (aw_files w p)" "p \<noteq> ls_path ls" "p \<noteq> io_tmp (aw_io w 0)"
  shows "links_Create (aw_io w 0) (aw_now w) (aw_files w) l ls = (ls', tr, e) \<Longrightarrow> good_trace p tr \<and> ls_path ls' = ls_path ls"
    "links_Delete (aw_io w 0) (aw_now w) (aw_files w) i ls = (ls', tr, e) \<Longrightarrow> good_trace p tr \<and> ls_path ls' = ls_path ls"
  using good_trace_same [of tr p "aw_files w", OF _ _ assms(1)] links_ops_frame [OF assms(2,3)] links_ops_nonempty
  by (metis fst_conv snd_conv)+

lemma handleLinks_ops_tame:
  assumes good: "good_file (aw_files w (as_store s))" and wired: "wired w s"
  shows "tame s (handleLinkCreate w r s)" "tame s (admin_handleLinkDelete w r s)"
proof -
  let ?s = "admin_reloadLinks w s"
  have s: "as_store ?s = as_store s" "ls_path (as_links ?s) = ls_path (as_links s)" "as_sharedPath ?s = as_sharedPath s"
    by (simp_all add: admin_reloadLinks_def links_Load_def split: sum.split option.split)
  have tame: "tame s h \<longleftrightarrow> tame ?s h" for h by (cases h) (simp add: tame_def s)
  have "as_store ?s \<noteq> ls_path (as_links ?s)" "as_store ?s \<noteq> io_tmp (aw_io w 0)" "good_file (aw_files w (as_store ?s))"
    using wiredD(2,3) [OF wired] s good by simp_all
  note trace = links_ops_good [OF this(3,1,2)]
  have g: "good_file (aw_files w (as_store ?s))" using good s by simp
  show "tame s (handleLinkCreate w r s)"
    unfolding handleLinkCreate_def tame
    by (rule with_auth_tame [OF g])
      (auto simp: Let_def tame_trace good s split: sum.split prod.split option.split dest!: trace)
  show "tame s (admin_handleLinkDelete w r s)"
    unfolding admin_handleLinkDelete_def tame
    by (rule with_auth_tame [OF g])
      (auto simp: Let_def tame_trace good s split: sum.split prod.split option.split dest!: trace)
qed

lemma handle_reads_tame:
  assumes good: "good_file (aw_files w (as_store s))"
  shows "tame s (admin_handleHealth w s)" "tame s (handleIndex w r s)" "tame s (handleLoginPage w r s)"
    "tame s (handleLogin w r s)" "tame s (handleLogout w r s)" "tame s (admin_handleDownload w r s)"
    "tame s (handleSettings w r s)" "tame s (handleLinks w r s)"
proof -
  show "tame s (admin_handleHealth w s)" "tame s (handleLoginPage w r s)"
    "tame s (handleLogin w r s)" "tame s (handleLogout w r s)"
    by (auto simp: tame_trace good admin_handleHealth_def handleLoginPage_def handleLogin_def handleLogout_def admin_current_def
        Let_def split: option.split prod.split bool.split)
  show "tame s (handleIndex w r s)" "tame s (handleSettings w r s)" "tame s (admin_handleDownload w r s)"
    unfolding handleIndex_def handleSettings_def admin_handleDownload_def
    by (intro with_auth_tame good; simp add: tame_trace good Let_def split: option.split)+
  have "tame (admin_reloadLinks w s) (handleLinks w r s)"
    unfolding handleLinks_def by (intro with_auth_tame) (simp_all add: tame_trace good admin_reloadLinks_def)
  then show "tame s (handleLinks w r s)"
    by (cases "handleLinks w r s") (simp add: tame_def admin_reloadLinks_def links_Load_def split: sum.splits option.splits if_splits)
qed

lemmas handlers_tame = handle_reads_tame handleCreate_tame handleAddKey_tame handleGenerateKey_tame handleDeleteKey_tame
  handleStatus_tame handleDelete_tame handleKeyNote_tame handleRemoveInvalidKeys_tame handleSettingsSave_tame
  handleLinks_ops_tame

lemma admin_ServeHTTP_tame:
  assumes "good_file (aw_files w (as_store s))" "wired w s"
  shows "tame s (admin_ServeHTTP w r s)"
  using handlers_tame [OF assms(1)] assms(2)
  by (cases "admin_route (aq_method r) (aq_path r)") (simp_all add: admin_ServeHTTP_def tame_trace assms(1))

section \<open>The life of an installation\<close>

text \<open>
  The states of an installation whose manifest did not exist at first: the service is down, or
  runs in a state. It starts with the seed, serves requests one after another, and may stop in any
  state of the files on the way; other processes leave the manifest alone. Handlers that overlap are not among these
  runs: a handler reads the manifest for its checks before the update takes the lock, and \<open>Admin_Races\<close> shows
  what two of them can do to each other.
\<close>

inductive admin_states :: "AdminConfig \<Rightarrow> AdminServer option \<Rightarrow> cfs \<Rightarrow> bool" for cfg where
  installed: "fs (ac_UsersFile cfg) = None \<Longrightarrow> admin_states cfg None fs"
| interrupted: "admin_states cfg x fs \<Longrightarrow> io_tmp io \<noteq> ac_UsersFile cfg \<Longrightarrow> seedIfAbsent fault io cfg fs = (tr, err)
    \<Longrightarrow> st \<in> set tr \<Longrightarrow> admin_states cfg None st"
| started: "admin_states cfg x fs \<Longrightarrow> io_tmp io \<noteq> ac_UsersFile cfg \<Longrightarrow> seedIfAbsent fault io cfg fs = (tr, None)
    \<Longrightarrow> admin_states cfg (Some (NewServer w cfg)) (last tr)"
| request: "admin_states cfg (Some s) (aw_files w) \<Longrightarrow> \<forall>i. io_tmp (aw_io w i) \<noteq> ac_UsersFile cfg
    \<Longrightarrow> admin_ServeHTTP w r s = (s', tr, resp) \<Longrightarrow> admin_states cfg (Some s') (last tr)"
| stopped: "admin_states cfg (Some s) (aw_files w) \<Longrightarrow> \<forall>i. io_tmp (aw_io w i) \<noteq> ac_UsersFile cfg
    \<Longrightarrow> admin_ServeHTTP w r s = (s', tr, resp) \<Longrightarrow> st \<in> set tr \<Longrightarrow> admin_states cfg None st"
| elsewhere: "admin_states cfg x fs \<Longrightarrow> fs' (ac_UsersFile cfg) = fs (ac_UsersFile cfg) \<Longrightarrow> admin_states cfg x fs'"

text \<open>The manifest, the notes, the links and the settings are different files.\<close>

definition files_apart :: "AdminConfig \<Rightarrow> bool" where
  "files_apart cfg \<longleftrightarrow> notesPath (ac_UsersFile cfg) \<noteq> ac_UsersFile cfg
     \<and> FJoin (ac_LinksDir cfg) ''links.json'' \<noteq> ac_UsersFile cfg \<and> ac_SharedPath cfg \<noteq> ac_UsersFile cfg
     \<and> ac_SharedPath cfg \<noteq> []"

definition configured :: "AdminConfig \<Rightarrow> AdminServer option \<Rightarrow> bool" where
  "configured cfg x \<longleftrightarrow> (case x of None \<Rightarrow> True | Some s \<Rightarrow> as_store s = ac_UsersFile cfg
     \<and> ls_path (as_links s) = FJoin (ac_LinksDir cfg) ''links.json'' \<and> as_sharedPath s = ac_SharedPath cfg)"

lemma configured_wired:
  "files_apart cfg \<Longrightarrow> configured cfg (Some s) \<Longrightarrow> \<forall>i. io_tmp (aw_io w i) \<noteq> ac_UsersFile cfg \<Longrightarrow> wired w s"
  by (simp add: files_apart_def configured_def wired_def sharedConfigPath_def)

lemma NewServer_configured: "configured cfg (Some (NewServer w cfg))"
  by (simp add: configured_def NewServer_def links_Load_def links_NewStore_def split: sum.split option.split)

lemma seed_safe: "valid_key pub \<Longrightarrow> valid_utf8 pub \<Longrightarrow> safe_mutation (\<lambda>_. True) (seed_mutation cfg pub)"
  by unfold_locales (auto simp: seed_mutation_def keys_text_def serviceable_def usableKeys_count)

lemma seedIfAbsent_good:
  assumes "good_file (fs (ac_UsersFile cfg))" "io_tmp io \<noteq> ac_UsersFile cfg" "seedIfAbsent fault io cfg fs = (tr, err)"
  shows "good_trace (ac_UsersFile cfg) tr"
proof (cases "tr = [fs]")
  case False
  then obtain pub fp where "ValidatePublicKey (ac_SeedPubKey cfg) = Inr (pub, fp)"
    "manifest_Update io (ac_UsersFile cfg) (seed_mutation cfg pub) fs = (tr, err)"
    using assms(3) by (auto simp: seedIfAbsent_def split: if_splits option.splits sum.splits)
  then show ?thesis
    using safe_mutation.update_states [of "\<lambda>_. True" "seed_mutation cfg pub" fs "ac_UsersFile cfg" io, OF seed_safe assms(1,2)]
      canonical_key Update_nonempty [of io "ac_UsersFile cfg" "seed_mutation cfg pub" fs]
    by (auto simp: good_trace_def)
qed (simp add: assms(1))

lemma admin_states_good:
  assumes "files_apart cfg"
  shows "admin_states cfg x fs \<Longrightarrow> good_file (fs (ac_UsersFile cfg)) \<and> configured cfg x"
proof (induction rule: admin_states.induct)
  case (installed fs)
  then show ?case by (simp add: good_file_def configured_def)
next
  case (interrupted x fs io fault tr err st)
  then show ?case using seedIfAbsent_good [of fs cfg io] by (auto simp: good_trace_def configured_def)
next
  case (started x fs io fault tr w)
  then show ?case using seedIfAbsent_good [of fs cfg io] by (auto simp: good_trace_def NewServer_configured)
next
  case (request s w r s' tr resp)
  then show ?case
    using admin_ServeHTTP_tame [of w s r] configured_wired [OF assms, of s w] by (auto simp: tame_def configured_def)
next
  case (stopped s w r s' tr resp st)
  then show ?case
    using admin_ServeHTTP_tame [of w s r] configured_wired [OF assms, of s w] by (auto simp: tame_def configured_def)
next
  case (elsewhere x fs fs')
  then show ?case by simp
qed

text \<open>
  C6: In every state of an installation whose admin service serves its requests one after another, also in one
  that a crash left behind in the middle of a
  request, a process that loads the user manifest finds a valid manifest in which every user
  who is switched on has a usable key. (Two handlers that overlap can break the second part:
  \<open>enable_overtaken\<close> in \<open>Admin_Races\<close>.)
\<close>

theorem enabled_users_have_keys:
  assumes "files_apart cfg" "admin_states cfg x fs" "manifest_Load io fs (ac_UsersFile cfg) = Inr m"
  shows "validateManifest m True = None
    \<and> (\<forall>u \<in> set (mf_Users m). us_Enabled u \<longrightarrow> (\<exists>k \<in> set (us_Keys u). valid_key k))"
proof (intro conjI ballI impI)
  note g = good_file_loaded [of fs "ac_UsersFile cfg" io m]
  have f: "good_file (fs (ac_UsersFile cfg))" using admin_states_good [OF assms(1,2)] by simp
  show "validateManifest m True = None"
    using g(1) [OF f] assms(3) by (simp add: manifest_Load_def validateManifest_None)
  fix u assume u: "u \<in> set (mf_Users m)" "us_Enabled u"
  have "length (filter valid_key (us_Keys u)) > 0"
    using g(3) [OF f] assms(3) u by (auto simp: manifest_Load_def serviceable_def list_all_iff usableKeys_count)
  then show "\<exists>k \<in> set (us_Keys u). valid_key k" by (auto simp: filter_empty_conv)
qed

theorem enabled_users_have_keys_witness:
  "validateManifest (seed_manifest ''ann'' demo_key) True = None \<and> (\<exists>k \<in> {demo_key}. valid_key k)"
proof -
  let ?r = "seedIfAbsent None io_ok demo_seed_cfg Map.empty"
  let ?m = "seed_manifest ''ann'' demo_key"
  have c: "ac_UsersFile demo_seed_cfg = ''/var/lib/sftp-users/users.json''" "ac_SeedUser demo_seed_cfg = ''ann''"
    "ac_SeedPubKey demo_seed_cfg = demo_key" by (simp_all add: demo_seed_cfg_def)
  have apart: "files_apart demo_seed_cfg"
    unfolding files_apart_def c by (simp add: demo_seed_cfg_def) code_simp
  have "admin_states demo_seed_cfg None Map.empty" by (rule admin_states.installed) simp
  then have st: "admin_states demo_seed_cfg (Some (NewServer w demo_seed_cfg)) (last (fst ?r))" for w
    by (rule admin_states.started [of _ _ _ io_ok None]) (simp_all add: c io_ok_def prod_eq_iff demo_seed_run [unfolded io_ok_def])
  have "ValidatePublicKey demo_key = Inr (demo_key, ''SHA256:'' @ fingerprintSHA256 demo_blob)"
    using demo_key_valid by (simp add: demo_key_def)
  then have "manifest_Load io_ok (last (fst ?r)) (ac_UsersFile demo_seed_cfg) = Inr ?m"
    using seed_first_boot [OF demo_LoadConfig, of io_ok io_ok Map.empty "fst ?r" "snd ?r"] demo_seed_run
    by (simp add: c io_ok_def)
  from enabled_users_have_keys [OF apart st this]
  show ?thesis by (simp add: seed_manifest_def)
qed

end
