(* ===== verification/Admin_Props.thy ===== *)
theory Admin_Props
  imports Admin_Users
begin

text \<open>
  What the handlers of the admin service promise: the mutations refine operations on a map
  from names to users, nothing happens without a session, a login opens one, and the private key of a
  generated pair leaves the service at most once and is never written to a file.
\<close>

section \<open>Mutations as operations on a map\<close>

type_synonym account = "bool \<times> string list"

datatype user_cmd =
    CreateUser string string
  | AddKey string string
  | AppendKey string string
  | SetStatus string bool
  | RemoveKey string string
  | RemoveUser string

text \<open>The commands as the handlers run them on a manifest.\<close>

fun run_cmd :: "user_cmd \<Rightarrow> Manifest \<Rightarrow> (admin_error, Manifest) result" where
  "run_cmd (CreateUser name k) = create_user name k"
| "run_cmd (AddKey name k) = add_key name k"
| "run_cmd (AppendKey name k) = append_key name k"
| "run_cmd (SetStatus name b) = set_status name b"
| "run_cmd (RemoveKey name fp) = deleteKey name fp"
| "run_cmd (RemoveUser name) = delete_user name"

text \<open>The specification: accounts by name, each with a status and a list of keys.\<close>

definition on_account :: "string \<Rightarrow> (account \<Rightarrow> (admin_error, account) result) \<Rightarrow> (string \<rightharpoonup> account)
    \<Rightarrow> (admin_error, string \<rightharpoonup> account) result" where
  "on_account name f A =
     (case A name of None \<Rightarrow> Inl ANoSuchUser | Some x \<Rightarrow> map_sum id (\<lambda>y. A(name \<mapsto> y)) (f x))"

definition without_first :: "('a \<Rightarrow> bool) \<Rightarrow> 'a list \<Rightarrow> 'a list" where
  "without_first P xs = takeWhile (\<lambda>x. \<not> P x) xs @ tl (dropWhile (\<lambda>x. \<not> P x) xs)"

fun account_cmd :: "user_cmd \<Rightarrow> (string \<rightharpoonup> account) \<Rightarrow> (admin_error, string \<rightharpoonup> account) result" where
  "account_cmd (CreateUser name k) A = (if name \<in> dom A then Inl AUserExists else Inr (A(name \<mapsto> (True, [k]))))"
| "account_cmd (AddKey name k) A = on_account name (\<lambda>(on, ks). Inr (on, if k \<in> set ks then ks else ks @ [k])) A"
| "account_cmd (AppendKey name k) A = on_account name (\<lambda>(on, ks). Inr (on, ks @ [k])) A"
| "account_cmd (SetStatus name b) A = on_account name (\<lambda>(on, ks). Inr (b, ks)) A"
| "account_cmd (RemoveKey name fp) A = on_account name (\<lambda>(on, ks).
     let ks' = without_first (has_fingerprint fp) ks in
     if \<not> list_ex (has_fingerprint fp) ks then Inl ANoSuchKey
     else if on \<and> \<not> list_ex valid_key ks' then Inr (False, [])
     else Inr (on, ks')) A"
| "account_cmd (RemoveUser name) A =
     (case A name of None \<Rightarrow> Inl ANoSuchUser | Some (on, _) \<Rightarrow> if on then Inl ADeleteEnabled else Inr (A(name := None)))"

definition account_of :: "User \<Rightarrow> account" where
  "account_of u = (us_Enabled u, us_Keys u)"

definition by_name :: "User list \<Rightarrow> (string \<rightharpoonup> account)" where
  "by_name us = map_of (map (\<lambda>u. (us_Username u, account_of u)) us)"

definition accounts :: "Manifest \<Rightarrow> (string \<rightharpoonup> account)" where
  "accounts m = by_name (mf_Users m)"

lemma by_name_None: "by_name us n = None \<longleftrightarrow> n \<notin> us_Username ` set us"
  by (simp add: by_name_def map_of_eq_None_iff image_image)

lemma by_name_simps [simp]:
  "by_name [] = Map.empty"
  "by_name (u # us) = (by_name us)(us_Username u \<mapsto> account_of u)"
  by (simp_all add: by_name_def)

lemma by_name_append: "by_name (xs @ ys) n = (if n \<in> us_Username ` set xs then by_name xs n else by_name ys n)"
  by (induction xs) auto

text \<open>A name is that of no user, or there is a first user with it.\<close>

lemma account_cases:
  obtains (absent) "accounts m name = None" "name \<notin> us_Username ` set (mf_Users m)"
  | (present) xs u ys where "mf_Users m = xs @ u # ys" "us_Username u = name" "name \<notin> us_Username ` set xs"
      "accounts m name = Some (account_of u)"
proof (cases "name \<in> us_Username ` set (mf_Users m)")
  case False
  then show ?thesis using absent by_name_None [of "mf_Users m"] by (simp add: accounts_def)
next
  case True
  then obtain xs u ys where s: "mf_Users m = xs @ u # ys" "us_Username u = name" "name \<notin> us_Username ` set xs"
    using split_list_first_prop [of "mf_Users m" "\<lambda>u. us_Username u = name"] by (force simp: image_iff)
  then show ?thesis using present [of xs u ys] by (simp add: accounts_def by_name_append)
qed

lemma drop_key_first: "drop_key fp ks = (without_first (has_fingerprint fp) ks, list_ex (has_fingerprint fp) ks)"
  by (induction ks) (simp_all add: without_first_def)

lemma usable_ex: "usableKeys ks = 0 \<longleftrightarrow> \<not> list_ex valid_key ks"
  by (simp add: usableKeys_count filter_empty_conv list_ex_iff)

text \<open>The loop over the users is the operation on one account.\<close>

lemma update_user_refines:
  assumes "\<And>u u'. f u = Inr u' \<Longrightarrow> us_Username u' = us_Username u"
    and "\<And>u. us_Username u = name \<Longrightarrow> map_sum id account_of (f u) = g (account_of u)"
  shows "map_sum id accounts (on_users (update_user name f) m) = on_account name g (accounts m)"
proof (cases rule: account_cases [of m name])
  case absent
  have "update_user name f us = Inl ANoSuchUser" if "name \<notin> us_Username ` set us" for us
    using that by (induction us) auto
  then show ?thesis using absent by (simp add: on_users_def on_account_def)
next
  case (present xs u ys)
  have upd: "update_user name f (zs @ u # ys) = (case f u of Inl e \<Rightarrow> Inl e | Inr u' \<Rightarrow> Inr (zs @ u' # ys))"
    if "name \<notin> us_Username ` set zs" for zs
    using that present(2) by (induction zs) (auto split: sum.split)
  note g = assms(2) [OF present(2)]
  show ?thesis
  proof (cases "f u")
    case (Inl e)
    then show ?thesis using upd [OF present(3)] present(1,4) g [symmetric] by (simp add: on_users_def on_account_def)
  next
    case (Inr u')
    have "by_name (xs @ u' # ys) = (by_name (mf_Users m))(name \<mapsto> account_of u')"
      using assms(1) [OF Inr] present(1-3) by (auto simp: fun_eq_iff by_name_append)
    then show ?thesis using Inr upd [OF present(3)] present(1,4) g [symmetric]
      by (simp add: on_users_def on_account_def accounts_def)
  qed
qed

lemma remove_user_refines:
  assumes "distinct (map us_Username (mf_Users m))"
  shows "map_sum id accounts (delete_user name m) = account_cmd (RemoveUser name) (accounts m)"
proof (cases rule: account_cases [of m name])
  case absent
  have "remove_user name us = Inl ANoSuchUser" if "name \<notin> us_Username ` set us" for us
    using that by (induction us) auto
  then show ?thesis using absent by (simp add: on_users_def delete_user_def)
next
  case (present xs u ys)
  have rem: "remove_user name (zs @ u # ys) = (if us_Enabled u then Inl ADeleteEnabled else Inr (zs @ ys))"
    if "name \<notin> us_Username ` set zs" for zs
    using that present(2) by (induction zs) auto
  have "name \<notin> us_Username ` set ys" using assms present(1,2) by auto
  then have "by_name (xs @ ys) = (by_name (mf_Users m))(name := None)"
    using present by_name_None by (auto simp: fun_eq_iff by_name_append)
  then show ?thesis using present(1,4) rem [OF present(3)] by (simp add: delete_user_def on_users_def account_of_def accounts_def)
qed

lemma create_user_refines: "map_sum id accounts (create_user name k m) = account_cmd (CreateUser name k) (accounts m)"
proof (cases rule: account_cases [of m name])
  case absent
  then have "by_name (mf_Users m @ [\<lparr>us_Username = name, us_Enabled = True, us_Keys = [k]\<rparr>])
      = (by_name (mf_Users m))(name \<mapsto> (True, [k]))"
    by (auto simp: fun_eq_iff by_name_append account_of_def dest!: by_name_None [THEN iffD2])
  then show ?thesis using absent by (auto simp: create_user_def on_users_def accounts_def domIff)
next
  case present
  then show ?thesis by (auto simp: create_user_def on_users_def)
qed

text \<open>
  C12: The mutations that the handlers pass to the user manifest are exactly the operations of a
  map from names to accounts: on every manifest with distinct names, creation, the two ways of adding a
  key, switching, removing a key and removing a user change the map as specified and
  refuse with the specified error in all other cases.
\<close>

theorem user_ops_refine_map:
  assumes "distinct (map us_Username (mf_Users m))"
  shows "map_sum id accounts (run_cmd c m) = account_cmd c (accounts m)"
proof (cases c)
  case (CreateUser name k)
  then show ?thesis using create_user_refines by simp
next
  case (RemoveUser name)
  then show ?thesis using remove_user_refines [OF assms] by simp
next
  case (AddKey name k)
  then show ?thesis unfolding AddKey run_cmd.simps account_cmd.simps add_key_def
    by (intro update_user_refines) (auto simp: account_of_def split: if_splits)
next
  case (AppendKey name k)
  then show ?thesis unfolding AppendKey run_cmd.simps account_cmd.simps append_key_def
    by (intro update_user_refines) (auto simp: account_of_def)
next
  case (SetStatus name b)
  then show ?thesis unfolding SetStatus run_cmd.simps account_cmd.simps set_status_def
    by (intro update_user_refines) (auto simp: account_of_def)
next
  case (RemoveKey name fp)
  then show ?thesis unfolding RemoveKey run_cmd.simps account_cmd.simps deleteKey_def drop_key_first
    by (intro update_user_refines) (auto simp: account_of_def Let_def usable_ex split: if_splits)
qed

theorem user_ops_refine_map_witness:
  "map_sum id accounts (run_cmd (SetStatus ''bob'' True) \<lparr>mf_Version = 1,
      mf_Users = [\<lparr>us_Username = ''ann'', us_Enabled = True, us_Keys = []\<rparr>, \<lparr>us_Username = ''bob'', us_Enabled = False, us_Keys = []\<rparr>]\<rparr>)
     = Inr [''ann'' \<mapsto> (True, []), ''bob'' \<mapsto> (True, [])]"
  by (subst user_ops_refine_map) (simp_all add: on_account_def accounts_def by_name_def account_of_def fun_upd_twist)

section \<open>Sessions\<close>

text \<open>The session a request presents, and whether it may act in it.\<close>

definition presented :: "AdminWorld \<Rightarrow> AdminRequest \<Rightarrow> AdminServer \<Rightarrow> session option" where
  "presented w r s = Option.bind (aq_cookie r sessionCookieName) (\<lambda>c.
     Option.bind (au_sessions (as_auth s) c) (\<lambda>sess. if aw_now w \<le> se_expires sess then Some sess else None))"

definition may_act :: "AdminRequest \<Rightarrow> session \<Rightarrow> bool" where
  "may_act r sess \<longleftrightarrow> aq_method r = ''POST'' \<longrightarrow> checkCSRF sess (FormValue r csrfField)"

text \<open>A look at the session leaves all of the server but an expired session as it is.\<close>

definition only_sessions :: "AdminServer \<Rightarrow> AdminServer \<Rightarrow> bool" where
  "only_sessions s s' \<longleftrightarrow> s' = s\<lparr>as_auth := as_auth s'\<rparr> \<and> au_sessions (as_auth s') \<subseteq>\<^sub>m au_sessions (as_auth s)
     \<and> au_failures (as_auth s') = au_failures (as_auth s)"

lemma only_sessions_refl: "only_sessions s s"
  by (simp add: only_sessions_def)

lemma admin_current_presented:
  "snd (admin_current w r s) = presented w r s" "only_sessions s (fst (admin_current w r s))"
  "presented w r s = Some sess \<Longrightarrow> fst (admin_current w r s) = s"
  using only_sessions_refl [of s]
  by (auto simp: admin_current_def presented_def auth_lookup_def only_sessions_def map_le_def split: option.split)

lemma requireAuth_cases:
  obtains (refused) s1 resp where "requireAuth w r s = (s1, Inl resp)" "only_sessions s s1"
      "case presented w r s of None \<Rightarrow> resp = (if aq_method r = ''GET'' then see_other ''/login'' else aerror ''login required'' 401)
       | Some sess \<Rightarrow> \<not> may_act r sess \<and> resp = aerror ''bad csrf token'' 403"
  | (granted) sess where "requireAuth w r s = (s, Inr sess)" "presented w r s = Some sess" "may_act r sess"
proof (cases "presented w r s")
  case None
  then show ?thesis using refused [of "fst (admin_current w r s)"] admin_current_presented(1) [of w r s] admin_current_presented(2) [of s w r]
    by (cases "admin_current w r s") (simp add: requireAuth_def)
next
  case (Some sess)
  then have "admin_current w r s = (s, Some sess)"
    using admin_current_presented(1,3) [of w r s] by (simp add: prod_eq_iff)
  then show ?thesis using refused [of s] granted [of sess] Some only_sessions_refl
    by (cases "may_act r sess") (simp_all add: requireAuth_def may_act_def)
qed

lemma with_auth_granted:
  assumes "presented w r s = Some sess" "may_act r sess"
  shows "with_auth w r k s = k sess s"
  using assms by (cases rule: requireAuth_cases [of w r s]) (auto simp: with_auth_def)

text \<open>The routes that do not start with \<open>requireAuth\<close>.\<close>

definition open_routes :: "aroute set" where
  "open_routes = {ARHealth, ARLoginPage, ARLogin, ARLogout, ARNotFound, ARNotAllowed}"

text \<open>The result of a handler for a request that has no session or not its token.\<close>

definition turned_away :: "AdminWorld \<Rightarrow> AdminRequest \<Rightarrow> AdminServer \<Rightarrow> ahandled \<Rightarrow> bool" where
  "turned_away w r s h \<longleftrightarrow> (case h of (s', tr, resp) \<Rightarrow>
     tr = [aw_files w] \<and> (\<exists>ls. only_sessions (s\<lparr>as_links := ls\<rparr>) s')
     \<and> resp = (if presented w r s \<noteq> None then aerror ''bad csrf token'' 403
               else if aq_method r = ''GET'' then see_other ''/login'' else aerror ''login required'' 401))"

lemma with_auth_refused:
  assumes "\<not> (\<exists>sess. presented w r s = Some sess \<and> may_act r sess)"
  shows "turned_away w r s (with_auth w r k s)"
proof (cases rule: requireAuth_cases [of w r s])
  case (refused s1 resp)
  have "s\<lparr>as_links := as_links s\<rparr> = s" by simp
  then have "\<exists>ls. only_sessions (s\<lparr>as_links := ls\<rparr>) s1" using refused(2) by metis
  then show ?thesis using refused(1,3) by (auto simp: with_auth_def turned_away_def split: option.splits)
qed (use assms in auto)

lemma with_auth_reload_refused:
  assumes "\<not> (\<exists>sess. presented w r s = Some sess \<and> may_act r sess)"
  shows "turned_away w r s (with_auth w r k (admin_reloadLinks w s))"
proof -
  let ?h = "with_auth w r k (admin_reloadLinks w s)"
  have p: "presented w r (s\<lparr>as_links := ls\<rparr>) = presented w r s" for ls by (simp add: presented_def)
  have "turned_away w r (admin_reloadLinks w s) ?h" using assms by (intro with_auth_refused) (simp add: p admin_reloadLinks_def)
  then show ?thesis by (cases ?h) (auto simp: turned_away_def p admin_reloadLinks_def)
qed

lemma handlers_refused:
  assumes "\<not> (\<exists>sess. presented w r s = Some sess \<and> may_act r sess)"
  shows "turned_away w r s (handleIndex w r s)" "turned_away w r s (handleCreate w r s)"
    "turned_away w r s (handleAddKey w r s)" "turned_away w r s (handleDeleteKey w r s)"
    "turned_away w r s (handleKeyNote w r s)" "turned_away w r s (handleRemoveInvalidKeys w r s)"
    "turned_away w r s (handleGenerateKey w r s)" "turned_away w r s (handleStatus w r s)"
    "turned_away w r s (handleDelete w r s)" "turned_away w r s (admin_handleDownload w r s)"
    "turned_away w r s (handleSettings w r s)" "turned_away w r s (handleSettingsSave w r s)"
    "turned_away w r s (handleLinks w r s)" "turned_away w r s (handleLinkCreate w r s)"
    "turned_away w r s (admin_handleLinkDelete w r s)"
  unfolding handleIndex_def handleCreate_def handleAddKey_def handleDeleteKey_def handleKeyNote_def
    handleRemoveInvalidKeys_def handleGenerateKey_def handleStatus_def handleDelete_def admin_handleDownload_def
    handleSettings_def handleSettingsSave_def handleLinks_def handleLinkCreate_def admin_handleLinkDelete_def
  by (rule with_auth_refused [OF assms] with_auth_reload_refused [OF assms])+

text \<open>
  C8: A request to any page or operation of the admin service other than the login page, logging in or
  out and the health check, with no live session or, when it is a POST, without the session's CSRF token,
  is redirected to the login page or refused with 401 or 403. It changes no file, no
  pending key and no failure counter; of the sessions, only an expired one may be dropped.
\<close>

theorem admin_requires_session:
  assumes "admin_route (aq_method r) (aq_path r) \<notin> open_routes"
    and "\<not> (\<exists>sess. presented w r s = Some sess \<and> may_act r sess)"
  shows "turned_away w r s (admin_ServeHTTP w r s)"
  using assms(1) handlers_refused [OF assms(2)]
  by (cases "admin_route (aq_method r) (aq_path r)") (simp_all add: admin_ServeHTTP_def open_routes_def)

section \<open>Private keys\<close>

text \<open>What is left of a server and of a response when the private keys are taken out.\<close>

definition masked :: "(string \<rightharpoonup> pendingKey) \<Rightarrow> (string \<rightharpoonup> pendingKey)" where
  "masked P = (\<lambda>t. map_option (pk_private_update (\<lambda>_. [])) (P t))"

definition hide :: "AdminServer \<Rightarrow> AdminServer" where
  "hide s = s\<lparr>as_pending := masked (as_pending s)\<rparr>"

definition hide_body :: "abody \<Rightarrow> abody" where
  "hide_body b = (case b of APrivateKey _ \<Rightarrow> APrivateKey [] | _ \<Rightarrow> b)"

definition view :: "ahandled \<Rightarrow> ahandled" where
  "view h = (case h of (s, tr, resp) \<Rightarrow> (hide s, tr, resp\<lparr>ar_body := hide_body (ar_body resp)\<rparr>))"

text \<open>Key generators that give the same public keys, and private keys that are not empty.\<close>

definition same_public :: "(string \<Rightarrow> (ioerr, string \<times> string) result) \<Rightarrow> (string \<Rightarrow> (ioerr, string \<times> string) result) \<Rightarrow> bool" where
  "same_public kg kg' \<longleftrightarrow> (\<forall>u. rel_sum (=) (\<lambda>(pr, pub) (pr', pub'). pub = pub' \<and> pr \<noteq> [] \<and> pr' \<noteq> []) (kg u) (kg' u))"

lemma hide_eq: "hide s = hide s2 \<longleftrightarrow> s2 = s\<lparr>as_pending := as_pending s2\<rparr> \<and> masked (as_pending s2) = masked (as_pending s)"
  by (cases s; cases s2) (auto simp: hide_def)

lemma masked_upd [simp]: "masked (P(t \<mapsto> pk)) = (masked P)(t \<mapsto> pk\<lparr>pk_private := []\<rparr>)" "masked (P(t := None)) = (masked P)(t := None)"
  by (auto simp: masked_def)

lemma masked_lookup:
  assumes "masked P = masked Q"
  shows "rel_option (\<lambda>a b. pk_expires a = pk_expires b \<and> pk_username a = pk_username b) (P t) (Q t)"
proof -
  have "map_option (pk_private_update (\<lambda>_. [])) (P t) = map_option (pk_private_update (\<lambda>_. [])) (Q t)"
    using assms by (auto simp: masked_def fun_eq_iff)
  then show ?thesis
    by (cases "P t"; cases "Q t")
      (auto, (metis pendingKey.select_convs pendingKey.surjective pendingKey.update_convs)+)
qed

lemma pages_pending [simp]:
  "dashboardWithError io fs (s\<lparr>as_pending := P\<rparr>) = dashboardWithError io fs s"
  "dashboardView io fs (s\<lparr>as_pending := P\<rparr>) = dashboardView io fs s"
  "sharedConfigPath (s\<lparr>as_pending := P\<rparr>) = sharedConfigPath s"
  "settingsGroups io fs (s\<lparr>as_pending := P\<rparr>) = settingsGroups io fs s"
  "linksWithError io fs (s\<lparr>as_pending := P\<rparr>) = linksWithError io fs s"
  "admin_publicURL io fs (s\<lparr>as_pending := P\<rparr>) = admin_publicURL io fs s"
  "known_key io fs (s\<lparr>as_pending := P\<rparr>) = known_key io fs s"
  "can_enable io fs (s\<lparr>as_pending := P\<rparr>) = can_enable io fs s"
  "can_delete io fs (s\<lparr>as_pending := P\<rparr>) = can_delete io fs s"
  "dashboardWithGenerated io fs (s\<lparr>as_pending := P\<rparr>) = dashboardWithGenerated io fs s"
  "checkLoginPassword w pw (s\<lparr>as_pending := P\<rparr>) = checkLoginPassword w pw s"
  by (simp_all add: fun_eq_iff dashboardWithError_def dashboardWithGenerated_def dashboardView_def sharedConfigPath_def
      settingsGroups_def linksWithError_def admin_publicURL_def known_key_def can_enable_def can_delete_def checkLoginPassword_def
      split: sum.split option.split)

lemma requireAuth_pending:
  "requireAuth (w\<lparr>aw_keygen := kg\<rparr>) r (s\<lparr>as_pending := P\<rparr>) = map_prod (as_pending_update (\<lambda>_. P)) id (requireAuth w r s)"
  by (simp add: requireAuth_def admin_current_def case_prod_unfold split: option.split)

lemma with_auth_view:
  assumes "masked P = masked (as_pending s)"
    and "\<And>sess a. masked P = masked (as_pending a) \<Longrightarrow> view (k' sess (a\<lparr>as_pending := P\<rparr>)) = view (k sess a)"
  shows "view (with_auth (w\<lparr>aw_keygen := kg\<rparr>) r k' (s\<lparr>as_pending := P\<rparr>)) = view (with_auth w r k s)"
proof (cases "requireAuth w r s")
  case (Pair s1 x)
  moreover have "as_pending s1 = as_pending s" using requireAuth_server [of w r s] Pair by auto
  ultimately show ?thesis using assms
    by (cases x) (simp_all add: with_auth_def requireAuth_pending view_def hide_def)
qed

lemma view_upd:
  "masked P = masked (as_pending a) \<Longrightarrow> view (a\<lparr>as_pending := P\<rparr>, tr, resp) = view (a, tr, resp)"
  by (simp add: view_def hide_def)

lemma plain_handlers_view:
  assumes "masked P = masked (as_pending s)"
  shows "view (handleIndex (w\<lparr>aw_keygen := kg\<rparr>) r (s\<lparr>as_pending := P\<rparr>)) = view (handleIndex w r s)"
    "view (handleAddKey (w\<lparr>aw_keygen := kg\<rparr>) r (s\<lparr>as_pending := P\<rparr>)) = view (handleAddKey w r s)"
    "view (handleDeleteKey (w\<lparr>aw_keygen := kg\<rparr>) r (s\<lparr>as_pending := P\<rparr>)) = view (handleDeleteKey w r s)"
    "view (handleKeyNote (w\<lparr>aw_keygen := kg\<rparr>) r (s\<lparr>as_pending := P\<rparr>)) = view (handleKeyNote w r s)"
    "view (handleRemoveInvalidKeys (w\<lparr>aw_keygen := kg\<rparr>) r (s\<lparr>as_pending := P\<rparr>)) = view (handleRemoveInvalidKeys w r s)"
    "view (handleStatus (w\<lparr>aw_keygen := kg\<rparr>) r (s\<lparr>as_pending := P\<rparr>)) = view (handleStatus w r s)"
    "view (handleDelete (w\<lparr>aw_keygen := kg\<rparr>) r (s\<lparr>as_pending := P\<rparr>)) = view (handleDelete w r s)"
    "view (handleSettings (w\<lparr>aw_keygen := kg\<rparr>) r (s\<lparr>as_pending := P\<rparr>)) = view (handleSettings w r s)"
    "view (handleSettingsSave (w\<lparr>aw_keygen := kg\<rparr>) r (s\<lparr>as_pending := P\<rparr>)) = view (handleSettingsSave w r s)"
  unfolding handleIndex_def handleAddKey_def handleDeleteKey_def handleKeyNote_def handleRemoveInvalidKeys_def
    handleStatus_def handleDelete_def handleSettings_def handleSettingsSave_def
  by (rule with_auth_view [OF assms]; simp add: view_upd Let_def cong: if_cong split: sum.split option.split prod.split)+

lemma links_handlers_view:
  assumes "masked P = masked (as_pending s)"
  shows "view (handleLinks (w\<lparr>aw_keygen := kg\<rparr>) r (s\<lparr>as_pending := P\<rparr>)) = view (handleLinks w r s)"
    "view (handleLinkCreate (w\<lparr>aw_keygen := kg\<rparr>) r (s\<lparr>as_pending := P\<rparr>)) = view (handleLinkCreate w r s)"
    "view (admin_handleLinkDelete (w\<lparr>aw_keygen := kg\<rparr>) r (s\<lparr>as_pending := P\<rparr>)) = view (admin_handleLinkDelete w r s)"
proof -
  have r: "admin_reloadLinks (w\<lparr>aw_keygen := kg\<rparr>) (s\<lparr>as_pending := P\<rparr>) = (admin_reloadLinks w s)\<lparr>as_pending := P\<rparr>"
    "masked P = masked (as_pending (admin_reloadLinks w s))"
    by (simp_all add: admin_reloadLinks_def assms)
  have i: "link_input (w\<lparr>aw_keygen := kg\<rparr>) r = link_input w r" by (simp add: link_input_def cong: if_cong)
  have c: "a\<lparr>as_pending := P, as_links := l\<rparr> = a\<lparr>as_links := l\<rparr>\<lparr>as_pending := P\<rparr>" for a :: AdminServer and l
    by (cases a) simp
  have u: "view (a\<lparr>as_pending := P, as_links := l\<rparr>, tr, resp) = view (a\<lparr>as_links := l\<rparr>, tr, resp)"
    "linksWithError io fs (a\<lparr>as_pending := P, as_links := l\<rparr>) = linksWithError io fs (a\<lparr>as_links := l\<rparr>)"
    if "masked P = masked (as_pending a)" for a l tr resp io fs
    unfolding c using that by (simp_all add: view_upd)
  show "view (handleLinks (w\<lparr>aw_keygen := kg\<rparr>) r (s\<lparr>as_pending := P\<rparr>)) = view (handleLinks w r s)"
    unfolding handleLinks_def r(1) by (rule with_auth_view [OF r(2)]) (simp add: view_upd)
  show "view (handleLinkCreate (w\<lparr>aw_keygen := kg\<rparr>) r (s\<lparr>as_pending := P\<rparr>)) = view (handleLinkCreate w r s)"
    unfolding handleLinkCreate_def r(1) i
    by (rule with_auth_view [OF r(2)]) (simp add: view_upd u Let_def split: sum.split option.split prod.split)
  show "view (admin_handleLinkDelete (w\<lparr>aw_keygen := kg\<rparr>) r (s\<lparr>as_pending := P\<rparr>)) = view (admin_handleLinkDelete w r s)"
    unfolding admin_handleLinkDelete_def r(1)
    by (rule with_auth_view [OF r(2)]) (simp add: view_upd u Let_def split: option.split prod.split)
qed

lemma session_handlers_view:
  assumes "masked P = masked (as_pending s)"
  shows "view (handleLoginPage (w\<lparr>aw_keygen := kg\<rparr>) r (s\<lparr>as_pending := P\<rparr>)) = view (handleLoginPage w r s)"
    "view (handleLogin (w\<lparr>aw_keygen := kg\<rparr>) r (s\<lparr>as_pending := P\<rparr>)) = view (handleLogin w r s)"
    "view (handleLogout (w\<lparr>aw_keygen := kg\<rparr>) r (s\<lparr>as_pending := P\<rparr>)) = view (handleLogout w r s)"
    "view (admin_handleHealth (w\<lparr>aw_keygen := kg\<rparr>) (s\<lparr>as_pending := P\<rparr>)) = view (admin_handleHealth w s)"
proof -
  have "checkLoginPassword (w\<lparr>aw_keygen := kg\<rparr>) pw s = checkLoginPassword w pw s" for pw
    by (simp add: checkLoginPassword_def)
  then show "view (handleLogin (w\<lparr>aw_keygen := kg\<rparr>) r (s\<lparr>as_pending := P\<rparr>)) = view (handleLogin w r s)"
    using assms by (simp add: handleLogin_def view_def hide_def Let_def split: prod.split bool.split option.split)
qed (use assms in \<open>simp_all add: handleLoginPage_def admin_current_def handleLogout_def admin_handleHealth_def view_def hide_def Let_def
    split: prod.split option.split\<close>)

lemma download_view:
  assumes "masked P = masked (as_pending s)"
  shows "view (admin_handleDownload (w\<lparr>aw_keygen := kg\<rparr>) r (s\<lparr>as_pending := P\<rparr>)) = view (admin_handleDownload w r s)"
  unfolding admin_handleDownload_def
  apply (rule with_auth_view [OF assms])
  subgoal for sess a
    using masked_lookup [of P "as_pending a" "QueryGet r ''token''"]
    by (cases "P (QueryGet r ''token'')"; cases "as_pending a (QueryGet r ''token'')")
      (auto simp: Let_def view_def hide_def hide_body_def areply_def)
  done

lemma offer_private_view:
  assumes "masked P = masked (as_pending a)"
  shows "view (offer_private (w\<lparr>aw_keygen := kg\<rparr>) sess title u pr' pub tr (a\<lparr>as_pending := P\<rparr>))
    = view (offer_private w sess title u pr pub tr a)"
  using assms by (simp add: offer_private_def view_def hide_def Let_def split: option.split)

lemma same_public_cases:
  assumes "same_public kg kg'"
  obtains (failed) e where "GenerateEd25519KeyPair kg u = Inl e" "GenerateEd25519KeyPair kg' u = Inl e"
  | (made) pub pr pr' where "GenerateEd25519KeyPair kg u = Inr \<lparr>kp_PublicKey = pub, kp_PrivatePEM = pr\<rparr>"
      "GenerateEd25519KeyPair kg' u = Inr \<lparr>kp_PublicKey = pub, kp_PrivatePEM = pr'\<rparr>" "pr \<noteq> []" "pr' \<noteq> []"
proof -
  have "rel_sum (=) (\<lambda>(pr, pub) (pr', pub'). pub = pub' \<and> pr \<noteq> [] \<and> pr' \<noteq> []) (kg u) (kg' u)"
    using assms by (simp add: same_public_def)
  then show ?thesis
    by (cases rule: rel_sum.cases) (auto simp: GenerateEd25519KeyPair_def intro: failed made)
qed

lemma generating_handlers_view:
  assumes "masked P = masked (as_pending s)" "same_public (aw_keygen w) kg"
  shows "view (handleCreate (w\<lparr>aw_keygen := kg\<rparr>) r (s\<lparr>as_pending := P\<rparr>)) = view (handleCreate w r s)"
    "view (handleGenerateKey (w\<lparr>aw_keygen := kg\<rparr>) r (s\<lparr>as_pending := P\<rparr>)) = view (handleGenerateKey w r s)"
proof -
  let ?u = "TrimSpace (FormValue r ''username'')"
  have keys: "(\<exists>x. create_keys w ?u p = Inl x \<and> create_keys (w\<lparr>aw_keygen := kg\<rparr>) ?u p = Inl x)
    \<or> (\<exists>pub pr pr'. create_keys w ?u p = Inr (pub, pr) \<and> create_keys (w\<lparr>aw_keygen := kg\<rparr>) ?u p = Inr (pub, pr') \<and> (pr = [] \<longleftrightarrow> pr' = []))" for p
    by (cases rule: same_public_cases [OF assms(2), of ?u]) (auto simp: create_keys_def split: sum.split)
  show "view (handleCreate (w\<lparr>aw_keygen := kg\<rparr>) r (s\<lparr>as_pending := P\<rparr>)) = view (handleCreate w r s)"
    unfolding handleCreate_def
    by (rule with_auth_view [OF assms(1)], insert keys [of "TrimSpace (FormValue r ''public_key'')"])
      (auto simp: Let_def view_upd offer_private_view split: option.split prod.split)
  show "view (handleGenerateKey (w\<lparr>aw_keygen := kg\<rparr>) r (s\<lparr>as_pending := P\<rparr>)) = view (handleGenerateKey w r s)"
    unfolding handleGenerateKey_def
    by (rule with_auth_view [OF assms(1)], cases rule: same_public_cases [OF assms(2), of ?u])
      (auto simp: Let_def view_upd offer_private_view split: option.split prod.split sum.split)
qed

lemmas handlers_view = plain_handlers_view links_handlers_view session_handlers_view download_view

lemma admin_ServeHTTP_view:
  assumes "hide s' = hide s" "same_public (aw_keygen w) kg"
  shows "view (admin_ServeHTTP (w\<lparr>aw_keygen := kg\<rparr>) r s') = view (admin_ServeHTTP w r s)"
proof -
  have s': "s' = s\<lparr>as_pending := as_pending s'\<rparr>" and m: "masked (as_pending s') = masked (as_pending s)"
    using assms(1) hide_eq [of s s'] by simp_all
  show ?thesis
    using handlers_view [OF m, where w = w and kg = kg] generating_handlers_view [OF m assms(2), of r] m
    by (subst s') (cases "admin_route (aq_method r) (aq_path r)", simp_all add: admin_ServeHTTP_def view_upd)
qed

text \<open>A run of the service: the requests with their worlds, and what each leaves observable.\<close>

fun admin_log :: "(AdminWorld \<times> AdminRequest) list \<Rightarrow> AdminServer \<Rightarrow> (cfs list \<times> AdminResponse) list" where
  "admin_log [] s = []"
| "admin_log ((w, r) # h) s = (case admin_ServeHTTP w r s of (s', out) \<Rightarrow> out # admin_log h s')"

definition public_log :: "(cfs list \<times> AdminResponse) list \<Rightarrow> (cfs list \<times> AdminResponse) list" where
  "public_log = map (\<lambda>(tr, resp). (tr, resp\<lparr>ar_body := hide_body (ar_body resp)\<rparr>))"

lemma admin_log_view:
  assumes "hide s' = hide s" "\<forall>(w, r) \<in> set h. same_public (aw_keygen w) (kg w)"
  shows "public_log (admin_log (map (\<lambda>(w, r). (w\<lparr>aw_keygen := kg w\<rparr>, r)) h) s') = public_log (admin_log h s)"
  using assms
proof (induction h arbitrary: s s')
  case (Cons x h)
  obtain w r where x: "x = (w, r)" by (cases x)
  have v: "view (admin_ServeHTTP (w\<lparr>aw_keygen := kg w\<rparr>) r s') = view (admin_ServeHTTP w r s)"
    using Cons.prems x by (intro admin_ServeHTTP_view) auto
  then show ?case using Cons.IH Cons.prems(2)
    by (cases "admin_ServeHTTP w r s"; cases "admin_ServeHTTP (w\<lparr>aw_keygen := kg w\<rparr>) r s'")
      (auto simp: x view_def public_log_def)
qed (simp add: public_log_def)

text \<open>
  C30: The private key of a generated pair is confined: when \<open>ssh-keygen\<close> gives other private keys with the
  same public keys, every run of the admin service writes the same files in the same
  order, and answers every request with the same status, headers and page; the answers differ in
  nothing but the key that a download hands out.
\<close>

theorem private_key_confined:
  assumes "\<forall>(w, r) \<in> set h. same_public (aw_keygen w) (kg w)"
  shows "public_log (admin_log (map (\<lambda>(w, r). (w\<lparr>aw_keygen := kg w\<rparr>, r)) h) s) = public_log (admin_log h s)"
  using assms admin_log_view [of s s] by blast

text \<open>An outcome that hands out no key, and holds no new one but under a fresh token for ten minutes.\<close>

definition keyless :: "AdminWorld \<Rightarrow> AdminServer \<Rightarrow> ahandled \<Rightarrow> bool" where
  "keyless w s h \<longleftrightarrow> (case h of (s', tr, resp) \<Rightarrow> (\<forall>k. ar_body resp \<noteq> APrivateKey k)
     \<and> (\<forall>t pk. as_pending s' t = Some pk \<longrightarrow> as_pending s t = Some pk
           \<or> newToken (aw_rand w 0) = Some t \<and> pk_expires pk = aw_now w + pendingKeyTTL))"

lemma page_bodies [simp]:
  "ar_body (aerror msg st) \<noteq> APrivateKey k" "ar_body (see_other url) \<noteq> APrivateKey k"
  "ar_body (dashboardWithError io fs s csrf title m st) \<noteq> APrivateKey k" "ar_body (linksWithError io fs s csrf m st) \<noteq> APrivateKey k"
  "ar_body (writeError e) \<noteq> APrivateKey k" "ar_body (renderUsers v) \<noteq> APrivateKey k" "ar_body (renderSettings sv) \<noteq> APrivateKey k"
  "ar_body (renderLinks lv) \<noteq> APrivateKey k" "ar_body (renderLogin x) \<noteq> APrivateKey k"
  "ar_body (dashboardWithGenerated io fs s csrf u t fp) \<noteq> APrivateKey k" "ar_body (areply st b) = b"
  by (simp_all add: aerror_def areply_def see_other_def dashboardWithError_def linksWithError_def writeError_def renderUsers_def
      renderUsersStatus_def renderSettings_def renderLinks_def renderLinksStatus_def renderLogin_def dashboardWithGenerated_def
      split: sum.split)

lemma only_sessions_pending: "only_sessions s s1 \<Longrightarrow> as_pending s1 = as_pending s"
  by (metis AdminServer.select_convs(6) AdminServer.surjective AdminServer.update_convs(2) only_sessions_def)

lemma keyless_refused:
  assumes "only_sessions s s1"
    and "case presented w r s of None \<Rightarrow> resp = (if aq_method r = ''GET'' then see_other ''/login'' else aerror ''login required'' 401)
       | Some sess \<Rightarrow> \<not> may_act r sess \<and> resp = aerror ''bad csrf token'' 403"
  shows "keyless w s (s1, [aw_files w], resp)"
  using assms only_sessions_pending [OF assms(1)] by (auto simp: keyless_def split: option.splits)

lemma with_auth_keyless:
  assumes "\<And>sess a. as_pending a = as_pending s \<Longrightarrow> keyless w s (k sess a)"
  shows "keyless w s (with_auth w r k s)"
proof (cases rule: requireAuth_cases [of w r s])
  case (refused s1 resp)
  then show ?thesis using keyless_refused [OF refused(2,3)] by (simp add: with_auth_def)
next
  case (granted sess)
  then show ?thesis using assms by (simp add: with_auth_def)
qed

lemma offer_private_keyless:
  "as_pending a = as_pending s \<Longrightarrow> keyless w s (offer_private w sess title u pr pub tr a)"
  by (auto simp: offer_private_def keyless_def Let_def split: option.split)

lemma keyless_same [simp]: "as_pending a = as_pending s \<Longrightarrow> keyless w s (a, tr, resp) \<longleftrightarrow> (\<forall>k. ar_body resp \<noteq> APrivateKey k)"
  by (auto simp: keyless_def)

lemma handlers_keyless:
  "keyless w s (handleIndex w r s)" "keyless w s (handleCreate w r s)" "keyless w s (handleAddKey w r s)"
  "keyless w s (handleDeleteKey w r s)" "keyless w s (handleKeyNote w r s)" "keyless w s (handleRemoveInvalidKeys w r s)"
  "keyless w s (handleGenerateKey w r s)" "keyless w s (handleStatus w r s)" "keyless w s (handleDelete w r s)"
  "keyless w s (handleSettings w r s)" "keyless w s (handleSettingsSave w r s)"
  unfolding handleIndex_def handleCreate_def handleAddKey_def handleDeleteKey_def handleKeyNote_def
    handleRemoveInvalidKeys_def handleGenerateKey_def handleStatus_def handleDelete_def handleSettings_def handleSettingsSave_def
  by (rule with_auth_keyless; simp add: Let_def offer_private_keyless split: option.split sum.split prod.split)+

lemma links_handlers_keyless:
  "keyless w s (handleLinks w r s)" "keyless w s (handleLinkCreate w r s)" "keyless w s (admin_handleLinkDelete w r s)"
proof -
  have reload: "keyless w s h" if "keyless w (admin_reloadLinks w s) h" for h
    using that by (simp add: keyless_def admin_reloadLinks_def)
  show "keyless w s (handleLinks w r s)" "keyless w s (handleLinkCreate w r s)" "keyless w s (admin_handleLinkDelete w r s)"
    unfolding handleLinks_def handleLinkCreate_def admin_handleLinkDelete_def
    by (rule reload, rule with_auth_keyless; simp add: Let_def split: option.split sum.split prod.split)+
qed

lemma session_handlers_keyless:
  "keyless w s (handleLoginPage w r s)" "keyless w s (handleLogin w r s)" "keyless w s (handleLogout w r s)"
  "keyless w s (admin_handleHealth w s)"
  by (auto simp: handleLoginPage_def handleLogin_def handleLogout_def admin_handleHealth_def admin_current_def Let_def
      split: option.split prod.split bool.split)

lemma only_download_hands_out:
  assumes "admin_route (aq_method r) (aq_path r) \<noteq> ARDownload"
  shows "keyless w s (admin_ServeHTTP w r s)"
  using assms handlers_keyless links_handlers_keyless session_handlers_keyless
  by (cases "admin_route (aq_method r) (aq_path r)") (simp_all add: admin_ServeHTTP_def)

lemma download_cases:
  obtains (refused) "keyless w s (admin_handleDownload w r s)"
  | (served) sess pk where "presented w r s = Some sess" "as_pending s (QueryGet r ''token'') = Some pk" "aw_now w \<le> pk_expires pk"
      "admin_handleDownload w r s = (s\<lparr>as_pending := (as_pending s)(QueryGet r ''token'' := None)\<rparr>, [aw_files w],
         (areply 200 (APrivateKey (pk_private pk)))
           \<lparr>ar_no_store := True, ar_disposition := ''attachment; filename=\"'' @ pk_username pk @ ''_ed25519\"''\<rparr>)"
proof (cases rule: requireAuth_cases [of w r s])
  case refused1: (refused s1 resp)
  then show ?thesis using refused keyless_refused [OF refused1(2,3)] by (simp add: admin_handleDownload_def with_auth_def)
next
  case (granted sess)
  note d = admin_handleDownload_def with_auth_def Let_def granted(1)
  show ?thesis
  proof (cases "as_pending s (QueryGet r ''token'')")
    case None
    then show ?thesis using refused by (simp add: d)
  next
    case (Some pk)
    show ?thesis
    proof (cases "QueryGet r ''token'' = [] \<or> pk_expires pk < aw_now w")
      case True
      then show ?thesis using refused Some by (simp add: d keyless_def)
    next
      case False
      then show ?thesis using served [OF granted(2) Some] Some by (simp add: d)
    qed
  qed
qed

text \<open>
  C13: A generated private key is handed out at most once, and not late: an answer that holds a private key goes
  to a live session, holds the key pending under the token that is asked for, before its deadline, and forbids
  caching, and the token is used up. Keys become pending only under a token drawn for them, with a deadline ten minutes
  ahead.
\<close>

theorem private_key_once:
  assumes "admin_ServeHTTP w r s = (s', tr, resp)"
  shows "(\<forall>k. ar_body resp = APrivateKey k \<longrightarrow> (\<exists>sess pk. presented w r s = Some sess
      \<and> as_pending s (QueryGet r ''token'') = Some pk \<and> pk_private pk = k \<and> aw_now w \<le> pk_expires pk
      \<and> ar_no_store resp \<and> s' = s\<lparr>as_pending := (as_pending s)(QueryGet r ''token'' := None)\<rparr>))
    \<and> (\<forall>t pk. as_pending s' t = Some pk \<longrightarrow> as_pending s t = Some pk
      \<or> newToken (aw_rand w 0) = Some t \<and> pk_expires pk = aw_now w + 10 * 60 * second)"
proof -
  consider (none) "keyless w s (s', tr, resp)" | (download) "admin_handleDownload w r s = (s', tr, resp)"
    using only_download_hands_out [of r w s] assms by (cases "admin_route (aq_method r) (aq_path r)") (auto simp: admin_ServeHTTP_def)
  then have "keyless w s (s', tr, resp) \<or> (\<exists>sess pk. presented w r s = Some sess
      \<and> as_pending s (QueryGet r ''token'') = Some pk \<and> ar_body resp = APrivateKey (pk_private pk) \<and> aw_now w \<le> pk_expires pk
      \<and> ar_no_store resp \<and> s' = s\<lparr>as_pending := (as_pending s)(QueryGet r ''token'' := None)\<rparr>)"
  proof cases
    case download
    then show ?thesis by (cases rule: download_cases [of w s r]) (auto simp: areply_def)
  qed simp
  then show ?thesis
    by (auto simp: keyless_def pendingKeyTTL_def split: if_splits)
qed

section \<open>Logging in\<close>

lemma login_accepted:
  assumes "checkLoginPassword w (FormValue r ''password'') s"
    and "length (recent (aw_now w) (failures_of (clientIP (aq_remote r)) (as_auth s))) < maxLoginAttempts"
    and "aw_rand w 0 = Some b0" "aw_rand w 1 = Some b1"
  obtains s' where "handleLogin w r s = (s', [aw_files w], (see_other ''/'')\<lparr>ar_cookie := Some (setSessionCookie (RawURLEncode b0))\<rparr>)"
    "au_sessions (as_auth s') = (au_sessions (as_auth s))(RawURLEncode b0 \<mapsto> \<lparr>se_csrf = RawURLEncode b1, se_expires = aw_now w + au_ttl (as_auth s)\<rparr>)"
    "as_store s' = as_store s"
proof -
  let ?ip = "clientIP (aq_remote r)"
  obtain a where a: "loginAllowed (aw_now w) ?ip (as_auth s) = (a, True)" "au_sessions a = au_sessions (as_auth s)"
    "au_ttl a = au_ttl (as_auth s)"
    using assms(2) loginAllowed_recent [of "aw_now w" ?ip "as_auth s"]
      login_sections_sessions(1,2) [of "aw_now w" ?ip "as_auth s"]
    by (cases "loginAllowed (aw_now w) ?ip (as_auth s)") simp
  show ?thesis
    by (rule that [of "s\<lparr>as_auth := fst (createSession (aw_rand w 0) (aw_rand w 1) (aw_now w) (recordSuccess ?ip a))\<rparr>"])
      (simp_all add: handleLogin_def Let_def assms(1) a createSession_def newToken_def assms(3) assms(4) [simplified])
qed

text \<open>
  C31: Logging in works: a login with the right password from an address below the limit of failed attempts is
  answered with a redirect and a session cookie, and for the next thirty minutes every request that sends the
  cookie, and with a POST the token, is let in; the users page, which carries the token in its forms, is then shown whenever the
  manifest can be loaded.
\<close>

theorem login_opens_session:
  assumes "admin_route (aq_method r) (aq_path r) = ARLogin" "checkLoginPassword w (FormValue r ''password'') s"
    and "length (recent (aw_now w) (failures_of (clientIP (aq_remote r)) (as_auth s))) < 5"
    and "aw_rand w 0 = Some b0" "aw_rand w 1 = Some b1" "au_ttl (as_auth s) = sessionTTL"
  shows "\<exists>s' resp sess. admin_ServeHTTP w r s = (s', [aw_files w], resp)
    \<and> ar_status resp = 303 \<and> ar_cookie resp = Some (setSessionCookie (RawURLEncode b0)) \<and> se_csrf sess = RawURLEncode b1
    \<and> (\<forall>w2 r2. aw_now w2 \<le> aw_now w + 30 * 60 * second \<longrightarrow> aq_cookie r2 sessionCookieName = Some (RawURLEncode b0)
        \<longrightarrow> (aq_method r2 = ''POST'' \<longrightarrow> FormValue r2 csrfField = se_csrf sess) \<longrightarrow> requireAuth w2 r2 s' = (s', Inr sess))
    \<and> (\<forall>w2 r2 m. aw_now w2 \<le> aw_now w + 30 * 60 * second \<longrightarrow> aq_cookie r2 sessionCookieName = Some (RawURLEncode b0)
        \<longrightarrow> aq_method r2 = ''GET'' \<longrightarrow> aq_path r2 = ''/'' \<longrightarrow> manifest_Load (aw_io w2 0) (aw_files w2) (as_store s) = Inr m
        \<longrightarrow> (\<exists>v. admin_ServeHTTP w2 r2 s' = (s', [aw_files w2], renderUsers v) \<and> pd_CSRF v = se_csrf sess))"
proof -
  obtain s' where s': "handleLogin w r s = (s', [aw_files w], (see_other ''/'')\<lparr>ar_cookie := Some (setSessionCookie (RawURLEncode b0))\<rparr>)"
    "au_sessions (as_auth s') = (au_sessions (as_auth s))(RawURLEncode b0 \<mapsto> \<lparr>se_csrf = RawURLEncode b1, se_expires = aw_now w + au_ttl (as_auth s)\<rparr>)"
    "as_store s' = as_store s"
    by (rule login_accepted [OF assms(2) _ assms(4,5)]) (use assms(3) in \<open>simp_all add: maxLoginAttempts_def\<close>)
  let ?sess = "\<lparr>se_csrf = RawURLEncode b1, se_expires = aw_now w + au_ttl (as_auth s)\<rparr>"
  let ?resp = "(see_other ''/'')\<lparr>ar_cookie := Some (setSessionCookie (RawURLEncode b0))\<rparr>"
  have auth: "requireAuth w2 r2 s' = (s', Inr ?sess)"
    if "aw_now w2 \<le> aw_now w + 30 * 60 * second" "aq_cookie r2 sessionCookieName = Some (RawURLEncode b0)"
      "aq_method r2 = ''POST'' \<longrightarrow> FormValue r2 csrfField = RawURLEncode b1" for w2 r2
    using that s'(2) assms(6) by (auto simp: requireAuth_def admin_current_def auth_lookup_def checkCSRF_def sessionTTL_def)
  have "admin_route ''GET'' ''/'' = ARIndex" by (simp add: admin_route_def get_routes_def)
  then have index: "\<exists>v. admin_ServeHTTP w2 r2 s' = (s', [aw_files w2], renderUsers v) \<and> pd_CSRF v = RawURLEncode b1"
    if "aw_now w2 \<le> aw_now w + 30 * 60 * second" "aq_cookie r2 sessionCookieName = Some (RawURLEncode b0)"
      "aq_method r2 = ''GET''" "aq_path r2 = ''/''" "manifest_Load (aw_io w2 0) (aw_files w2) (as_store s) = Inr m" for w2 r2 m
    using auth [OF that(1,2)] that(3-5) s'(3)
    by (auto simp: admin_ServeHTTP_def handleIndex_def with_auth_def dashboardView_def userDashboard_def Let_def split: sum.split)
  have "admin_ServeHTTP w r s = (s', [aw_files w], ?resp)" "ar_status ?resp = 303" "se_csrf ?sess = RawURLEncode b1"
    using assms(1) s'(1) by (simp_all add: admin_ServeHTTP_def see_other_def areply_def)
  then show ?thesis using auth index by (intro exI [of _ s'] exI [of _ ?resp] exI [of _ ?sess]) auto
qed

section \<open>Settings\<close>

lemma form_values_keys: "distinct (keys_of (form_values r))"
  by (simp add: form_values_def SettingsRegistry_def split: option.split)

lemma form_values_map:
  "map_of (form_values r) k = (if k \<in> set (map sd_Key SettingsRegistry) then map_option TrimSpace (aq_form r k) else None)"
  by (auto simp: form_values_def SettingsRegistry_def split: option.split)

lemma setting_values_total: "\<exists>vs. setting_values SettingsRegistry c = Inr vs"
  by (simp add: SettingsRegistry_def valueOf_def bind_res_def)

lemma GetSettings_loaded: "LoadShared io fs path = Inr c \<Longrightarrow> \<exists>vs. GetSettings io fs path = Inr vs"
  using setting_values_total [of c] by (auto simp: GetSettings_def bind_res_def map_err_def)

lemma registry_secret: "d \<in> set SettingsRegistry \<Longrightarrow> sd_IsSecret d = isSecretSetting (sd_Key d)"
  by (auto simp: SettingsRegistry_def isSecretSetting_def)

lemma saved_keys_form:
  "saved_keys errs (form_values r) = filter (\<lambda>k. map_of errs k = None
     \<and> (\<exists>x. aq_form r k = Some x \<and> \<not> (isSecretSetting k \<and> TrimSpace x = []))) (map sd_Key SettingsRegistry)"
proof -
  have "map_of (form_values r) (sd_Key d) = map_option TrimSpace (aq_form r (sd_Key d))" if "d \<in> set SettingsRegistry" for d
    unfolding form_values_map using that by simp
  then show ?thesis
    unfolding saved_keys_def filter_map
    by (intro arg_cong [of _ _ "map sd_Key"] filter_cong refl) (auto simp: registry_secret split: option.split)
qed

text \<open>A form that is let in and finds the settings.\<close>

definition settings_form :: "AdminWorld \<Rightarrow> AdminRequest \<Rightarrow> AdminServer \<Rightarrow> SharedConfig \<Rightarrow> bool" where
  "settings_form w r s c \<longleftrightarrow> (\<exists>sess. presented w r s = Some sess \<and> may_act r sess) \<and> \<not> aq_bad_form r
     \<and> LoadShared (aw_io w 0) (aw_files w) (sharedConfigPath s) = Inr c"

lemma handleSettingsSave_form:
  assumes "settings_form w r s c"
  obtains (refused) errs resp where "handleSettingsSave w r s = (s, [aw_files w], resp)" "\<exists>k. new_errors (map_of (form_values r)) k \<noteq> None"
      "map_of errs = new_errors (map_of (form_values r))"
      "case settingsGroups (aw_io w 1) (aw_files w) s of Inl _ \<Rightarrow> resp = aerror ''cannot load settings'' 500
       | Inr groups \<Rightarrow> \<exists>v. resp = renderSettings v \<and> sv_Errors v = errs \<and> sv_Groups v = groups
           \<and> sv_Notice v = (if saved_keys errs (form_values r) \<noteq> [] then ''Saved: '' @ Join (saved_keys errs (form_values r)) '', '' else [])"
  | (saved) tr e resp where "handleSettingsSave w r s = (s, tr, resp)" "\<forall>k. new_errors (map_of (form_values r)) k = None"
      "shared_Save (aw_io w 0) (sharedConfigPath s) (new_config (map_of (form_values r)) c) (aw_files w) = (tr, e)"
      "e \<noteq> None \<Longrightarrow> resp = aerror ''cannot load settings'' 500"
      "\<forall>groups. e = None \<longrightarrow> settingsGroups (aw_io w 1) (last tr) s = Inr groups \<longrightarrow> (\<exists>v. resp = renderSettings v \<and> sv_Errors v = [])"
proof -
  obtain sess where sess: "presented w r s = Some sess" "may_act r sess" and f: "\<not> aq_bad_form r"
    and c: "LoadShared (aw_io w 0) (aw_files w) (sharedConfigPath s) = Inr c"
    using assms by (auto simp: settings_form_def)
  obtain vs where vs: "GetSettings (aw_io w 0) (aw_files w) (sharedConfigPath s) = Inr vs" using GetSettings_loaded [OF c] by blast
  note h = handleSettingsSave_def with_auth_granted [OF sess] f vs Let_def
  from c form_values_keys [of r] show ?thesis
  proof (cases rule: ApplySettings_values)
    case r1: (refused errs)
    show ?thesis
      by (rule refused [OF _ r1(3,2)]) (auto simp: h r1(1) settings_view_def split: sum.split)
  next
    case s1: saved
    obtain tr e where "shared_Save (aw_io w 0) (sharedConfigPath s) (new_config (map_of (form_values r)) c) (aw_files w) = (tr, e)"
      by fastforce
    moreover from this have "\<exists>resp. handleSettingsSave w r s = (s, tr, resp) \<and> (e \<noteq> None \<longrightarrow> resp = aerror ''cannot load settings'' 500)
        \<and> (\<forall>groups. e = None \<longrightarrow> settingsGroups (aw_io w 1) (last tr) s = Inr groups \<longrightarrow> (\<exists>v. resp = renderSettings v \<and> sv_Errors v = []))"
      by (cases e) (auto simp: h s1(2) settings_view_def)
    ultimately show ?thesis using saved [OF _ s1(1)] by metis
  qed
qed

text \<open>
  C32: When any value of a settings form is invalid, nothing is written, and the page shows the errors of all
  invalid values; all the same its notice names every other submitted setting as saved.
\<close>

theorem settings_save_report:
  assumes "settings_form w r s c" "new_errors (map_of (form_values r)) bad \<noteq> None"
    and "handleSettingsSave w r s = (s', tr, resp)" "ar_body resp = ASettingsPage v"
  shows "tr = [aw_files w] \<and> s' = s \<and> map_of (sv_Errors v) = new_errors (map_of (form_values r))
    \<and> (let named = filter (\<lambda>k. new_errors (map_of (form_values r)) k = None
             \<and> (\<exists>x. aq_form r k = Some x \<and> \<not> (isSecretSetting k \<and> TrimSpace x = [])))
             (map sd_Key SettingsRegistry)
       in sv_Notice v = (if named \<noteq> [] then ''Saved: '' @ Join named '', '' else []))"
  using assms(1)
proof (cases rule: handleSettingsSave_form)
  case (refused errs resp')
  have p: "s' = s" "tr = [aw_files w]" "resp' = resp" using refused(1) assms(3) by simp_all
  have "\<exists>v'. resp = renderSettings v' \<and> sv_Errors v' = errs
      \<and> sv_Notice v' = (if saved_keys errs (form_values r) \<noteq> [] then ''Saved: '' @ Join (saved_keys errs (form_values r)) '', '' else [])"
    using refused(4) assms(4) p(3) by (cases "settingsGroups (aw_io w 1) (aw_files w) s") (auto simp: aerror_def areply_def)
  then have "sv_Errors v = errs"
    "sv_Notice v = (if saved_keys errs (form_values r) \<noteq> [] then ''Saved: '' @ Join (saved_keys errs (form_values r)) '', '' else [])"
    using assms(4) by (auto simp: renderSettings_def areply_def simp del: append.simps)
  then show ?thesis using p(1,2) refused(3) by (simp only: Let_def saved_keys_form refl simp_thms)
qed (use assms(2) in auto)

section \<open>Instances\<close>

definition demo_aworld :: AdminWorld where
  "demo_aworld = \<lparr>aw_files = Map.empty, aw_io = (\<lambda>_. io_ok), aw_now = 1700000000 * second, aw_rand = (\<lambda>_. Some ''abc''),
     aw_keygen = (\<lambda>_. Inr (''private'', demo_key)), aw_bcrypt = Some\<rparr>"

definition demo_aserver :: AdminServer where
  "demo_aserver = \<lparr>as_store = ''/users.json'', as_auth = newAuthState ''pw'', as_password = ''pw'',
     as_sharedPath = ''/config.json'', as_links = links_NewStore ''/links'', as_pending = Map.empty\<rparr>"

definition demo_arequest :: "string \<Rightarrow> string \<Rightarrow> AdminRequest" where
  "demo_arequest meth path = \<lparr>aq_method = meth, aq_path = path, aq_remote = ''10.0.0.1:4711'', aq_form = Map.empty,
     aq_query = Map.empty, aq_cookie = Map.empty, aq_bad_form = False\<rparr>"

lemma demo_routes:
  "admin_route ''POST'' ''/users/delete'' = ARDelete" "admin_route ''POST'' ''/login'' = ARLogin"
  "admin_route ''GET'' ''/keys/download'' = ARDownload"
  by (simp_all add: admin_route_def get_routes_def post_routes_def)

theorem admin_requires_session_witness:
  "turned_away demo_aworld (demo_arequest ''POST'' ''/users/delete'') demo_aserver
     (admin_ServeHTTP demo_aworld (demo_arequest ''POST'' ''/users/delete'') demo_aserver)"
  by (rule admin_requires_session) (simp_all add: demo_arequest_def demo_routes open_routes_def presented_def)

theorem login_opens_session_witness:
  "\<exists>s' resp. admin_ServeHTTP demo_aworld ((demo_arequest ''POST'' ''/login'')\<lparr>aq_form := [''password'' \<mapsto> ''pw'']\<rparr>) demo_aserver
     = (s', [Map.empty], resp) \<and> ar_cookie resp = Some (setSessionCookie (RawURLEncode ''abc''))"
proof -
  let ?r = "(demo_arequest ''POST'' ''/login'')\<lparr>aq_form := [''password'' \<mapsto> ''pw'']\<rparr>"
  have "checkLoginPassword demo_aworld (FormValue ?r ''password'') demo_aserver"
    by (simp add: checkLoginPassword_def FormValue_def demo_aserver_def demo_aworld_def LoadShared_def ReadFile_def io_ok_def
        checkPasswordAgainst_def bind_res_def)
  from login_opens_session [OF _ this, of "''abc''" "''abc''"] show ?thesis
    by (auto simp: demo_arequest_def demo_routes demo_aserver_def demo_aworld_def newAuthState_def failures_of_def)
qed

text \<open>A server with a session and a pending key.\<close>

definition demo_pending :: AdminServer where
  "demo_pending = demo_aserver
     \<lparr>as_auth := (newAuthState ''pw'')\<lparr>au_sessions := [''sid'' \<mapsto> \<lparr>se_csrf = ''tok'', se_expires = 1700000001 * second\<rparr>]\<rparr>,
      as_pending := [''T'' \<mapsto> \<lparr>pk_username = ''ann'', pk_private = ''secret'', pk_expires = 1700000001 * second\<rparr>]\<rparr>"

definition demo_fetch :: AdminRequest where
  "demo_fetch = (demo_arequest ''GET'' ''/keys/download'')
     \<lparr>aq_query := [''token'' \<mapsto> ''T''], aq_cookie := [sessionCookieName \<mapsto> ''sid'']\<rparr>"

lemma demo_fetch_served:
  "admin_ServeHTTP demo_aworld demo_fetch demo_pending =
     (demo_pending\<lparr>as_pending := Map.empty\<rparr>, [Map.empty], (areply 200 (APrivateKey ''secret''))
        \<lparr>ar_no_store := True, ar_disposition := ''attachment; filename=\"ann_ed25519\"''\<rparr>)"
  by (simp add: admin_ServeHTTP_def demo_fetch_def demo_arequest_def demo_routes admin_handleDownload_def with_auth_def requireAuth_def
      admin_current_def auth_lookup_def demo_pending_def demo_aserver_def demo_aworld_def newAuthState_def second_def QueryGet_def Let_def)

theorem private_key_once_witness:
  "\<exists>sess pk. presented demo_aworld demo_fetch demo_pending = Some sess \<and> as_pending demo_pending (QueryGet demo_fetch ''token'') = Some pk
     \<and> pk_private pk = ''secret''"
  using private_key_once [OF demo_fetch_served] by (auto simp: areply_def)

definition demo_generate :: AdminRequest where
  "demo_generate = (demo_arequest ''POST'' ''/users/create'')
     \<lparr>aq_form := [''username'' \<mapsto> ''bob'', csrfField \<mapsto> ''tok''], aq_cookie := [sessionCookieName \<mapsto> ''sid'']\<rparr>"

theorem private_key_confined_witness:
  "public_log (admin_log [(demo_aworld\<lparr>aw_keygen := \<lambda>_. Inr (''other'', demo_key)\<rparr>, demo_generate),
       (demo_aworld\<lparr>aw_keygen := \<lambda>_. Inr (''other'', demo_key)\<rparr>, demo_fetch)] demo_pending)
     = public_log (admin_log [(demo_aworld, demo_generate), (demo_aworld, demo_fetch)] demo_pending)"
  using private_key_confined [of "[(demo_aworld, demo_generate), (demo_aworld, demo_fetch)]" "\<lambda>_ _. Inr (''other'', demo_key)" demo_pending]
  by (simp add: same_public_def demo_aworld_def)

text \<open>A form with a good URL and a bad target, from the session of \<^const>\<open>demo_pending\<close>.\<close>

definition demo_form :: AdminRequest where
  "demo_form = (demo_arequest ''POST'' ''/settings'')
     \<lparr>aq_form := [''HASH_TARGET'' \<mapsto> ''inode'', ''PUBLIC_URL'' \<mapsto> ''http://x'', csrfField \<mapsto> ''tok''],
      aq_cookie := [sessionCookieName \<mapsto> ''sid'']\<rparr>"

definition demo_setworld :: AdminWorld where
  "demo_setworld = demo_aworld\<lparr>aw_files := demo_config_fs\<rparr>"

definition demo_setserver :: AdminServer where
  "demo_setserver = demo_pending\<lparr>as_sharedPath := ''/etc/c''\<rparr>"

lemma demo_settings_form: "settings_form demo_setworld demo_form demo_setserver demo_shared"
proof -
  have "LoadShared io_ok demo_config_fs ''/etc/c'' = Inr demo_shared" by code_simp
  then show ?thesis
    by (auto simp: settings_form_def demo_setworld_def demo_setserver_def demo_form_def demo_arequest_def demo_pending_def demo_aserver_def
        demo_aworld_def presented_def may_act_def checkCSRF_def FormValue_def sharedConfigPath_def second_def newAuthState_def csrfField_def)
qed

lemma demo_form_errors:
  "new_errors (map_of (form_values demo_form)) ''HASH_TARGET'' \<noteq> None" "new_errors (map_of (form_values demo_form)) ''PUBLIC_URL'' = None"
  by code_simp+

theorem settings_save_report_witness:
  "\<exists>resp v. handleSettingsSave demo_setworld demo_form demo_setserver = (demo_setserver, [demo_config_fs], resp)
     \<and> ar_body resp = ASettingsPage v \<and> sv_Notice v = ''Saved: PUBLIC_URL''"
proof -
  let ?w = demo_setworld and ?s = demo_setserver
  have l: "LoadShared (aw_io ?w 1) (aw_files ?w) (sharedConfigPath ?s) = Inr demo_shared"
    using demo_settings_form by (simp add: settings_form_def demo_setworld_def demo_aworld_def)
  then obtain groups where g: "settingsGroups (aw_io ?w 1) (aw_files ?w) ?s = Inr groups"
    using GetSettings_loaded [OF l] by (auto simp: settingsGroups_def bind_res_def)
  obtain resp v where r: "handleSettingsSave ?w demo_form ?s = (?s, [aw_files ?w], resp)" "ar_body resp = ASettingsPage v"
    using demo_settings_form
  proof (cases rule: handleSettingsSave_form)
    case (refused errs resp)
    then show ?thesis using that g by (auto simp: renderSettings_def areply_def)
  next
    case saved
    then show ?thesis using demo_form_errors(1) by simp
  qed
  have "filter (\<lambda>k. new_errors (map_of (form_values demo_form)) k = None
      \<and> (\<exists>x. aq_form demo_form k = Some x \<and> \<not> (isSecretSetting k \<and> TrimSpace x = []))) (map sd_Key SettingsRegistry) = [''PUBLIC_URL'']"
    using demo_form_errors by (simp add: SettingsRegistry_def demo_form_def demo_arequest_def csrfField_def secret_keys)
  then show ?thesis
    using settings_save_report [OF demo_settings_form demo_form_errors(1) r] r
    by (auto simp: demo_setworld_def)
qed

end
