(* ===== verification/Go_Html.thy ===== *)
theory Go_Html
  imports Go_Base64
begin

text \<open>
  Pages: the document trees that the templates of the program build, their bytes as Go's
  \<open>html/template\<close> prints them, with the escaper it chooses for each place, and a reader that follows
  the tokenizer of the HTML standard on the part of the language the pages use. The main fact is
  \<open>read_show_all\<close>: what is printed is read back as the tree it came from, whatever the data are.
\<close>

section \<open>The escapers of html/template\<close>

text \<open>\<open>htmlReplacer\<close>, for text, attribute values and the text of a title.\<close>

fun escape_html_byte :: "char \<Rightarrow> string" where
  "escape_html_byte c =
     (if c = CHR 0x00 then [CHR 0xEF, CHR 0xBF, CHR 0xBD]
      else if c = CHR 0x22 then ''&#34;''
      else if c = CHR ''&'' then ''&amp;''
      else if c = CHR 0x27 then ''&#39;''
      else if c = CHR ''+'' then ''&#43;''
      else if c = CHR ''<'' then ''&lt;''
      else if c = CHR ''>'' then ''&gt;''
      else [c])"

declare escape_html_byte.simps [simp del]

definition htmlReplacer :: "string \<Rightarrow> string" where
  "htmlReplacer s = concat (map escape_html_byte s)"

definition lower_hex :: "nat \<Rightarrow> char" where
  "lower_hex n = char_of (if n < 10 then n + 48 else n + 87)"

definition percent :: "char \<Rightarrow> string" where
  "percent c = [CHR ''%'', lower_hex (of_char c div 16), lower_hex (of_char c mod 16)]"

definition is_alnum :: "char \<Rightarrow> bool" where
  "is_alnum c = (in_range 97 122 c \<or> in_range 65 90 c \<or> in_range 48 57 c)"

definition is_hex :: "char \<Rightarrow> bool" where
  "is_hex c = (in_range 48 57 c \<or> in_range 97 102 c \<or> in_range 65 70 c)"

definition url_unreserved :: "char \<Rightarrow> bool" where
  "url_unreserved c = (is_alnum c \<or> c \<in> set ''-._~'')"

definition url_reserved :: "char \<Rightarrow> bool" where
  "url_reserved c = (c \<in> set ''!#$&*+,/:;=?@[]'')"

text \<open>\<open>processURLOnto\<close>: \<open>norm\<close> keeps the reserved bytes and valid escapes.\<close>

fun processURL :: "bool \<Rightarrow> string \<Rightarrow> string" where
  "processURL norm [] = []"
| "processURL norm (c # cs) =
     (if norm \<and> url_reserved c \<or> url_unreserved c
         \<or> norm \<and> c = CHR ''%'' \<and> (case cs of a # b # _ \<Rightarrow> is_hex a \<and> is_hex b | _ \<Rightarrow> False)
      then c # processURL norm cs
      else percent c @ processURL norm cs)"

text \<open>\<open>strings.EqualFold\<close> with a lower-case ASCII word: two letters outside ASCII fold to ASCII ones.\<close>

definition lower :: "char \<Rightarrow> char" where
  "lower c = (if in_range 65 90 c then char_of (of_char c + 32 :: nat) else c)"

fun fold_case :: "string \<Rightarrow> string" where
  "fold_case [] = []"
| "fold_case (c # cs) =
     (if c = CHR 0xC5 \<and> HasPrefix cs [CHR 0xBF] then CHR ''s'' # fold_case (drop 1 cs)
      else if c = CHR 0xE2 \<and> HasPrefix cs [CHR 0x84, CHR 0xAA] then CHR ''k'' # fold_case (drop 2 cs)
      else lower c # fold_case cs)"

definition isSafeURL :: "string \<Rightarrow> bool" where
  "isSafeURL s =
     (case CutByte s CHR '':'' of
        (protocol, _, found) \<Rightarrow>
          \<not> (found \<and> CHR ''/'' \<notin> set protocol) \<or> fold_case protocol \<in> {''http'', ''https'', ''mailto''})"

definition urlFilter :: "string \<Rightarrow> string" where
  "urlFilter s = (if isSafeURL s then s else ''#ZgotmplZ'')"

section \<open>Document trees\<close>

text \<open>
  A piece of text is template text, printed as it stands, or data in one of the places the
  templates have: text or an attribute value, a whole URL, a part of its path, a part of its query.
\<close>

datatype part = Lit string | Data string | Url string | UrlPath string | UrlQuery string

datatype attr = Attr string "part list" | Flag string

datatype html =
    Txt part
  | Elem string "attr list" "html list"
  | Void string "attr list"
  | SelfClosed string "attr list"
  | RawElem string "attr list" string
  | TitleElem string "attr list" "part list"

fun show_part :: "part \<Rightarrow> string" where
  "show_part (Lit s) = s"
| "show_part (Data s) = htmlReplacer s"
| "show_part (Url s) = htmlReplacer (processURL True (urlFilter s))"
| "show_part (UrlPath s) = htmlReplacer (processURL True s)"
| "show_part (UrlQuery s) = htmlReplacer (processURL False s)"

definition show_parts :: "part list \<Rightarrow> string" where
  "show_parts ps = concat (map show_part ps)"

fun show_attr :: "attr \<Rightarrow> string" where
  "show_attr (Attr n ps) = CHR '' '' # n @ ''=\"'' @ show_parts ps @ ''\"''"
| "show_attr (Flag n) = CHR '' '' # n"

definition show_attrs :: "attr list \<Rightarrow> string" where
  "show_attrs as = concat (map show_attr as)"

fun show_html :: "html \<Rightarrow> string" where
  "show_html (Txt p) = show_part p"
| "show_html (Elem n as hs) = ''<'' @ n @ show_attrs as @ ''>'' @ concat (map show_html hs) @ ''</'' @ n @ ''>''"
| "show_html (Void n as) = ''<'' @ n @ show_attrs as @ ''>''"
| "show_html (SelfClosed n as) = ''<'' @ n @ show_attrs as @ ''/>''"
| "show_html (RawElem n as s) = ''<'' @ n @ show_attrs as @ ''>'' @ s @ ''</'' @ n @ ''>''"
| "show_html (TitleElem n as ps) = ''<'' @ n @ show_attrs as @ ''>'' @ show_parts ps @ ''</'' @ n @ ''>''"

definition show_all :: "html list \<Rightarrow> string" where
  "show_all hs = concat (map show_html hs)"

definition show_page :: "html list \<Rightarrow> string" where
  "show_page hs = ''<!DOCTYPE html>'' @ show_all hs"

section \<open>The reader\<close>

text \<open>
  The tokenizer of the HTML standard, one byte at a time. Text is one token per byte.
  Anything outside the part of the language the pages use stops it (\<open>Stuck\<close>).
\<close>

datatype token = TChar char | TOpen string "(string \<times> string) list" bool | TClose string | TDoctype string

datatype place = InText | InTitle string | InAttr string "(string \<times> string) list" string string

datatype hstate =
    Text
  | CharRef place string
  | TagOpen | EndOpen | Markup string
  | TagName string | EndName string
  | BeforeAttr string "(string \<times> string) list"
  | AttrName string "(string \<times> string) list" string
  | BeforeVal string "(string \<times> string) list" string
  | AttrVal string "(string \<times> string) list" string string
  | AfterVal string "(string \<times> string) list"
  | Slash string "(string \<times> string) list"
  | Special bool string | SpecialLess bool string | SpecialEnd bool string string
  | Stuck

definition add_attr :: "(string \<times> string) list \<Rightarrow> string \<Rightarrow> string \<Rightarrow> (string \<times> string) list" where
  "add_attr as n v = (if n \<in> fst ` set as then as else as @ [(n, v)])"

definition char_ref :: "string \<Rightarrow> char option" where
  "char_ref = map_of [(''#34'', CHR 0x22), (''amp'', CHR ''&''), (''#39'', CHR 0x27), (''#43'', CHR ''+''),
     (''lt'', CHR ''<''), (''gt'', CHR ''>'')]"

definition is_alpha :: "char \<Rightarrow> bool" where
  "is_alpha c = (in_range 97 122 c \<or> in_range 65 90 c)"

definition html_space :: "char \<Rightarrow> bool" where
  "html_space c = (c = CHR '' '' \<or> c = CHR 0x0A \<or> c = CHR 0x09)"

definition raw_tags :: "string list" where
  "raw_tags = [''script'', ''style'']"

definition title_tags :: "string list" where
  "title_tags = [''title'', ''textarea'']"

definition other_raw_tags :: "string list" where
  "other_raw_tags = [''xmp'', ''iframe'', ''noembed'', ''noframes'', ''noscript'', ''plaintext'']"

definition opened :: "string \<Rightarrow> (string \<times> string) list \<Rightarrow> hstate \<times> token list" where
  "opened n as =
     (if n \<in> set raw_tags then Special False n else if n \<in> set title_tags then Special True n
      else if n \<in> set other_raw_tags then Stuck else Text, [TOpen n as False])"

definition resolved :: "place \<Rightarrow> char \<Rightarrow> hstate \<times> token list" where
  "resolved p c = (case p of
       InText \<Rightarrow> (Text, [TChar c])
     | InTitle n \<Rightarrow> (Special True n, [TChar c])
     | InAttr n as a v \<Rightarrow> (AttrVal n as a (v @ [c]), []))"

fun step :: "hstate \<Rightarrow> char \<Rightarrow> hstate \<times> token list" where
  "step Text c =
     (if c = CHR ''<'' then (TagOpen, []) else if c = CHR ''&'' then (CharRef InText [], []) else (Text, [TChar c]))"
| "step (CharRef p b) c =
     (if c = CHR '';'' then (case char_ref b of None \<Rightarrow> (Stuck, []) | Some d \<Rightarrow> resolved p d) else (CharRef p (b @ [c]), []))"
| "step TagOpen c =
     (if c = CHR ''!'' then (Markup [], []) else if c = CHR ''/'' then (EndOpen, [])
      else if is_alpha c then (TagName [lower c], []) else (Stuck, []))"
| "step EndOpen c = (if is_alpha c then (EndName [lower c], []) else (Stuck, []))"
| "step (Markup b) c = (if c = CHR ''>'' then (Text, [TDoctype b]) else (Markup (b @ [c]), []))"
| "step (TagName n) c =
     (if html_space c then (BeforeAttr n [], []) else if c = CHR ''/'' then (Slash n [], [])
      else if c = CHR ''>'' then opened n [] else (TagName (n @ [lower c]), []))"
| "step (EndName n) c =
     (if c = CHR ''>'' then (Text, [TClose n]) else if html_space c \<or> c = CHR ''/'' then (Stuck, [])
      else (EndName (n @ [lower c]), []))"
| "step (BeforeAttr n as) c =
     (if html_space c then (BeforeAttr n as, []) else if c = CHR ''/'' then (Slash n as, [])
      else if c = CHR ''>'' then opened n as
      else if c = CHR ''='' \<or> c = CHR 0x22 \<or> c = CHR 0x27 \<or> c = CHR ''<'' then (Stuck, [])
      else (AttrName n as [lower c], []))"
| "step (AttrName n as a) c =
     (if c = CHR ''='' then (BeforeVal n as a, []) else if html_space c then (BeforeAttr n (add_attr as a []), [])
      else if c = CHR ''/'' then (Slash n (add_attr as a []), []) else if c = CHR ''>'' then opened n (add_attr as a [])
      else if c = CHR 0x22 \<or> c = CHR 0x27 \<or> c = CHR ''<'' then (Stuck, [])
      else (AttrName n as (a @ [lower c]), []))"
| "step (BeforeVal n as a) c = (if c = CHR 0x22 then (AttrVal n as a [], []) else (Stuck, []))"
| "step (AttrVal n as a v) c =
     (if c = CHR 0x22 then (AfterVal n (add_attr as a v), [])
      else if c = CHR ''&'' then (CharRef (InAttr n as a v) [], []) else (AttrVal n as a (v @ [c]), []))"
| "step (AfterVal n as) c =
     (if html_space c then (BeforeAttr n as, []) else if c = CHR ''/'' then (Slash n as, [])
      else if c = CHR ''>'' then opened n as else (Stuck, []))"
| "step (Slash n as) c = (if c = CHR ''>'' then (Text, [TOpen n as True]) else (Stuck, []))"
| "step (Special refs n) c =
     (if c = CHR ''<'' then (SpecialLess refs n, [])
      else if refs \<and> c = CHR ''&'' then (CharRef (InTitle n) [], []) else (Special refs n, [TChar c]))"
| "step (SpecialLess refs n) c = (if c = CHR ''/'' then (SpecialEnd refs n [], []) else (Stuck, []))"
| "step (SpecialEnd refs n b) c =
     (if c = CHR ''>'' then (if b = n then (Text, [TClose n]) else (Stuck, [])) else (SpecialEnd refs n (b @ [lower c]), []))"
| "step Stuck c = (Stuck, [])"

fun run :: "hstate \<Rightarrow> string \<Rightarrow> hstate \<times> token list" where
  "run st [] = (st, [])"
| "run st (c # cs) = (case step st c of (st1, ts) \<Rightarrow> case run st1 cs of (st2, us) \<Rightarrow> (st2, ts @ us))"

definition read_html :: "string \<Rightarrow> token list option" where
  "read_html s = (case run Text s of (Text, ts) \<Rightarrow> Some ts | _ \<Rightarrow> None)"

section \<open>What a tree says\<close>

text \<open>A NUL byte of the data is shown as the replacement character.\<close>

definition nul_replaced :: "string \<Rightarrow> string" where
  "nul_replaced s = concat (map (\<lambda>c. if c = CHR 0x00 then [CHR 0xEF, CHR 0xBF, CHR 0xBD] else [c]) s)"

fun part_value :: "part \<Rightarrow> string" where
  "part_value (Lit s) = s"
| "part_value (Data s) = nul_replaced s"
| "part_value (Url s) = processURL True (urlFilter s)"
| "part_value (UrlPath s) = processURL True s"
| "part_value (UrlQuery s) = processURL False s"

definition parts_value :: "part list \<Rightarrow> string" where
  "parts_value ps = concat (map part_value ps)"

definition lower_name :: "string \<Rightarrow> string" where
  "lower_name n = map lower n"

fun attr_token :: "attr \<Rightarrow> string \<times> string" where
  "attr_token (Attr n ps) = (lower_name n, parts_value ps)"
| "attr_token (Flag n) = (lower_name n, [])"

fun tokens :: "html \<Rightarrow> token list" where
  "tokens (Txt p) = map TChar (part_value p)"
| "tokens (Elem n as hs) = TOpen n (map attr_token as) False # concat (map tokens hs) @ [TClose n]"
| "tokens (Void n as) = [TOpen n (map attr_token as) False]"
| "tokens (SelfClosed n as) = [TOpen n (map attr_token as) True]"
| "tokens (RawElem n as s) = TOpen n (map attr_token as) False # map TChar s @ [TClose n]"
| "tokens (TitleElem n as ps) = TOpen n (map attr_token as) False # map TChar (parts_value ps) @ [TClose n]"

definition all_tokens :: "html list \<Rightarrow> token list" where
  "all_tokens hs = concat (map tokens hs)"

text \<open>The conditions on the template text alone.\<close>

definition name_ok :: "string \<Rightarrow> bool" where
  "name_ok n \<longleftrightarrow> n \<noteq> [] \<and> is_alpha (hd n) \<and> list_all (\<lambda>c. is_alnum c \<or> c = CHR ''-'') n"

definition tag_ok :: "string \<Rightarrow> bool" where
  "tag_ok n \<longleftrightarrow> name_ok n \<and> map lower n = n"

fun lit_ok :: "char list \<Rightarrow> part \<Rightarrow> bool" where
  "lit_ok bad (Lit s) = list_all (\<lambda>c. c \<notin> set bad) s"
| "lit_ok bad _ = True"

fun attr_ok :: "attr \<Rightarrow> bool" where
  "attr_ok (Attr n ps) = (name_ok n \<and> list_all (lit_ok [CHR 0x22, CHR ''&'']) ps)"
| "attr_ok (Flag n) = name_ok n"

definition attrs_ok :: "attr list \<Rightarrow> bool" where
  "attrs_ok as \<longleftrightarrow> list_all attr_ok as \<and> distinct (map (fst \<circ> attr_token) as)"

fun html_ok :: "html \<Rightarrow> bool" where
  "html_ok (Txt p) = lit_ok ''<&'' p"
| "html_ok (Elem n as hs) = (tag_ok n \<and> n \<notin> set (raw_tags @ title_tags @ other_raw_tags) \<and> attrs_ok as \<and> list_all html_ok hs)"
| "html_ok (Void n as) = (tag_ok n \<and> n \<notin> set (raw_tags @ title_tags @ other_raw_tags) \<and> attrs_ok as)"
| "html_ok (SelfClosed n as) = (tag_ok n \<and> attrs_ok as)"
| "html_ok (RawElem n as s) = (tag_ok n \<and> n \<in> set raw_tags \<and> attrs_ok as \<and> list_all (\<lambda>c. c \<noteq> CHR ''<'') s)"
| "html_ok (TitleElem n as ps) = (tag_ok n \<and> n \<in> set title_tags \<and> attrs_ok as \<and> list_all (lit_ok ''<&'') ps)"

section \<open>Reading back\<close>

lemma run_append: "run st (a @ b) = (case run st a of (st1, ts) \<Rightarrow> case run st1 b of (st2, us) \<Rightarrow> (st2, ts @ us))"
  by (induction a arbitrary: st) (auto simp: case_prod_unfold)

text \<open>Reading a value in one of the places data go to.\<close>

fun reading :: "place \<Rightarrow> string \<Rightarrow> hstate \<times> token list" where
  "reading InText s = (Text, map TChar s)"
| "reading (InTitle n) s = (Special True n, map TChar s)"
| "reading (InAttr n as a v) s = (AttrVal n as a (v @ s), [])"

definition at_place :: "place \<Rightarrow> hstate" where
  "at_place p = fst (reading p [])"

fun moved :: "place \<Rightarrow> string \<Rightarrow> place" where
  "moved (InAttr n as a v) s = InAttr n as a (v @ s)"
| "moved p s = p"

fun special_bytes :: "place \<Rightarrow> char list" where
  "special_bytes InText = ''<&''"
| "special_bytes (InTitle n) = ''<&''"
| "special_bytes (InAttr n as a v) = [CHR 0x22, CHR ''&'']"

lemma reading_append:
  "reading p (s @ t) = (case reading p s of (st, ts) \<Rightarrow> case reading (moved p s) t of (st2, us) \<Rightarrow> (st2, ts @ us))"
  by (cases p) simp_all

lemma fst_reading: "fst (reading p s) = at_place (moved p s)"
  by (cases p) (simp_all add: at_place_def)

lemma special_moved [simp]: "special_bytes (moved p s) = special_bytes p"
  by (cases p) simp_all

lemma run_chunks:
  assumes "run (at_place p) a = reading p s" "run (at_place (moved p s)) b = reading (moved p s) t"
  shows "run (at_place p) (a @ b) = reading p (s @ t)"
  using assms(2) by (simp add: run_append assms(1) reading_append case_prod_unfold fst_reading)

lemma run_plain:
  assumes "list_all (\<lambda>c. c \<notin> set (special_bytes p)) s"
  shows "run (at_place p) s = reading p s"
  using assms
proof (induction s arbitrary: p)
  case Nil
  then show ?case by (cases p) (simp_all add: at_place_def)
next
  case (Cons c s)
  have "run (at_place p) [c] = reading p [c]" using Cons.prems by (cases p) (simp_all add: at_place_def)
  then show ?case using run_chunks [of p "[c]" "[c]" s s] Cons by simp
qed

lemma run_escaped_byte:
  "run (at_place p) (escape_html_byte c) = reading p (if c = CHR 0x00 then [CHR 0xEF, CHR 0xBF, CHR 0xBD] else [c])"
proof (cases "c \<in> {CHR 0x00, CHR 0x22, CHR ''&'', CHR 0x27, CHR ''+'', CHR ''<'', CHR ''>''}")
  case True
  then show ?thesis
    by (cases p; elim insertE emptyE) (simp_all add: at_place_def escape_html_byte.simps char_ref_def resolved_def)
next
  case False
  then have "escape_html_byte c = [c]" "c \<notin> set (special_bytes p)"
    by (simp_all add: escape_html_byte.simps) (cases p; simp)
  then show ?thesis using False run_plain [of p "[c]"] by simp
qed

lemma run_htmlReplacer: "run (at_place p) (htmlReplacer s) = reading p (nul_replaced s)"
proof (induction s arbitrary: p)
  case Nil
  then show ?case by (cases p) (simp_all add: at_place_def htmlReplacer_def nul_replaced_def)
next
  case (Cons c s)
  show ?case
    using run_chunks [OF run_escaped_byte Cons.IH, of p c] by (simp add: htmlReplacer_def nul_replaced_def)
qed

text \<open>The bytes of an escaped URL.\<close>

lemma lower_hex_alnum: "n < 16 \<Longrightarrow> is_alnum (lower_hex n)"
proof -
  assume "n < 16"
  moreover have "list_all (\<lambda>n. is_alnum (lower_hex n)) [0..<16]" by code_simp
  ultimately show ?thesis by (simp add: list_all_iff)
qed

lemma processURL_bytes:
  "c \<in> set (processURL norm s) \<Longrightarrow> norm \<and> url_reserved c \<or> url_unreserved c \<or> c = CHR ''%''"
proof (induction s)
  case (Cons x s)
  have "of_char x div 16 < (16::nat)" by (rule less_mult_imp_div_less) simp
  then have "is_alnum (lower_hex (of_char x div 16))" "is_alnum (lower_hex (of_char x mod 16))"
    by (simp_all add: lower_hex_alnum)
  then have p: "\<forall>c\<in>set (percent x). url_unreserved c \<or> c = CHR ''%''"
    by (simp add: percent_def url_unreserved_def)
  show ?case
  proof (cases "norm \<and> url_reserved x \<or> url_unreserved x
      \<or> norm \<and> x = CHR ''%'' \<and> (case s of a # b # _ \<Rightarrow> is_hex a \<and> is_hex b | _ \<Rightarrow> False)")
    case True
    then have "processURL norm (x # s) = x # processURL norm s" by (simp only: processURL.simps if_True)
    then show ?thesis using True Cons by auto
  next
    case False
    then have "processURL norm (x # s) = percent x @ processURL norm s" by (simp only: processURL.simps if_False)
    then show ?thesis using p Cons by auto
  qed
qed simp

lemma nul_replaced_id: "CHR 0x00 \<notin> set s \<Longrightarrow> nul_replaced s = s"
  by (induction s) (auto simp: nul_replaced_def)

lemma nul_replaced_url: "nul_replaced (processURL norm s) = processURL norm s"
  using processURL_bytes [of "CHR 0x00" norm s]
  by (intro nul_replaced_id) (auto simp: url_reserved_def url_unreserved_def is_alnum_def in_range_def)

text \<open>Parts, attributes and trees.\<close>

lemma run_part: "lit_ok (special_bytes p) q \<Longrightarrow> run (at_place p) (show_part q) = reading p (part_value q)"
  by (cases q) (simp_all add: run_plain run_htmlReplacer nul_replaced_url)

lemma run_parts: "list_all (lit_ok (special_bytes p)) qs \<Longrightarrow> run (at_place p) (show_parts qs) = reading p (parts_value qs)"
proof (induction qs arbitrary: p)
  case Nil
  then show ?case by (cases p) (simp_all add: at_place_def show_parts_def parts_value_def)
next
  case (Cons q qs)
  have "run (at_place p) (show_part q @ show_parts qs) = reading p (part_value q @ parts_value qs)"
    using Cons by (intro run_chunks run_part) simp_all
  then show ?case by (simp add: show_parts_def parts_value_def)
qed

lemma name_byte: 
  assumes "is_alnum c \<or> c = CHR ''-''"
  shows "\<not> html_space c" "c \<noteq> CHR ''/''" "c \<noteq> CHR ''>''" "c \<noteq> CHR ''=''" "c \<noteq> CHR 0x22" "c \<noteq> CHR 0x27" "c \<noteq> CHR ''<''"
  using assms by (auto simp: html_space_def is_alnum_def in_range_def)

lemma run_attr_name:
  assumes "list_all (\<lambda>c. is_alnum c \<or> c = CHR ''-'') n"
  shows "run (AttrName t as a) n = (AttrName t as (a @ map lower n), [])"
  using assms by (induction n arbitrary: a) (simp_all add: name_byte)

lemma run_tag_name:
  assumes "list_all (\<lambda>c. is_alnum c \<or> c = CHR ''-'') n"
  shows "run (TagName t) n = (TagName (t @ map lower n), [])" "run (EndName t) n = (EndName (t @ map lower n), [])"
    "run (SpecialEnd refs m t) n = (SpecialEnd refs m (t @ map lower n), [])"
  using assms by (induction n arbitrary: t) (simp_all add: name_byte)

text \<open>The states in which a tag can go on with attributes, and the attributes read so far.\<close>

fun so_far :: "hstate \<Rightarrow> (string \<times> (string \<times> string) list) option" where
  "so_far (TagName t) = Some (t, [])"
| "so_far (AttrName t as a) = Some (t, add_attr as a [])"
| "so_far (AfterVal t as) = Some (t, as)"
| "so_far _ = None"

lemma so_far_cases:
  assumes "so_far st = Some (t, as)"
  shows "step st CHR '' '' = (BeforeAttr t as, [])" "step st CHR ''>'' = opened t as" "step st CHR ''/'' = (Slash t as, [])"
  using assms by (cases st; simp add: html_space_def)+

lemma run_attr:
  assumes "so_far st = Some (t, as)" "attr_ok x"
  obtains st2 where "run st (show_attr x) = (st2, [])"
    "so_far st2 = Some (t, add_attr as (fst (attr_token x)) (snd (attr_token x)))"
proof -
  have n: "run (BeforeAttr t as) n = (AttrName t as (map lower n), [])" if "name_ok n" for n
  proof -
    from that obtain c cs where c: "n = c # cs" "is_alnum c \<or> c = CHR ''-''" "list_all (\<lambda>c. is_alnum c \<or> c = CHR ''-'') cs"
      by (cases n) (auto simp: name_ok_def)
    then show ?thesis using name_byte [OF c(2)] by (simp add: run_attr_name)
  qed
  show thesis
  proof (cases x)
    case (Flag m)
    then show thesis using that assms n so_far_cases(1) [OF assms(1)] by (simp add: lower_name_def)
  next
    case (Attr m ps)
    then have "run (AttrVal t as (map lower m) []) (show_parts ps) = (AttrVal t as (map lower m) (parts_value ps), [])"
      using run_parts [of "InAttr t as (map lower m) []" ps] assms(2) by (simp add: at_place_def)
    then show thesis using that Attr assms n [of m] so_far_cases(1) [OF assms(1)] by (simp add: run_append lower_name_def)
  qed
qed

lemma run_attrs:
  assumes "so_far st = Some (t, as)" "list_all attr_ok xs" "distinct (map fst as @ map (fst \<circ> attr_token) xs)"
  obtains st2 where "run st (show_attrs xs) = (st2, [])" "so_far st2 = Some (t, as @ map attr_token xs)"
proof -
  have "\<exists>st2. run st (show_attrs xs) = (st2, []) \<and> so_far st2 = Some (t, as @ map attr_token xs)"
    using assms
  proof (induction xs arbitrary: st as)
    case Nil
    then show ?case by (simp add: show_attrs_def)
  next
    case (Cons x xs)
    obtain st1 where s: "run st (show_attr x) = (st1, [])"
      "so_far st1 = Some (t, add_attr as (fst (attr_token x)) (snd (attr_token x)))"
      using run_attr [of st t as x] Cons.prems by auto
    have a: "add_attr as (fst (attr_token x)) (snd (attr_token x)) = as @ [attr_token x]"
      using Cons.prems(3) by (auto simp: add_attr_def)
    show ?case using Cons.IH [OF s(2) [unfolded a]] Cons.prems s(1) by (auto simp: show_attrs_def run_append)
  qed
  then show thesis using that by blast
qed

text \<open>A tag up to its closing bracket.\<close>

lemma run_tag:
  assumes "tag_ok n" "attrs_ok as"
  obtains st where "run Text (''<'' @ n @ show_attrs as) = (st, [])" "so_far st = Some (n, map attr_token as)"
proof -
  obtain c cs where c: "n = c # cs" "is_alpha c" "list_all (\<lambda>c. is_alnum c \<or> c = CHR ''-'') cs" "lower c = c" "map lower cs = cs"
    using assms(1) by (cases n) (auto simp: tag_ok_def name_ok_def)
  then have "c \<noteq> CHR ''!''" "c \<noteq> CHR ''/''" by (auto simp: is_alpha_def in_range_def)
  then have "run Text (''<'' @ n) = (TagName n, [])" using c by (simp add: run_tag_name)
  moreover obtain st where "run (TagName n) (show_attrs as) = (st, [])" "so_far st = Some (n, map attr_token as)"
    using run_attrs [of "TagName n" n "[]" as] assms(2) by (auto simp: attrs_ok_def)
  ultimately show thesis using that run_append [of Text "''<'' @ n" "show_attrs as"] by simp
qed

lemma run_start_tag:
  assumes "tag_ok n" "attrs_ok as"
  shows "run Text (''<'' @ n @ show_attrs as @ ''>'' @ rest)
      = (case opened n (map attr_token as) of (st, ts) \<Rightarrow> case run st rest of (st2, us) \<Rightarrow> (st2, ts @ us))"
proof -
  obtain st where st: "run Text (''<'' @ n @ show_attrs as) = (st, [])" "so_far st = Some (n, map attr_token as)"
    by (rule run_tag [OF assms])
  show ?thesis using run_append [of Text "''<'' @ n @ show_attrs as" "''>'' @ rest"] st so_far_cases(2) [OF st(2)]
    by (simp add: case_prod_unfold)
qed

lemma run_self_closed:
  assumes "tag_ok n" "attrs_ok as"
  shows "run Text (''<'' @ n @ show_attrs as @ ''/>'') = (Text, [TOpen n (map attr_token as) True])"
proof -
  obtain st where st: "run Text (''<'' @ n @ show_attrs as) = (st, [])" "so_far st = Some (n, map attr_token as)"
    by (rule run_tag [OF assms])
  show ?thesis using run_append [of Text "''<'' @ n @ show_attrs as" "''/>''"] st so_far_cases(3) [OF st(2)] by simp
qed

lemma run_end_tag:
  assumes "tag_ok n"
  shows "run Text (''</'' @ n @ ''>'') = (Text, [TClose n])" "run (Special refs n) (''</'' @ n @ ''>'') = (Text, [TClose n])"
proof -
  obtain c cs where c: "n = c # cs" "is_alpha c" "is_alnum c" "list_all (\<lambda>c. is_alnum c \<or> c = CHR ''-'') cs" "lower c = c" "map lower cs = cs"
    using assms(1) by (cases n) (auto simp: tag_ok_def name_ok_def is_alnum_def is_alpha_def)
  have "c \<noteq> CHR ''>''" using name_byte(3) c(3) by blast
  then show "run Text (''</'' @ n @ ''>'') = (Text, [TClose n])" "run (Special refs n) (''</'' @ n @ ''>'') = (Text, [TClose n])"
    using c by (simp_all add: run_append run_tag_name)
qed

lemma opened_simps:
  "n \<notin> set (raw_tags @ title_tags @ other_raw_tags) \<Longrightarrow> opened n as = (Text, [TOpen n as False])"
  "n \<in> set raw_tags \<Longrightarrow> opened n as = (Special False n, [TOpen n as False])"
  "n \<in> set title_tags \<Longrightarrow> opened n as = (Special True n, [TOpen n as False])"
  by (auto simp: opened_def raw_tags_def title_tags_def)

lemma run_raw: "list_all (\<lambda>c. c \<noteq> CHR ''<'') s \<Longrightarrow> run (Special False n) s = (Special False n, map TChar s)"
  by (induction s) simp_all

lemma run_all:
  assumes "\<And>h. h \<in> set hs \<Longrightarrow> run Text (show_html h) = (Text, tokens h)"
  shows "run Text (concat (map show_html hs)) = (Text, concat (map tokens hs))"
  using assms by (induction hs) (simp_all add: run_append)

lemma run_html: "html_ok h \<Longrightarrow> run Text (show_html h) = (Text, tokens h)"
proof (induction h)
  case (Txt p)
  then show ?case using run_part [of InText p] by (simp add: at_place_def)
next
  case (Elem n as hs)
  have "run Text (concat (map show_html hs)) = (Text, concat (map tokens hs))"
    using Elem by (intro run_all) (auto simp: list_all_iff)
  then have "run Text (concat (map show_html hs) @ ''</'' @ n @ ''>'') = (Text, concat (map tokens hs) @ [TClose n])"
    using Elem.prems run_end_tag(1) [of n] unfolding run_append [of Text "concat (map show_html hs)"] by simp
  then show ?case using Elem.prems run_start_tag [of n as "concat (map show_html hs) @ ''</'' @ n @ ''>''"]
    by (simp add: opened_simps)
next
  case (Void n as)
  then show ?case using run_start_tag [of n as "[]"] by (simp add: opened_simps)
next
  case (SelfClosed n as)
  then show ?case using run_self_closed [of n as] by simp
next
  case (RawElem n as s)
  then have "run (Special False n) (s @ ''</'' @ n @ ''>'') = (Text, map TChar s @ [TClose n])"
    using run_end_tag(2) [of n False] by (simp only: run_append [of _ s] run_raw html_ok.simps) simp
  then show ?case using RawElem run_start_tag [of n as "s @ ''</'' @ n @ ''>''"] by (simp add: opened_simps)
next
  case (TitleElem n as ps)
  have "run (Special True n) (show_parts ps) = (Special True n, map TChar (parts_value ps))"
    using run_parts [of "InTitle n" ps] TitleElem by (simp add: at_place_def)
  then have "run (Special True n) (show_parts ps @ ''</'' @ n @ ''>'') = (Text, map TChar (parts_value ps) @ [TClose n])"
    using TitleElem run_end_tag(2) [of n True] by (simp only: run_append [of _ "show_parts ps"] html_ok.simps) simp
  then show ?case using TitleElem run_start_tag [of n as "show_parts ps @ ''</'' @ n @ ''>''"] by (simp add: opened_simps)
qed

lemma read_show_all:
  assumes "list_all html_ok hs"
  shows "read_html (show_page hs) = Some (TDoctype ''DOCTYPE html'' # all_tokens hs)"
proof -
  have "run Text (show_all hs) = (Text, all_tokens hs)"
    unfolding show_all_def all_tokens_def using assms by (intro run_all run_html) (simp add: list_all_iff)
  then show ?thesis by (simp add: read_html_def show_page_def)
qed

end
