(* ===== verification/Html_Views.thy ===== *)
theory Html_Views
  imports Go_Html
begin

text \<open>
  What a browser takes from the tokens of a page: the code it runs, the addresses it may go to and the forms
  with their fields. For a document tree these are known from the template text alone, but for the
  values of the data in their places.
\<close>

section \<open>Code and addresses\<close>

fun char_of_token :: "token \<Rightarrow> string" where
  "char_of_token (TChar c) = [c]"
| "char_of_token _ = []"

fun is_char_token :: "token \<Rightarrow> bool" where
  "is_char_token (TChar c) = True"
| "is_char_token _ = False"

fun scripts :: "token list \<Rightarrow> string list" where
  "scripts [] = []"
| "scripts (TOpen n as sc # ts) =
     (if n = ''script'' then [concat (map char_of_token (takeWhile is_char_token ts))] else []) @ scripts ts"
| "scripts (_ # ts) = scripts ts"

definition token_attrs :: "token \<Rightarrow> (string \<times> string) list" where
  "token_attrs t = (case t of TOpen n as sc \<Rightarrow> as | _ \<Rightarrow> [])"

definition page_attrs :: "token list \<Rightarrow> (string \<times> string) list" where
  "page_attrs ts = concat (map token_attrs ts)"

text \<open>The scripts of a page and its event handlers, and the values of its URL attributes.\<close>

definition page_code :: "token list \<Rightarrow> string list" where
  "page_code ts = scripts ts @ map snd (filter (\<lambda>(a, v). HasPrefix a ''on'') (page_attrs ts))"

definition url_attrs :: "string list" where
  "url_attrs = [''href'', ''src'', ''action'', ''formaction'', ''data'', ''poster'', ''ping'', ''xlink:href'', ''srcset'']"

definition page_urls :: "token list \<Rightarrow> string list" where
  "page_urls ts = map snd (filter (\<lambda>(a, v). a \<in> set url_attrs) (page_attrs ts))"

text \<open>
  The scheme of an address. The bytes that a browser drops before it looks for the scheme, white space and
  control bytes, do not occur in a harmless address.
\<close>

definition scheme_byte :: "char \<Rightarrow> bool" where
  "scheme_byte c = (is_alnum c \<or> c \<in> set ''+-.'')"

definition scheme_of :: "string \<Rightarrow> string option" where
  "scheme_of v = (case CutByte v CHR '':'' of (p, _, found) \<Rightarrow>
     if found \<and> list_all scheme_byte p then Some (map lower p) else None)"

definition harmless_url :: "string \<Rightarrow> bool" where
  "harmless_url v \<longleftrightarrow> list_all (in_range 33 126) v
     \<and> scheme_of v \<in> {None, Some ''http'', Some ''https'', Some ''mailto''}"

section \<open>Escaped addresses are harmless\<close>

lemma processURL_printable: "list_all (in_range 33 126) (processURL norm s)"
  using processURL_bytes [of _ norm s]
  by (fastforce simp: list_all_iff url_reserved_def url_unreserved_def is_alnum_def in_range_def)

lemma hex_not_colon: "is_hex c \<Longrightarrow> c \<noteq> CHR '':''"
  by (auto simp: is_hex_def in_range_def)

lemma percent_bytes: "c \<in> set (percent x) \<Longrightarrow> c = CHR ''%'' \<or> is_alnum c"
proof -
  have "of_char x div 16 < (16::nat)" by (rule less_mult_imp_div_less) simp
  then show "c \<in> set (percent x) \<Longrightarrow> c = CHR ''%'' \<or> is_alnum c"
    by (auto simp: percent_def lower_hex_alnum)
qed

lemma percent_no_colon: "CHR '':'' \<notin> set (percent x)"
  using percent_bytes [of "CHR '':''" x] by (auto simp: is_alnum_def in_range_def)

lemma takeWhile_all: "x \<notin> set xs \<Longrightarrow> takeWhile (\<lambda>c. c \<noteq> x) (xs @ ys) = xs @ takeWhile (\<lambda>c. c \<noteq> x) ys"
  by (induction xs) auto

lemma processURL_until_colon:
  "takeWhile (\<lambda>c. c \<noteq> CHR '':'') (processURL True s) = processURL True (takeWhile (\<lambda>c. c \<noteq> CHR '':'') s)"
proof (induction s)
  case (Cons x s)
  let ?u = "\<lambda>s. takeWhile (\<lambda>c. c \<noteq> CHR '':'') s"
  have h: "(case ?u s of a # b # _ \<Rightarrow> is_hex a \<and> is_hex b | _ \<Rightarrow> False) = (case s of a # b # _ \<Rightarrow> is_hex a \<and> is_hex b | _ \<Rightarrow> False)"
    by (auto dest: hex_not_colon split: list.split)
  show ?case
  proof (cases "x = CHR '':''")
    case True
    then show ?thesis by (simp add: url_reserved_def)
  next
    case False
    then have u: "?u (x # s) = x # ?u s" by simp
    show ?thesis unfolding u processURL.simps h using Cons.IH False
      by (simp add: takeWhile_all percent_no_colon)
  qed
qed simp

lemma processURL_colon: "CHR '':'' \<in> set (processURL norm s) \<Longrightarrow> CHR '':'' \<in> set s"
proof (induction s)
  case (Cons x s)
  then show ?case using percent_no_colon [of x] by (auto simp only: processURL.simps set_append list.set split: if_splits)
qed simp

lemma processURL_id: "list_all scheme_byte (processURL norm s) \<Longrightarrow> processURL norm s = s"
proof (induction s)
  case (Cons x s)
  have "\<not> list_all scheme_byte (percent x)" by (simp add: percent_def scheme_byte_def is_alnum_def in_range_def)
  then show ?case using Cons by (auto simp only: processURL.simps list_all_append list.pred_inject split: if_splits)
qed simp

lemma fold_case_ascii: "list_all scheme_byte p \<Longrightarrow> fold_case p = map lower p"
proof (induction p)
  case (Cons c p)
  then have "c \<noteq> CHR 0xC5" "c \<noteq> CHR 0xE2" by (auto simp: scheme_byte_def is_alnum_def in_range_def)
  then show ?case using Cons by simp
qed simp

lemma urlFilter_safe: "isSafeURL (urlFilter s)"
proof -
  have "isSafeURL ''#ZgotmplZ''" by code_simp
  then show ?thesis by (simp add: urlFilter_def)
qed

lemma processURL_slash: "CHR ''/'' \<in> set s \<Longrightarrow> CHR ''/'' \<in> set (processURL True s)"
  by (induction s) (auto simp: url_reserved_def)

lemma filtered_url_harmless: "harmless_url (processURL True (urlFilter s))"
proof -
  let ?t = "urlFilter s"
  let ?p = "takeWhile (\<lambda>c. c \<noteq> CHR '':'') ?t"
  have "map lower (processURL True ?p) \<in> {''http'', ''https'', ''mailto''}"
    if "CHR '':'' \<in> set (processURL True ?t)" "list_all scheme_byte (processURL True ?p)"
  proof -
    have p: "processURL True ?p = ?p" using that(2) by (rule processURL_id)
    have "CHR ''/'' \<notin> set ?p"
      using that(2) by (auto simp: p list_all_iff scheme_byte_def is_alnum_def in_range_def)
    then have "fold_case ?p \<in> {''http'', ''https'', ''mailto''}"
      using urlFilter_safe [of s] processURL_colon [OF that(1)] by (simp add: isSafeURL_def CutByte_def)
    then show ?thesis using that(2) by (simp add: p fold_case_ascii)
  qed
  then show ?thesis
    by (auto simp: harmless_url_def processURL_printable scheme_of_def CutByte_def processURL_until_colon)
qed

text \<open>An address that starts with a slash has no scheme.\<close>

lemma slash_url_harmless:
  assumes "list_all (in_range 33 126) v"
  shows "harmless_url (CHR ''/'' # v)"
  using assms by (simp add: harmless_url_def in_range_def scheme_of_def CutByte_def scheme_byte_def is_alnum_def)

section \<open>Trees with fixed code\<close>

definition confirm_code :: string where
  "confirm_code = ''return confirm(this.getAttribute('data-confirm'))''"

definition offset_code :: string where
  "offset_code = ''document.getElementById(\"expires-offset\").value=String(new Date().getTimezoneOffset());''"

definition fixed_code :: "string list" where
  "fixed_code = [confirm_code, offset_code]"

fun path_part :: "part \<Rightarrow> bool" where
  "path_part (Lit s) = list_all (in_range 33 126) s"
| "path_part (UrlPath s) = True"
| "path_part (UrlQuery s) = True"
| "path_part _ = False"

fun url_parts :: "part list \<Rightarrow> bool" where
  "url_parts [Url s] = True"
| "url_parts (Lit (CHR ''/'' # s) # ps) = list_all path_part (Lit s # ps)"
| "url_parts _ = False"

definition attr_safe :: "attr \<Rightarrow> bool" where
  "attr_safe a = (case a of
     Attr n ps \<Rightarrow> (HasPrefix (lower_name n) ''on'' \<longrightarrow> ps = [Lit confirm_code]) \<and> (lower_name n \<in> set url_attrs \<longrightarrow> url_parts ps)
   | Flag n \<Rightarrow> \<not> HasPrefix (lower_name n) ''on'' \<and> lower_name n \<notin> set url_attrs)"

fun html_safe :: "html \<Rightarrow> bool" where
  "html_safe (Txt p) = True"
| "html_safe (Elem n as hs) = (list_all attr_safe as \<and> list_all html_safe hs)"
| "html_safe (Void n as) = list_all attr_safe as"
| "html_safe (SelfClosed n as) = (n \<noteq> ''script'' \<and> list_all attr_safe as)"
| "html_safe (RawElem n as s) = (list_all attr_safe as \<and> (n = ''script'' \<longrightarrow> s \<in> set fixed_code))"
| "html_safe (TitleElem n as ps) = list_all attr_safe as"

text \<open>What the reader of a page can be made to run or to follow.\<close>

definition harmless_tokens :: "token list \<Rightarrow> bool" where
  "harmless_tokens ts \<longleftrightarrow> set (page_code ts) \<subseteq> set fixed_code \<and> list_all harmless_url (page_urls ts)"

lemma path_part_printable: "path_part p \<Longrightarrow> list_all (in_range 33 126) (part_value p)"
  by (cases p) (simp_all add: processURL_printable)

lemma path_parts_printable: "list_all path_part ps \<Longrightarrow> list_all (in_range 33 126) (parts_value ps)"
  by (induction ps) (simp_all add: parts_value_def path_part_printable)

lemma url_parts_harmless:
  assumes "url_parts ps"
  shows "harmless_url (parts_value ps)"
proof (cases ps rule: url_parts.cases)
  case (2 s qs)
  then have "list_all (in_range 33 126) (parts_value (Lit s # qs))"
    using assms path_parts_printable [of "Lit s # qs"] by simp
  then show ?thesis using 2 slash_url_harmless by (simp add: parts_value_def)
qed (use assms filtered_url_harmless in \<open>simp_all add: parts_value_def\<close>)

lemma attr_safe_token:
  assumes "attr_safe a" "attr_token a = (n, v)"
  shows "(HasPrefix n ''on'' \<longrightarrow> v \<in> set fixed_code) \<and> (n \<in> set url_attrs \<longrightarrow> harmless_url v)"
proof (cases a)
  case (Attr m ps)
  then have "lower_name m = n" "parts_value ps = v" using assms(2) by simp_all
  moreover have "parts_value [Lit confirm_code] \<in> set fixed_code" by (simp add: parts_value_def fixed_code_def)
  ultimately show ?thesis using assms(1) Attr url_parts_harmless [of ps] by (auto simp: attr_safe_def)
qed (use assms in \<open>auto simp: attr_safe_def\<close>)

lemma scripts_chars [simp]: "scripts (map TChar s @ ts) = scripts ts" "scripts (map TChar s) = []"
  by (induction s) simp_all

lemma script_text: "concat (map char_of_token (takeWhile is_char_token (map TChar s @ TClose n # ts))) = s"
  by (induction s) simp_all

lemma scripts_concat:
  assumes "\<And>h rest. h \<in> set hs \<Longrightarrow> set (scripts (f h @ rest)) \<subseteq> A \<union> set (scripts rest)"
  shows "set (scripts (concat (map f hs) @ rest)) \<subseteq> A \<union> set (scripts rest)"
  using assms
proof (induction hs)
  case (Cons h hs)
  have "set (scripts (f h @ concat (map f hs) @ rest)) \<subseteq> A \<union> set (scripts (concat (map f hs) @ rest))"
    using Cons.prems by simp
  then show ?case using Cons by fastforce
qed simp

lemma scripts_tokens:
  "html_ok h \<Longrightarrow> html_safe h \<Longrightarrow> set (scripts (tokens h @ rest)) \<subseteq> set fixed_code \<union> set (scripts rest)"
proof (induction h arbitrary: rest)
  case (Elem n as hs)
  have "set (scripts (concat (map tokens hs) @ TClose n # rest)) \<subseteq> set fixed_code \<union> set (scripts (TClose n # rest))"
    using Elem by (intro scripts_concat) (auto simp: list_all_iff)
  then show ?case using Elem.prems by (auto simp: raw_tags_def)
qed (auto simp: script_text raw_tags_def title_tags_def)

lemma attrs_tokens:
  assumes "html_safe h" "(n, v) \<in> set (page_attrs (tokens h))"
  shows "(HasPrefix n ''on'' \<longrightarrow> v \<in> set fixed_code) \<and> (n \<in> set url_attrs \<longrightarrow> harmless_url v)"
proof -
  have a: "list_all attr_safe as \<Longrightarrow> (n, v) \<in> set (map attr_token as) \<Longrightarrow> ?thesis" for as
    unfolding list_all_iff set_map by (metis attr_safe_token imageE)
  have c: "page_attrs (map TChar s) = []" for s by (induction s) (simp_all add: page_attrs_def token_attrs_def)
  have m: "page_attrs (TOpen m as sc # ts) = as @ page_attrs ts" "page_attrs (TClose m # ts) = page_attrs ts"
    "page_attrs [] = []" "page_attrs (ts @ us) = page_attrs ts @ page_attrs us" for m as sc ts us
    by (simp_all add: page_attrs_def token_attrs_def)
  show ?thesis using assms
  proof (induction h)
    case (Elem t as hs)
    have "page_attrs (concat xs) = concat (map page_attrs xs)" for xs by (induction xs) (simp_all add: m)
    then show ?case using Elem a by (auto simp: m list_all_iff)
  qed (use a in \<open>auto simp: m c\<close>)
qed

lemma harmless_page:
  assumes "list_all html_ok hs" "list_all html_safe hs"
  shows "harmless_tokens (TDoctype d # all_tokens hs)"
proof -
  have "set (scripts (all_tokens hs @ [])) \<subseteq> set fixed_code \<union> set (scripts [])"
    unfolding all_tokens_def using assms by (intro scripts_concat scripts_tokens) (auto simp: list_all_iff)
  moreover have "(HasPrefix n ''on'' \<longrightarrow> v \<in> set fixed_code) \<and> (n \<in> set url_attrs \<longrightarrow> harmless_url v)"
    if "(n, v) \<in> set (page_attrs (all_tokens hs))" for n v
  proof -
    have "page_attrs (concat xs) = concat (map page_attrs xs)" for xs by (induction xs) (simp_all add: page_attrs_def)
    then show ?thesis using that assms(2) attrs_tokens [of _ n v] by (auto simp: all_tokens_def list_all_iff)
  qed
  moreover have "page_attrs (TDoctype d # ts) = page_attrs ts" for ts by (simp add: page_attrs_def token_attrs_def)
  ultimately show ?thesis by (fastforce simp: harmless_tokens_def page_code_def page_urls_def list_all_iff)
qed

section \<open>Template notation and checks\<close>

abbreviation lit :: "string \<Rightarrow> html" where
  "lit s \<equiv> Txt (Lit s)"

abbreviation out :: "string \<Rightarrow> html" where
  "out s \<equiv> Txt (Data s)"

abbreviation nl :: html where
  "nl \<equiv> Txt (Lit [CHR 0x0A])"

abbreviation has :: "string \<Rightarrow> string \<Rightarrow> attr" where
  "has n s \<equiv> Attr n [Lit s]"

abbreviation hidden :: "string \<Rightarrow> string \<Rightarrow> html" where
  "hidden n s \<equiv> Void ''input'' [has ''type'' ''hidden'', has ''name'' n, Attr ''value'' [Data s]]"

text \<open>The names the templates use.\<close>

lemma tags_ok [simp]:
    "tag_ok ''a''" "tag_ok ''body''" "tag_ok ''br''" "tag_ok ''button''" "tag_ok ''circle''" "tag_ok ''code''"
    "tag_ok ''col''" "tag_ok ''colgroup''" "tag_ok ''details''" "tag_ok ''dialog''" "tag_ok ''div''" "tag_ok ''form''"
    "tag_ok ''h1''" "tag_ok ''h2''" "tag_ok ''head''" "tag_ok ''header''" "tag_ok ''html''" "tag_ok ''input''"
    "tag_ok ''label''" "tag_ok ''li''" "tag_ok ''main''" "tag_ok ''meta''" "tag_ok ''option''" "tag_ok ''p''"
    "tag_ok ''path''" "tag_ok ''rect''" "tag_ok ''script''" "tag_ok ''section''" "tag_ok ''select''" "tag_ok ''span''"
    "tag_ok ''strong''" "tag_ok ''style''" "tag_ok ''summary''" "tag_ok ''svg''" "tag_ok ''table''" "tag_ok ''tbody''"
    "tag_ok ''td''" "tag_ok ''textarea''" "tag_ok ''th''" "tag_ok ''thead''" "tag_ok ''time''" "tag_ok ''title''"
    "tag_ok ''tr''" "tag_ok ''ul''"
  by code_simp+

lemma attr_names_ok [simp]:
    "name_ok ''action''" "name_ok ''aria-hidden''" "name_ok ''aria-label''" "name_ok ''aria-labelledby''"
    "name_ok ''autocomplete''" "name_ok ''autofocus''" "name_ok ''charset''" "name_ok ''class''" "name_ok ''cols''"
    "name_ok ''colspan''" "name_ok ''content''" "name_ok ''cx''" "name_ok ''cy''" "name_ok ''d''" "name_ok ''data-confirm''"
    "name_ok ''data-label''" "name_ok ''datetime''" "name_ok ''fill''" "name_ok ''focusable''" "name_ok ''for''"
    "name_ok ''height''" "name_ok ''href''" "name_ok ''id''" "name_ok ''lang''" "name_ok ''maxlength''" "name_ok ''method''"
    "name_ok ''name''" "name_ok ''onsubmit''" "name_ok ''open''" "name_ok ''pattern''" "name_ok ''placeholder''"
    "name_ok ''r''" "name_ok ''required''" "name_ok ''role''" "name_ok ''rows''" "name_ok ''rx''" "name_ok ''scope''"
    "name_ok ''selected''" "name_ok ''size''" "name_ok ''stroke''" "name_ok ''stroke-linecap''" "name_ok ''stroke-linejoin''"
    "name_ok ''stroke-width''" "name_ok ''title''" "name_ok ''type''" "name_ok ''value''" "name_ok ''viewBox''"
    "name_ok ''width''" "name_ok ''x''" "name_ok ''y''"
  by code_simp+

lemma attr_names_lower [simp]:
     "lower_name ''action'' = ''action''"
  "lower_name ''aria-hidden'' = ''aria-hidden''"
  "lower_name ''aria-label'' = ''aria-label''"
  "lower_name ''aria-labelledby'' = ''aria-labelledby''"
  "lower_name ''autocomplete'' = ''autocomplete''"
  "lower_name ''autofocus'' = ''autofocus''"
  "lower_name ''charset'' = ''charset''"
  "lower_name ''class'' = ''class''"
  "lower_name ''cols'' = ''cols''"
  "lower_name ''colspan'' = ''colspan''"
  "lower_name ''content'' = ''content''"
  "lower_name ''cx'' = ''cx''"
  "lower_name ''cy'' = ''cy''"
  "lower_name ''d'' = ''d''"
  "lower_name ''data-confirm'' = ''data-confirm''"
  "lower_name ''data-label'' = ''data-label''"
  "lower_name ''datetime'' = ''datetime''"
  "lower_name ''fill'' = ''fill''"
  "lower_name ''focusable'' = ''focusable''"
  "lower_name ''for'' = ''for''"
  "lower_name ''height'' = ''height''"
  "lower_name ''href'' = ''href''"
  "lower_name ''id'' = ''id''"
  "lower_name ''lang'' = ''lang''"
  "lower_name ''maxlength'' = ''maxlength''"
  "lower_name ''method'' = ''method''"
  "lower_name ''name'' = ''name''"
  "lower_name ''onsubmit'' = ''onsubmit''"
  "lower_name ''open'' = ''open''"
  "lower_name ''pattern'' = ''pattern''"
  "lower_name ''placeholder'' = ''placeholder''"
  "lower_name ''r'' = ''r''"
  "lower_name ''required'' = ''required''"
  "lower_name ''role'' = ''role''"
  "lower_name ''rows'' = ''rows''"
  "lower_name ''rx'' = ''rx''"
  "lower_name ''scope'' = ''scope''"
  "lower_name ''selected'' = ''selected''"
  "lower_name ''size'' = ''size''"
  "lower_name ''stroke'' = ''stroke''"
  "lower_name ''stroke-linecap'' = ''stroke-linecap''"
  "lower_name ''stroke-linejoin'' = ''stroke-linejoin''"
  "lower_name ''stroke-width'' = ''stroke-width''"
  "lower_name ''title'' = ''title''"
  "lower_name ''type'' = ''type''"
  "lower_name ''value'' = ''value''"
  "lower_name ''viewBox'' = ''viewbox''"
  "lower_name ''width'' = ''width''"
  "lower_name ''x'' = ''x''"
  "lower_name ''y'' = ''y''"
  by code_simp+

definition page_ok :: "html list \<Rightarrow> bool" where
  "page_ok hs \<longleftrightarrow> list_all html_ok hs \<and> list_all html_safe hs"

lemma page_ok_simps [simp]:
  "page_ok []"
  "page_ok (h # hs) \<longleftrightarrow> html_ok h \<and> html_safe h \<and> page_ok hs"
  "page_ok (xs @ ys) \<longleftrightarrow> page_ok xs \<and> page_ok ys"
  by (auto simp: page_ok_def)

lemma page_ok_concat: "(\<And>x. x \<in> set xs \<Longrightarrow> page_ok (f x)) \<Longrightarrow> page_ok (concat (map f xs))"
  by (induction xs) simp_all

lemma page_ok_list_all: "page_ok hs \<Longrightarrow> list_all html_ok hs" "page_ok hs \<Longrightarrow> list_all html_safe hs"
  by (simp_all add: page_ok_def)

lemmas page_checks = attrs_ok_def attr_safe_def url_attrs_def raw_tags_def title_tags_def other_raw_tags_def in_range_def

lemma code_text_ok [simp]:
  "list_all (\<lambda>c. c \<noteq> CHR 0x22 \<and> c \<noteq> CHR ''&'') confirm_code" "list_all (\<lambda>c. c \<noteq> CHR ''<'') offset_code"
  by (simp_all add: confirm_code_def offset_code_def)

section \<open>Forms\<close>

record form =
  fm_method :: string
  fm_action :: string
  fm_fields :: "(string \<times> string) list"

text \<open>
  The state while the tokens go by: the open form, an open selection (its name, its selected and its first option),
  an open text area, and the forms that are complete.
\<close>

record form_state =
  fs_form :: "form option"
  fs_select :: "(string \<times> string option \<times> string option) option"
  fs_area :: "(string \<times> string) option"
  fs_done :: "form list"

definition no_forms :: form_state where
  "no_forms = \<lparr>fs_form = None, fs_select = None, fs_area = None, fs_done = []\<rparr>"

definition attr_of :: "(string \<times> string) list \<Rightarrow> string \<Rightarrow> string" where
  "attr_of as n = (case map_of as n of None \<Rightarrow> [] | Some v \<Rightarrow> v)"

definition add_field :: "string \<Rightarrow> string \<Rightarrow> form_state \<Rightarrow> form_state" where
  "add_field n v st = st\<lparr>fs_form := map_option (\<lambda>f. f\<lparr>fm_fields := fm_fields f @ [(n, v)]\<rparr>) (fs_form st)\<rparr>"

definition open_tag :: "string \<Rightarrow> (string \<times> string) list \<Rightarrow> form_state \<Rightarrow> form_state" where
  "open_tag n as st =
     (if n = ''form'' then st\<lparr>fs_form := Some \<lparr>fm_method = attr_of as ''method'', fm_action = attr_of as ''action'', fm_fields = []\<rparr>\<rparr>
      else if n = ''input'' then (if ''name'' \<in> fst ` set as then add_field (attr_of as ''name'') (attr_of as ''value'') st else st)
      else if n = ''select'' then st\<lparr>fs_select := Some (attr_of as ''name'', None, None)\<rparr>
      else if n = ''option'' then st\<lparr>fs_select := map_option (\<lambda>(nm, chosen, first).
             (nm, if ''selected'' \<in> fst ` set as then Some (attr_of as ''value'') else chosen,
              if first = None then Some (attr_of as ''value'') else first)) (fs_select st)\<rparr>
      else if n = ''textarea'' then st\<lparr>fs_area := Some (attr_of as ''name'', [])\<rparr>
      else st)"

definition close_tag :: "string \<Rightarrow> form_state \<Rightarrow> form_state" where
  "close_tag n st =
     (if n = ''form'' then st\<lparr>fs_done := fs_done st @ (case fs_form st of None \<Rightarrow> [] | Some f \<Rightarrow> [f]), fs_form := None\<rparr>
      else if n = ''select'' then
        (case fs_select st of
           Some (nm, Some v, _) \<Rightarrow> (add_field nm v st)\<lparr>fs_select := None\<rparr>
         | Some (nm, None, Some v) \<Rightarrow> (add_field nm v st)\<lparr>fs_select := None\<rparr>
         | _ \<Rightarrow> st\<lparr>fs_select := None\<rparr>)
      else if n = ''textarea'' then
        (case fs_area st of Some (nm, v) \<Rightarrow> (add_field nm v st)\<lparr>fs_area := None\<rparr> | None \<Rightarrow> st)
      else st)"

fun form_step :: "token \<Rightarrow> form_state \<Rightarrow> form_state" where
  "form_step (TOpen n as sc) st = open_tag n as st"
| "form_step (TClose n) st = close_tag n st"
| "form_step (TChar c) st = st\<lparr>fs_area := map_option (\<lambda>(nm, v). (nm, v @ [c])) (fs_area st)\<rparr>"
| "form_step (TDoctype d) st = st"

definition read_forms :: "token list \<Rightarrow> form_state \<Rightarrow> form_state" where
  "read_forms ts st = fold form_step ts st"

definition page_forms :: "token list \<Rightarrow> form list" where
  "page_forms ts = fs_done (read_forms ts no_forms)"

lemma read_forms_simps [simp]:
  "read_forms [] st = st"
  "read_forms (t # ts) st = read_forms ts (form_step t st)"
  "read_forms (ts @ us) st = read_forms us (read_forms ts st)"
  by (simp_all add: read_forms_def)

lemma form_step_char [simp]: "fs_area st = None \<Longrightarrow> form_step (TChar c) st = st"
  by (cases st) simp

declare form_step.simps(3) [simp del]

lemma read_forms_chars [simp]: "fs_area st = None \<Longrightarrow> read_forms (map TChar s) st = st"
  by (induction s) simp_all

text \<open>The forms of a tree.\<close>

definition tag_attr :: "attr list \<Rightarrow> string \<Rightarrow> string" where
  "tag_attr as n = attr_of (map attr_token as) n"

definition has_attr :: "attr list \<Rightarrow> string \<Rightarrow> bool" where
  "has_attr as n \<longleftrightarrow> n \<in> set (map (fst \<circ> attr_token) as)"

definition note_option :: "string \<times> bool \<Rightarrow> string option \<times> string option \<Rightarrow> string option \<times> string option" where
  "note_option vs cf = (case (vs, cf) of ((v, sel), (chosen, first)) \<Rightarrow>
     (if sel then Some v else chosen, if first = None then Some v else first))"

fun option_of :: "html \<Rightarrow> string \<times> bool" where
  "option_of (Elem n as hs) = (tag_attr as ''value'', has_attr as ''selected'')"
| "option_of _ = ([], False)"

definition selected_field :: "string \<Rightarrow> (string \<times> bool) list \<Rightarrow> (string \<times> string) list" where
  "selected_field n os = (case fold note_option os (None, None) of
       (Some v, _) \<Rightarrow> [(n, v)] | (None, Some v) \<Rightarrow> [(n, v)] | (None, None) \<Rightarrow> [])"

fun tree_fields :: "html \<Rightarrow> (string \<times> string) list" where
  "tree_fields (Elem n as hs) =
     (if n = ''select'' then selected_field (tag_attr as ''name'') (map option_of hs) else concat (map tree_fields hs))"
| "tree_fields (Void n as) =
     (if n = ''input'' \<and> has_attr as ''name'' then [(tag_attr as ''name'', tag_attr as ''value'')] else [])"
| "tree_fields (TitleElem n as ps) = (if n = ''textarea'' then [(tag_attr as ''name'', parts_value ps)] else [])"
| "tree_fields _ = []"

definition all_fields :: "html list \<Rightarrow> (string \<times> string) list" where
  "all_fields hs = concat (map tree_fields hs)"

fun tree_forms :: "html \<Rightarrow> form list" where
  "tree_forms (Elem n as hs) =
     (if n = ''form'' then [\<lparr>fm_method = tag_attr as ''method'', fm_action = tag_attr as ''action'', fm_fields = all_fields hs\<rparr>]
      else concat (map tree_forms hs))"
| "tree_forms _ = []"

definition all_forms :: "html list \<Rightarrow> form list" where
  "all_forms hs = concat (map tree_forms hs)"

text \<open>Where the elements of forms may stand.\<close>

fun is_text :: "html \<Rightarrow> bool" where
  "is_text (Txt p) = True"
| "is_text _ = False"

fun is_option :: "html \<Rightarrow> bool" where
  "is_option (Elem n as hs) = (n = ''option'' \<and> list_all is_text hs)"
| "is_option _ = False"

fun in_form_ok :: "html \<Rightarrow> bool" where
  "in_form_ok (Elem n as hs) =
     (n \<noteq> ''form'' \<and> n \<noteq> ''option'' \<and> n \<noteq> ''textarea'' \<and> n \<noteq> ''input''
      \<and> (if n = ''select'' then list_all is_option hs else list_all in_form_ok hs))"
| "in_form_ok (Void n as) = (n \<noteq> ''form'' \<and> n \<noteq> ''option'' \<and> n \<noteq> ''select'' \<and> n \<noteq> ''textarea'')"
| "in_form_ok (SelfClosed n as) = (n \<notin> set [''form'', ''option'', ''select'', ''textarea'', ''input''])"
| "in_form_ok (RawElem n as s) = (n \<notin> set [''form'', ''option'', ''select'', ''textarea'', ''input''])"
| "in_form_ok (TitleElem n as ps) = (n \<notin> set [''form'', ''option'', ''select'', ''input''])"
| "in_form_ok (Txt p) = True"

fun out_form_ok :: "html \<Rightarrow> bool" where
  "out_form_ok (Elem n as hs) =
     (n \<notin> set [''option'', ''select'', ''textarea'', ''input'']
      \<and> (if n = ''form'' then list_all in_form_ok hs else list_all out_form_ok hs))"
| "out_form_ok (Void n as) = (n \<notin> set [''form'', ''option'', ''select'', ''textarea''])"
| "out_form_ok (SelfClosed n as) = (n \<notin> set [''form'', ''option'', ''select'', ''textarea'', ''input''])"
| "out_form_ok (RawElem n as s) = (n \<notin> set [''form'', ''option'', ''select'', ''textarea'', ''input''])"
| "out_form_ok (TitleElem n as ps) = (n \<notin> set [''form'', ''option'', ''select'', ''textarea'', ''input''])"
| "out_form_ok (Txt p) = True"

definition in_form :: "form_state \<Rightarrow> bool" where
  "in_form st \<longleftrightarrow> fs_form st \<noteq> None \<and> fs_select st = None \<and> fs_area st = None"

definition add_fields :: "(string \<times> string) list \<Rightarrow> form_state \<Rightarrow> form_state" where
  "add_fields fs st = st\<lparr>fs_form := map_option (\<lambda>f. f\<lparr>fm_fields := fm_fields f @ fs\<rparr>) (fs_form st)\<rparr>"

lemma add_fields_simps [simp]:
  "add_fields [] st = st" "add_fields fs (add_fields gs st) = add_fields (gs @ fs) st"
  "in_form (add_fields fs st) = in_form st" "add_field n v = add_fields [(n, v)]"
  "fs_area (add_fields fs st) = fs_area st" "fs_select (add_fields fs st) = fs_select st" "fs_done (add_fields fs st) = fs_done st"
  by (cases st, cases "fs_form st", simp_all add: add_fields_def add_field_def in_form_def fun_eq_iff option.map_comp comp_def)+

lemma attr_names_image [simp]: "n \<in> fst ` attr_token ` set as \<longleftrightarrow> has_attr as n"
  by (auto simp: has_attr_def)

lemma read_forms_texts: "fs_area st = None \<Longrightarrow> list_all is_text hs \<Longrightarrow> read_forms (concat (map tokens hs)) st = st"
proof (induction hs)
  case (Cons h hs)
  then show ?case by (cases h) simp_all
qed simp

lemma read_options:
  assumes "list_all is_option hs" "fs_select st = Some (nm, c, f)" "fs_area st = None"
  shows "read_forms (concat (map tokens hs)) st
    = st\<lparr>fs_select := Some (nm, fold note_option (map option_of hs) (c, f))\<rparr>"
  using assms
proof (induction hs arbitrary: st c f)
  case Nil
  then show ?case by simp
next
  case (Cons h hs)
  then obtain as xs where h: "h = Elem ''option'' as xs" "list_all is_text xs" by (cases h) auto
  let ?st = "st\<lparr>fs_select := Some (nm, note_option (option_of h) (c, f))\<rparr>"
  have "read_forms (tokens h) st = ?st"
    using Cons.prems h by (simp add: open_tag_def close_tag_def read_forms_texts note_option_def tag_attr_def)
  then show ?case using Cons.IH [of ?st "fst (note_option (option_of h) (c, f))" "snd (note_option (option_of h) (c, f))"] Cons.prems
    by simp
qed

lemma read_fields:
  "in_form_ok h \<Longrightarrow> in_form st \<Longrightarrow> read_forms (tokens h) st = add_fields (tree_fields h) st"
proof (induction h arbitrary: st)
  case (Elem n as hs)
  have st: "fs_select st = None" "fs_area st = None" "fs_form st \<noteq> None" using Elem.prems by (simp_all add: in_form_def)
  show ?case
  proof (cases "n = ''select''")
    case True
    let ?st = "st\<lparr>fs_select := Some (tag_attr as ''name'', None, None)\<rparr>"
    have "read_forms (concat (map tokens hs)) ?st
        = ?st\<lparr>fs_select := Some (tag_attr as ''name'', fold note_option (map option_of hs) (None, None))\<rparr>"
      using Elem.prems True st by (intro read_options) simp_all
    then show ?thesis using True st
      by (cases st) (auto simp: open_tag_def close_tag_def tag_attr_def selected_field_def add_fields_def split: option.split prod.split)
  next
    case False
    have "read_forms (concat (map tokens xs)) s = add_fields (concat (map tree_fields xs)) s"
      if "set xs \<subseteq> set hs" "in_form s" for xs s
      using that Elem.IH Elem.prems False by (induction xs arbitrary: s) (auto simp: list_all_iff)
    then show ?thesis using Elem.prems False by (simp add: open_tag_def close_tag_def)
  qed
next
  case (Void n as)
  then show ?case by (simp add: open_tag_def tag_attr_def)
next
  case (TitleElem n as ps)
  have "read_forms (map TChar s) (x\<lparr>fs_area := Some (nm, v)\<rparr>) = x\<lparr>fs_area := Some (nm, v @ s)\<rparr>" for s x nm v
    by (induction s arbitrary: v) (simp_all add: form_step.simps(3))
  then have c: "read_forms (map TChar s) (x\<lparr>fs_area := Some (nm, [])\<rparr>) = x\<lparr>fs_area := Some (nm, s)\<rparr>" for s x nm
    by simp
  show ?case
  proof (cases "n = ''textarea''")
    case True
    have st: "st\<lparr>fs_form := F, fs_area := None\<rparr> = st\<lparr>fs_form := F\<rparr>" for F using TitleElem.prems(2) by (cases st) (simp add: in_form_def)
    show ?thesis using True c st by (simp add: open_tag_def close_tag_def tag_attr_def add_field_def add_fields_def)
  next
    case False
    then show ?thesis using TitleElem by (simp add: open_tag_def close_tag_def in_form_def)
  qed
qed (auto simp: open_tag_def close_tag_def in_form_def)

definition idle :: "form_state \<Rightarrow> bool" where
  "idle st \<longleftrightarrow> fs_form st = None \<and> fs_select st = None \<and> fs_area st = None"

definition add_forms :: "form list \<Rightarrow> form_state \<Rightarrow> form_state" where
  "add_forms fs st = st\<lparr>fs_done := fs_done st @ fs\<rparr>"

lemma add_forms_simps [simp]:
  "add_forms [] st = st" "add_forms fs (add_forms gs st) = add_forms (gs @ fs) st" "idle (add_forms fs st) = idle st"
  by (simp_all add: add_forms_def idle_def)

lemma read_tree_forms:
  "out_form_ok h \<Longrightarrow> idle st \<Longrightarrow> read_forms (tokens h) st = add_forms (tree_forms h) st"
proof (induction h arbitrary: st)
  case (Elem n as hs)
  show ?case
  proof (cases "n = ''form''")
    case True
    let ?f = "\<lparr>fm_method = tag_attr as ''method'', fm_action = tag_attr as ''action'', fm_fields = []\<rparr>"
    have "read_forms (concat (map tokens xs)) s = add_fields (concat (map tree_fields xs)) s"
      if "list_all in_form_ok xs" "in_form s" for xs s
      using that by (induction xs arbitrary: s) (auto simp: read_fields)
    then have "read_forms (concat (map tokens hs)) (st\<lparr>fs_form := Some ?f\<rparr>) = add_fields (all_fields hs) (st\<lparr>fs_form := Some ?f\<rparr>)"
      using Elem.prems True by (simp add: in_form_def idle_def all_fields_def)
    then show ?thesis using True Elem.prems
      by (cases st) (simp add: open_tag_def close_tag_def tag_attr_def add_fields_def add_forms_def idle_def)
  next
    case False
    have "read_forms (concat (map tokens xs)) s = add_forms (concat (map tree_forms xs)) s"
      if "set xs \<subseteq> set hs" "idle s" for xs s
      using that Elem.IH Elem.prems False by (induction xs arbitrary: s) (auto simp: list_all_iff)
    then show ?thesis using Elem.prems False by (simp add: open_tag_def close_tag_def)
  qed
next
  case (Void n as)
  then show ?case by (cases st) (simp add: open_tag_def idle_def add_fields_def)
qed (auto simp: open_tag_def close_tag_def idle_def)

lemma page_forms_tree:
  assumes "list_all out_form_ok hs"
  shows "page_forms (TDoctype d # all_tokens hs) = all_forms hs"
proof -
  have "read_forms (concat (map tokens xs)) s = add_forms (concat (map tree_forms xs)) s"
    if "list_all out_form_ok xs" "idle s" for xs s
    using that by (induction xs arbitrary: s) (auto simp: read_tree_forms)
  then have "read_forms (all_tokens hs) no_forms = add_forms (all_forms hs) no_forms"
    using assms by (simp add: all_tokens_def all_forms_def idle_def no_forms_def)
  then show ?thesis by (simp add: page_forms_def add_forms_def no_forms_def)
qed

end
