(* ===== verification/Admin_Pages.thy ===== *)
theory Admin_Pages
  imports Admin_Handlers Html_Views
begin

text \<open>
  The templates of \<open>internal/sftpadmin/ui.go\<close> as document trees over the data of the pages, piece by piece
  in the order of the file, the error texts they show, and the bytes of every response body. The
  line breaks between the elements are those of the templates.
\<close>

section \<open>The texts of errors\<close>

text \<open>
  What the standard library contributes: the quoting verb of \<open>fmt\<close>, the texts of system errors and the
  detail of decoding errors.
\<close>

record lib_texts =
  lt_quote :: "string \<Rightarrow> string"
  lt_io :: "ioerr \<Rightarrow> string"
  lt_detail :: string

fun username_text :: "lib_texts \<Rightarrow> username_error \<Rightarrow> string" where
  "username_text T (BadUsername n) = ''invalid username '' @ lt_quote T n @ '': must match ^[a-z_][a-z0-9_-]{0,31}$''"
| "username_text T (ReservedUsername n) = ''invalid username '' @ lt_quote T n @ '': reserved system name''"

fun key_reason :: "lib_texts \<Rightarrow> key_error \<Rightarrow> string" where
  "key_reason T KeyMultiLine = ''must be a single line''"
| "key_reason T KeyEmpty = ''empty''"
| "key_reason T KeyPrivate = ''private keys are not accepted''"
| "key_reason T KeyFields = ''expected '<type> <base64> [comment]'' @ [CHR 0x27]"
| "key_reason T (KeyType t) = ''unsupported type '' @ lt_quote T t"
| "key_reason T KeyBase64 = ''bad base64: '' @ lt_detail T"
| "key_reason T KeyTruncated = ''truncated blob''"
| "key_reason T (KeyWireType inner t) = ''wire type '' @ lt_quote T inner @ '' does not match declared '' @ lt_quote T t"
| "key_reason T KeyEd25519 = ''malformed ed25519 key''"
| "key_reason T KeyRsaExponent = ''malformed rsa exponent''"
| "key_reason T KeyRsaModulus = ''malformed rsa modulus''"
| "key_reason T KeyEcdsaCurve = ''malformed ecdsa curve''"
| "key_reason T KeyEcdsa = ''malformed ecdsa key''"
| "key_reason T KeyPanic = []"

definition key_text :: "lib_texts \<Rightarrow> key_error \<Rightarrow> string" where
  "key_text T e = ''invalid public key: '' @ key_reason T e"

fun admin_error_text :: "lib_texts \<Rightarrow> admin_error \<Rightarrow> string" where
  "admin_error_text T (AIO e) = lt_io T e"
| "admin_error_text T ASyntax = ''invalid manifest: '' @ lt_detail T"
| "admin_error_text T (AVersion n) = ''invalid manifest: unsupported version '' @ FormatInt n"
| "admin_error_text T (AUsername e) = username_text T e"
| "admin_error_text T (ADuplicate n) = ''invalid manifest: duplicate user '' @ lt_quote T n"
| "admin_error_text T (AKey n e) = ''invalid manifest: user '' @ lt_quote T n @ '': '' @ key_text T e"
| "admin_error_text T (AInvalid e) = ''invalid manifest: '' @ admin_error_text T e"
| "admin_error_text T AUserExists = ''user already exists''"
| "admin_error_text T ANoSuchUser = ''user not found''"
| "admin_error_text T ANoSuchKey = ''key not found''"
| "admin_error_text T ADeleteEnabled = ''disable the user before deletion''"
| "admin_error_text T ANilMap = []"

fun link_error_text :: "lib_texts \<Rightarrow> link_error \<Rightarrow> string" where
  "link_error_text T Links_ErrExists = ''link already exists''"
| "link_error_text T Links_ErrNotFound = ''link not found''"
| "link_error_text T (LinkIO e) = lt_io T e"
| "link_error_text T _ = lt_detail T"

fun message_text :: "lib_texts \<Rightarrow> message \<Rightarrow> string" where
  "message_text T (MText s) = s"
| "message_text T (MUsername e) = username_text T e"
| "message_text T (MKey e) = key_text T e"
| "message_text T (MStore e) = admin_error_text T e"
| "message_text T (MPrefix s m) = s @ message_text T m"
| "message_text T (MLink e) = link_error_text T e"

definition error_text :: "lib_texts \<Rightarrow> message option \<Rightarrow> string" where
  "error_text T e = (case e of None \<Rightarrow> [] | Some m \<Rightarrow> message_text T m)"

text \<open>The texts of \<open>SharedConfig.Validate\<close>, the only ones that the settings page shows, and that of an unknown key.\<close>

fun setting_text :: "lib_texts \<Rightarrow> setting_error \<Rightarrow> string" where
  "setting_text T (UnknownSetting k) = ''unknown setting '' @ lt_quote T k"
| "setting_text T (InvalidSetting (InvalidHashTarget s)) =
     ''invalid HASH_TARGET '' @ lt_quote T s @ '': must be \"file\" or \"filename\"''"
| "setting_text T (InvalidSetting (InvalidHashAlgorithm s)) =
     ''invalid HASH_ALGORITHM '' @ lt_quote T s @ '': must be \"md5\" or \"sha256\"''"
| "setting_text T (InvalidSetting InvalidPublicURL) = ''invalid PUBLIC_URL: must not be empty''"
| "setting_text T (InvalidSetting InvalidAdminToken) = ''invalid ADMIN_TOKEN: must not be empty''"
| "setting_text T (InvalidSetting InvalidSftpAdminPassword) = ''invalid SFTP_ADMIN_PASSWORD: must not be empty''"
| "setting_text T (InvalidSetting _) = lt_detail T"

section \<open>Times\<close>

text \<open>Year, month, day and second of the day in UTC; a year before 0 is shifted by whole calendar cycles.\<close>

definition utc_clock :: "time \<Rightarrow> int \<times> nat \<times> nat \<times> nat" where
  "utc_clock t =
     (let secs = t div second; day = secs div 86400 + int unix_epoch_day; sod = nat (secs mod 86400);
          cycles = nat ((- day + 146096) div 146097);
          (y, m, d) = civil (nat (day + 146097 * int cycles))
      in (int y - 400 * int cycles, m, d, sod))"

definition format_year :: "int \<Rightarrow> string" where
  "format_year y =
     (if y < 0 then ''-'' else []) @ (if \<bar>y\<bar> \<le> 9999 then four (nat \<bar>y\<bar>) else FormatNat (nat \<bar>y\<bar>))"

definition format_date :: "time \<Rightarrow> string" where
  "format_date t = (case utc_clock t of (y, m, d, sod) \<Rightarrow> format_year y @ ''-'' @ two m @ ''-'' @ two d)"

definition format_clock :: "time \<Rightarrow> string" where
  "format_clock t = (case utc_clock t of (y, m, d, sod) \<Rightarrow> two (sod div 3600) @ '':'' @ two (sod div 60 mod 60))"

text \<open>The layouts \<open>2006-01-02 15:04\<close> and \<open>2006-01-02T15:04:05Z07:00\<close>.\<close>

definition format_minute :: "time \<Rightarrow> string" where
  "format_minute t = format_date t @ '' '' @ format_clock t"

definition format_rfc3339 :: "time \<Rightarrow> string" where
  "format_rfc3339 t = format_date t @ ''T'' @ format_clock t @ '':''
     @ (case utc_clock t of (y, m, d, sod) \<Rightarrow> two (sod mod 60)) @ ''Z''"

section \<open>The shell\<close>

definition style_lines :: "string list" where
  "style_lines =
    ['':root{--bg:#f4f5f7;--card:#fff;--ink:#1c2430;--muted:#5b6572;--line:#dfe3e8;--accent:#1f6feb;--accent-ink:#fff;--danger:#b42318;--ok:#067647;--nav:#24292f;--nav-muted:#57606a;--alert-bg:#fef3f2;--alert-line:#fecdca;--notice-bg:#ecfdf3;--notice-line:#a6f4c5;--row-alt:#f9fafb;--scrim:rgba(28,36,48,.55);--overlay-top:10vh;--radius:8px;--pad:16px}'',
     ''*{box-sizing:border-box}body{margin:0;background:var(--bg);color:var(--ink);font:16px/1.5 system-ui,-apple-system,\"Segoe UI\",sans-serif}'',
     ''.topnav{background:var(--nav);color:var(--accent-ink);padding:10px var(--pad);display:flex;flex-wrap:wrap;gap:8px 16px;align-items:center}'',
     ''.topnav .brand{font-weight:700;margin-right:auto}'',
     ''.topnav a{color:var(--accent-ink);text-decoration:none;padding:4px 8px;border-radius:4px}'',
     ''.topnav a.active{background:var(--nav-muted)}'',
     ''.topnav button{background:transparent;color:var(--accent-ink);border:1px solid var(--nav-muted);border-radius:4px;padding:4px 10px;cursor:pointer}'',
     ''main{max-width:1200px;margin:0 auto;padding:24px var(--pad) 48px}'',
     ''.card{background:var(--card);border:1px solid var(--line);border-radius:var(--radius);padding:var(--pad);margin:0 0 20px}'',
     ''h1{font-size:1.5rem;margin:0 0 16px}h2{font-size:1.15rem;margin:0 0 12px}'',
     ''.alert{background:var(--alert-bg);border:1px solid var(--alert-line);color:var(--danger);border-radius:var(--radius);padding:10px 12px;margin:0 0 12px}'',
     ''.notice{background:var(--notice-bg);border:1px solid var(--notice-line);color:var(--ok);border-radius:var(--radius);padding:10px 12px;margin:0 0 12px}'',
     ''label{display:block;margin:10px 0 4px;font-weight:600}'',
     ''.hint{color:var(--muted);font-size:.85rem;font-weight:400}'',
     ''input[type=text],input[type=password],textarea,select{width:100%;max-width:560px;padding:8px 10px;border:1px solid var(--line);border-radius:4px;font:inherit}'',
     ''textarea{resize:vertical}'',
     ''button,.btn{display:inline-block;background:var(--accent);color:var(--accent-ink);border:0;border-radius:4px;padding:8px 16px;font:inherit;cursor:pointer;text-decoration:none}'',
     ''button.secondary,.btn.secondary{background:var(--nav-muted)}'',
     ''button.danger,.btn.danger{background:var(--danger)}'',
     ''table{width:100%;border-collapse:collapse;margin-top:8px}'',
     ''th,td{text-align:left;padding:8px 10px;border-bottom:1px solid var(--line);vertical-align:top}'',
     ''tbody tr:nth-child(even){background:var(--row-alt)}'',
     ''code{word-break:break-all;font-size:.85em}'',
     ''.key-type{color:var(--muted);font-size:.85rem}'',
     ''.key-invalid{color:var(--danger);font-weight:600}'',
     ''.table-wrap{overflow-x:auto}'',
     ''.users-table{table-layout:fixed}'',
     ''.users-table .col-username{width:24%}'',
     ''.users-table .col-status{width:18%}'',
     ''.users-table .col-keys{width:22%}'',
     ''.users-table .col-manage{width:36%}'',
     ''.key-summary{white-space:nowrap}'',
     ''.user-cell{padding:0}'',
     ''.user-details{margin:0}'',
     ''.user-details summary{cursor:pointer;font-weight:600}'',
     ''.user-summary{display:grid;grid-template-columns:24% 18% 22% 36%;align-items:start;gap:0}'',
     ''.user-summary>span{padding:8px 10px;min-width:0;overflow-wrap:anywhere}'',
     ''.user-summary .summary-manage{font-weight:600;color:var(--accent);text-decoration:underline;text-underline-offset:2px}'',
     ''.user-summary .summary-manage::before{content:\"'' @ [CHR 0xE2, CHR 0x96, CHR 0xB8] @ ''\";display:inline-block;margin-right:6px;text-decoration:none}'',
     ''.user-details[open] .summary-manage::before{content:\"'' @ [CHR 0xE2, CHR 0x96, CHR 0xBE] @ ''\"}'',
     ''.user-details[open] .user-maintenance{border-top:1px solid var(--line);padding:8px 10px 4px}'',
     ''.user-maintenance{margin-top:8px}'',
     ''.user-maintenance ul{display:grid;grid-template-columns:repeat(auto-fit,minmax(280px,1fr));gap:12px;margin:8px 0;padding:0;list-style:none}'',
     ''.user-maintenance li{min-width:0;padding:8px;border:1px solid var(--line);border-radius:4px}'',
     ''.user-actions{display:flex;flex-wrap:wrap;gap:8px;margin-top:12px}'',
     ''.user-actions .inline-form{margin:0}'',
     ''@media (max-width:600px){.users-table{min-width:0;table-layout:auto}.users-table thead{position:absolute;width:1px;height:1px;padding:0;margin:-1px;overflow:hidden;clip:rect(0,0,0,0);white-space:nowrap;border:0}.user-summary{grid-template-columns:repeat(2,minmax(0,1fr))}.user-summary>span{padding:8px 6px}.user-maintenance ul{grid-template-columns:1fr}.user-maintenance .inline-form{display:block;margin:0 0 8px}.user-maintenance .inline-form input[type=text]{width:100%;max-width:100%}.user-maintenance button{width:100%}}'',
     ''a:focus-visible,button:focus-visible,input:focus-visible,textarea:focus-visible,select:focus-visible,summary:focus-visible{outline:2px solid var(--accent);outline-offset:2px}'',
     ''.inline-form{display:inline;margin-right:8px}'',
     ''.inline-form input[type=text]{width:auto;max-width:none}'',
     ''.form-actions{margin-top:12px}'',
     ''.status{display:inline-flex;align-items:center;gap:6px;white-space:nowrap}'',
     ''.status-dot{flex:none}'',
     ''.key-note{font-size:.85rem}'',
     ''.note-form{margin-top:4px}'',
     ''.problems{margin:8px 0}'',
     '' .links-table{table-layout:fixed}'',
     ''.links-table .col-id{width:15%}'',
     ''.links-table .col-url{width:32%}'',
     ''.links-table .col-access{width:14%}'',
     ''.links-table .col-validity{width:29%}'',
     ''.links-table .col-actions{width:10%}'',
     ''.links-table .link-id{white-space:nowrap}'',
     ''.links-table .link-id code{white-space:nowrap;word-break:normal}'',
     ''.links-table a{overflow-wrap:anywhere;word-break:break-word}'',
     ''.link-stack{display:grid;gap:4px}'',
     ''.link-meta{display:inline-flex;align-items:center;gap:5px;max-width:100%;white-space:nowrap}'',
     ''.link-meta svg{flex:none}'',
     ''.link-meta-label{color:var(--muted)}'',
     '' .link-meta-value{min-width:0;white-space:normal;overflow-wrap:anywhere;overflow:visible;text-overflow:clip}'',
     ''.link-description{display:block;margin-top:4px;overflow-wrap:anywhere;word-break:break-word}'',
     '' @media (max-width:1024px){'',
     '' .links-table{min-width:0;table-layout:auto}'',
     '' .links-table colgroup{display:none}'',
     '' .links-table thead{position:absolute;width:1px;height:1px;padding:0;margin:-1px;overflow:hidden;clip:rect(0,0,0,0);white-space:nowrap;border:0}'',
     '' .links-table tbody,.links-table td{display:block}'',
     '' .links-table tbody tr{display:grid;grid-template-columns:minmax(0,1fr) minmax(0,2fr)}'',
     '' .links-table .link-id,.links-table .link-url,.links-table .link-actions{grid-column:1 / -1}'',
     '' .links-table tbody tr{margin:12px 0;border:1px solid var(--line);border-radius:4px;background:var(--card)}'',
     '' .links-table tbody tr:nth-child(even){background:var(--card)}'',
     '' .links-table td{padding:8px 10px;border-bottom:0}'',
     '' .links-table td::before{content:attr(data-label);display:block;margin-bottom:4px;color:var(--muted);font-size:.85rem;font-weight:600}'',
     '' .links-table .link-actions{border-top:1px solid var(--line)}'',
     ''}'',
     ''@media (max-width:600px){'',
     '' .links-table tbody tr{grid-template-columns:1fr}'',
     ''}'',
     ''.overlay{position:fixed;inset:0;background:var(--scrim);display:flex;align-items:flex-start;justify-content:center;padding:clamp(24px,var(--overlay-top),96px) 16px 48px;z-index:50}'',
     ''.overlay-card{position:static;width:100%;max-width:560px;margin:0}'']"

definition style_text :: string where
  "style_text = CHR 0x0A # concat (map (\<lambda>l. l @ [CHR 0x0A]) style_lines)"

definition nav_html :: "'a pageData_scheme \<Rightarrow> html list" where
  "nav_html p =
     (if pd_ShowNav p
      then [Elem ''header'' [has ''class'' ''topnav'']
              [Elem ''span'' [has ''class'' ''brand''] [lit ''SFTP admin''],
               Elem ''a'' ([has ''href'' ''/''] @ (if pd_Active p = ''users'' then [has ''class'' ''active''] else []))
                 [lit ''Users''],
               Elem ''a'' ([has ''href'' ''/links''] @ (if pd_Active p = ''links'' then [has ''class'' ''active''] else []))
                 [lit ''Links''],
               Elem ''a''
                 ([has ''href'' ''/settings''] @ (if pd_Active p = ''settings'' then [has ''class'' ''active''] else []))
                 [lit ''Settings''],
               Elem ''form'' [has ''class'' ''inline-form'', has ''method'' ''post'', has ''action'' ''/logout'']
                 [hidden csrfField (pd_CSRF p), Elem ''button'' [has ''type'' ''submit''] [lit ''Sign out'']]]]
      else [])"

definition page_shell :: "'a pageData_scheme \<Rightarrow> html list \<Rightarrow> html list" where
  "page_shell p content =
     [nl,
      Elem ''html'' [has ''lang'' ''en'']
        [nl,
         Elem ''head'' []
           [Void ''meta'' [has ''charset'' ''utf-8''],
            Void ''meta'' [has ''name'' ''viewport'', has ''content'' ''width=device-width, initial-scale=1''],
            TitleElem ''title'' [] [Data (pd_Title p)], nl, RawElem ''style'' [] style_text, nl],
         nl, Elem ''body'' [] ([nl] @ nav_html p @ [nl, Elem ''main'' [] content, nl]), nl]]"

section \<open>The login page\<close>

definition login_content :: "string \<Rightarrow> html list" where
  "login_content err =
     [nl,
      Elem ''section'' [has ''class'' ''card'']
        ([nl, Elem ''h1'' [] [lit ''SFTP admin''], nl]
         @ (if err \<noteq> [] then [Elem ''p'' [has ''class'' ''alert'', has ''role'' ''alert''] [out err]] else [])
         @ [nl,
            Elem ''form'' [has ''method'' ''post'', has ''action'' ''/login'']
              [nl, Elem ''label'' [has ''for'' ''password''] [lit ''Admin password''], nl,
               Void ''input''
                 [has ''type'' ''password'', has ''id'' ''password'', has ''name'' ''password'',
                  has ''autocomplete'' ''current-password'', Flag ''required''],
               nl, Elem ''button'' [has ''type'' ''submit''] [lit ''Sign in''], nl],
            nl]),
      nl]"

section \<open>The users page\<close>

definition feedback_html :: "string \<Rightarrow> usersView \<Rightarrow> html list" where
  "feedback_html err v =
     (case uv_Generated v of
        Some g \<Rightarrow>
            [Elem ''div'' [has ''class'' ''overlay'']
               [Elem ''dialog''
                  [has ''class'' ''card overlay-card'', Flag ''open'', has ''aria-labelledby'' ''generated-title'']
                  [nl, Elem ''h2'' [has ''id'' ''generated-title''] [lit ''Key generated for '', out (gr_Username g)], nl,
                   Elem ''p'' [] [lit ''Public key fingerprint: '', Elem ''code'' [] [out (gr_Fingerprint g)]], nl,
                   Elem ''p'' [has ''class'' ''alert'', has ''role'' ''alert'']
                     [lit ''The private key below can be downloaded exactly once. It is never stored. Save it now.''],
                   nl,
                   Elem ''p'' []
                     [Elem ''a''
                        [has ''class'' ''btn'', Flag ''autofocus'',
                         Attr ''href'' [Lit ''/keys/download?token='', UrlQuery (gr_Token g)]]
                        [lit ''Download private key (one-time)'']],
                   nl, Elem ''p'' [] [Elem ''a'' [has ''class'' ''btn secondary'', has ''href'' ''/''] [lit ''Close'']], nl]]]
        | None \<Rightarrow>
            (if err \<noteq> []
             then [Elem ''div'' [has ''class'' ''overlay'']
                     [Elem ''dialog''
                        [has ''class'' ''card overlay-card'', Flag ''open'', has ''aria-labelledby'' ''feedback-title'']
                        [nl, Elem ''h2'' [has ''id'' ''feedback-title''] [out (uv_ErrorTitle v)], nl,
                         Elem ''p'' [has ''class'' ''alert'', has ''role'' ''alert''] [out err], nl,
                         Elem ''p'' []
                           [Elem ''a'' [has ''class'' ''btn secondary'', Flag ''autofocus'', has ''href'' ''/'']
                              [lit ''Close'']],
                         nl]]]
             else []))"

definition status_badge :: "userRow \<Rightarrow> html list" where
  "status_badge u =
     (if ur_Enabled u
      then [Elem ''span''
              [has ''class'' ''status'', has ''title'' ''Enabled: new logins accepted'',
               has ''aria-label'' ''Status: enabled, new logins accepted'']
              [Elem ''svg''
                 [has ''class'' ''status-dot'', has ''width'' ''10'', has ''height'' ''10'', has ''viewBox'' ''0 0 10 10'',
                  has ''aria-hidden'' ''true'', has ''focusable'' ''false'']
                 [SelfClosed ''circle'' [has ''cx'' ''5'', has ''cy'' ''5'', has ''r'' ''4'', has ''fill'' ''var(--ok)'']],
               lit ''enabled'']]
      else [Elem ''span''
              [has ''class'' ''status'', has ''title'' ''Disabled: no new logins'',
               has ''aria-label'' ''Status: disabled, no new logins'']
              [Elem ''svg''
                 [has ''class'' ''status-dot'', has ''width'' ''10'', has ''height'' ''10'', has ''viewBox'' ''0 0 10 10'',
                  has ''aria-hidden'' ''true'', has ''focusable'' ''false'']
                 [SelfClosed ''circle''
                    [has ''cx'' ''5'', has ''cy'' ''5'', has ''r'' ''4'', has ''fill'' ''var(--nav-muted)'']],
               lit ''disabled'']])"

definition key_summary :: "userRow \<Rightarrow> html list" where
  "key_summary u =
     (if ur_InvalidKeys u \<noteq> 0
      then (if ur_ValidKeys u \<noteq> 0
            then [out (FormatNat (ur_ValidKeys u)), lit '' usable '']
                 @ (if ur_ValidKeys u = 1 then [lit ''key''] else [lit ''keys'']) @ [lit '', '']
            else []) @ [Elem ''span'' [has ''class'' ''key-invalid''] [out (FormatNat (ur_InvalidKeys u)), lit '' invalid'']]
      else (if ur_ValidKeys u \<noteq> 0
            then [out (FormatNat (ur_ValidKeys u)), lit '' usable '']
                 @ (if ur_ValidKeys u = 1 then [lit ''key''] else [lit ''keys''])
            else [lit ''No keys'']))"

definition key_item :: "string \<Rightarrow> userRow \<Rightarrow> keyView \<Rightarrow> html list" where
  "key_item csrf u k =
     (if kv_Valid k
      then [Elem ''li'' []
              ([Elem ''code'' [Attr ''title'' [Data (kv_Fingerprint k)]] [out (kv_Short k)], Void ''br'' [],
                Elem ''span'' [has ''class'' ''key-type''] [out (kv_Type k)]]
               @ (if kv_Note k \<noteq> []
                  then [Void ''br'' [], Elem ''span'' [has ''class'' ''key-note''] [lit ''Note: '', out (kv_Note k)]]
                  else [])
               @ [Void ''br'' [],
                  Elem ''details'' [] [Elem ''summary'' [] [lit ''Show full key''], Elem ''code'' [] [out (kv_Key k)]],
                  Elem ''form''
                    [has ''class'' ''inline-form note-form'', has ''method'' ''post'', has ''action'' ''/users/key-note'']
                    [hidden csrfField csrf, hidden ''username'' (ur_Username u), hidden ''fingerprint'' (kv_Fingerprint k),
                     Elem ''label'' []
                       [lit ''Note '',
                        Void ''input''
                          [has ''type'' ''text'', has ''name'' ''note'', Attr ''value'' [Data (kv_Note k)],
                           has ''maxlength'' ''120'', has ''size'' ''20'']],
                     Elem ''button'' [has ''class'' ''secondary'', has ''type'' ''submit''] [lit ''Save note'']],
                  Elem ''form''
                    [has ''class'' ''inline-form'', has ''method'' ''post'', has ''action'' ''/users/delete-key'',
                     Attr ''data-confirm''
                       [Lit ''Remove key '', Data (kv_Fingerprint k), Lit ''? Removing the last key disables the user.''],
                     has ''onsubmit'' confirm_code]
                    [hidden csrfField csrf, hidden ''username'' (ur_Username u), hidden ''fingerprint'' (kv_Fingerprint k),
                     Elem ''button'' [has ''class'' ''secondary'', has ''type'' ''submit''] [lit ''Remove'']]])]
      else [Elem ''li'' []
              [Elem ''span'' [has ''class'' ''key-invalid''] [lit ''Invalid key '', Elem ''code'' [] [lit ''(invalid)'']],
               Void ''br'' [],
               Elem ''span'' [has ''class'' ''hint''] [lit ''This entry fails validation and has no fingerprint.'']]])"

definition key_list :: "string \<Rightarrow> userRow \<Rightarrow> html list" where
  "key_list csrf u =
     (if ur_Keys u \<noteq> []
      then [Elem ''ul'' [] (concat (map (key_item csrf u) (ur_Keys u)))]
      else [Elem ''p'' [has ''class'' ''hint''] [lit ''No keys.'']])"

definition user_actions :: "string \<Rightarrow> userRow \<Rightarrow> html list" where
  "user_actions csrf u =
     [Elem ''div'' [has ''class'' ''user-actions'']
        ([Elem ''form'' [has ''class'' ''inline-form'', has ''method'' ''post'', has ''action'' ''/users/generate-key'']
            [nl, hidden csrfField csrf, nl, hidden ''username'' (ur_Username u), nl,
             Elem ''button'' [has ''type'' ''submit''] [lit ''Generate new key''], nl],
          nl,
          Elem ''form'' [has ''class'' ''inline-form'', has ''method'' ''post'', has ''action'' ''/users/status'']
            ([nl, hidden csrfField csrf, nl, hidden ''username'' (ur_Username u), nl]
             @ (if ur_Enabled u
                then [Void ''input'' [has ''type'' ''hidden'', has ''name'' ''action'', has ''value'' ''disable''],
                      Elem ''button'' [has ''class'' ''secondary'', has ''type'' ''submit''] [lit ''Disable''], nl]
                else [Void ''input'' [has ''type'' ''hidden'', has ''name'' ''action'', has ''value'' ''enable''],
                      Elem ''button'' [has ''type'' ''submit''] [lit ''Enable'']])
             @ [nl]),
          nl]
         @ (if \<not> ur_Enabled u
            then [Elem ''form''
                    [has ''class'' ''inline-form'', has ''method'' ''post'', has ''action'' ''/users/delete'',
                     Attr ''data-confirm''
                       [Lit ''Delete user '', Data (ur_Username u), Lit '' permanently? '', Data (FormatNat (ur_ValidKeys u)),
                        Lit '' key(s) will be removed. This cannot be undone.''],
                     has ''onsubmit'' confirm_code]
                    [nl, hidden csrfField csrf, nl, hidden ''username'' (ur_Username u), nl,
                     Elem ''button'' [has ''class'' ''danger'', has ''type'' ''submit''] [lit ''Delete''], nl]]
            else []))]"

definition user_item :: "string \<Rightarrow> userRow \<Rightarrow> html list" where
  "user_item csrf u =
     [Elem ''tr'' []
        [nl,
         Elem ''td'' [has ''colspan'' ''4'', has ''class'' ''user-cell'']
           [Elem ''details'' [has ''class'' ''user-details'']
              [Elem ''summary'' [has ''class'' ''user-summary'']
                 [Elem ''span'' [] [out (ur_Username u)], Elem ''span'' [] (status_badge u), nl,
                  Elem ''span'' [] [Elem ''span'' [has ''class'' ''key-summary''] (key_summary u)], nl,
                  Elem ''span'' [has ''class'' ''summary-manage''] [lit ''Manage '', out (ur_Username u)]],
               Elem ''div'' [has ''class'' ''user-maintenance''] ([nl] @ key_list csrf u @ [nl] @ user_actions csrf u @ [nl])]],
         nl]]"

definition create_user_html :: "string \<Rightarrow> html list" where
  "create_user_html csrf =
     [Elem ''section'' [has ''class'' ''card'', has ''id'' ''create-user'']
        [nl, Elem ''h2'' [] [lit ''Create user''], nl,
         Elem ''p'' []
           [Elem ''span'' [has ''class'' ''hint'']
              [lit ''Advanced compatibility: paste an externally generated public key, or leave empty to generate an ed25519 keypair.'']],
         nl,
         Elem ''form'' [has ''method'' ''post'', has ''action'' ''/users/create'']
           [nl, hidden csrfField csrf, nl,
            Elem ''label'' [has ''for'' ''username'']
              [lit ''Username '',
               Elem ''span'' [has ''class'' ''hint'']
                 [lit ''pattern ^[a-z_][a-z0-9_-]{0,31}$, not root/admin/sshd/sftpusers'']],
            nl,
            Void ''input''
              [has ''type'' ''text'', has ''id'' ''username'', has ''name'' ''username'', Flag ''required'',
               has ''pattern'' (''[a-z_][a-z0-9_'' @ [CHR 0x5C] @ ''-]{0,31}''), has ''maxlength'' ''32''],
            nl,
            Elem ''label'' [has ''for'' ''public_key'']
              [lit ''Public key '',
               Elem ''span'' [has ''class'' ''hint''] [lit ''leave empty to generate an ed25519 keypair'']],
            nl,
            TitleElem ''textarea''
              [has ''id'' ''public_key'', has ''name'' ''public_key'', has ''rows'' ''3'', has ''cols'' ''70''] [],
            nl, Elem ''div'' [has ''class'' ''form-actions''] [Elem ''button'' [has ''type'' ''submit''] [lit ''Create'']],
            nl],
         nl]]"

definition key_repair_html :: "usersView \<Rightarrow> html list" where
  "key_repair_html v =
     [Elem ''section'' [has ''class'' ''card'', has ''id'' ''key-repair'']
        ([nl, Elem ''h2'' [] [lit ''Key repair''], nl]
         @ (if uv_HasInvalid v
            then [Elem ''p'' [has ''class'' ''alert'', has ''role'' ''alert'']
                    [lit ''Some stored entries fail validation and block ordinary writes. Repair removes every invalid entry in the manifest at once.'']]
            else [])
         @ [nl]
         @ (if uv_Problems v \<noteq> []
            then [Elem ''ul'' [has ''class'' ''problems'']
                    (concat (map (\<lambda>x. [Elem ''li'' [] [out x]]) (uv_Problems v)))]
            else [])
         @ [nl,
            Elem ''p'' []
              [Elem ''span'' [has ''class'' ''hint'']
                 [lit ''Removes every invalid entry in the manifest, preserves all valid keys, and disables users left with zero valid keys.'']],
            nl,
            Elem ''form'' [has ''method'' ''post'', has ''action'' ''/users/remove-invalid-keys'']
              [nl, hidden csrfField (pd_CSRF v), nl,
               Elem ''button'' [has ''class'' ''secondary'', has ''type'' ''submit'']
                 [lit ''Remove all invalid keys (manifest-wide)''],
               nl],
            nl])]"

definition users_content :: "string \<Rightarrow> usersView \<Rightarrow> html list" where
  "users_content err v =
     [nl, Elem ''h1'' [] [lit ''SFTP users''], nl] @ feedback_html err v @ [nl]
     @ (if uv_Notice v \<noteq> [] then [Elem ''p'' [has ''class'' ''notice''] [out (uv_Notice v)]] else [])
     @ [nl,
        Elem ''section'' [has ''class'' ''card'', has ''id'' ''existing-users'']
          ([nl, Elem ''h2'' [] [lit ''Existing users''], nl]
           @ (if uv_Users v \<noteq> []
              then [nl,
                    Elem ''div'' [has ''class'' ''table-wrap'']
                      [nl,
                       Elem ''table'' [has ''class'' ''users-table'']
                         [nl,
                          Elem ''colgroup'' []
                            [Void ''col'' [has ''class'' ''col-username''], Void ''col'' [has ''class'' ''col-status''],
                             Void ''col'' [has ''class'' ''col-keys''], Void ''col'' [has ''class'' ''col-manage'']],
                          nl,
                          Elem ''thead'' []
                            [Elem ''tr'' []
                               [Elem ''th'' [has ''scope'' ''col''] [lit ''Username''],
                                Elem ''th'' [has ''scope'' ''col''] [lit ''Status''],
                                Elem ''th'' [has ''scope'' ''col''] [lit ''Keys''],
                                Elem ''th'' [has ''scope'' ''col''] [lit ''Manage'']]],
                          nl, Elem ''tbody'' [] ([nl] @ concat (map (user_item (pd_CSRF v)) (uv_Users v)) @ [nl]), nl],
                       nl],
                    nl]
              else [Elem ''p'' [] [lit ''No users yet.'']])
           @ [nl]),
        nl]
     @ create_user_html (pd_CSRF v) @ [nl] @ key_repair_html v @ [nl]"

section \<open>The settings page\<close>

text \<open>A map is shown in the order of its keys.\<close>

definition setting_item :: "SettingValue \<Rightarrow> html list" where
  "setting_item i =
     [nl,
      Elem ''label'' [Attr ''for'' [Lit ''setting-'', Data (sd_Key i)]]
        [out (sd_Key i), lit '' '',
         Elem ''span'' [has ''class'' ''hint''] [out (sd_Description i), lit '' ('', out (sd_AllowedValues i), lit '')'']],
      nl]
     @ (if sd_Options i \<noteq> []
        then [Elem ''select'' [Attr ''id'' [Lit ''setting-'', Data (sd_Key i)], Attr ''name'' [Data (sd_Key i)]]
                (concat
                   (map
                      (\<lambda>x.
                         [Elem ''option'' ([Attr ''value'' [Data x]] @ (if x = sd_Value i then [Flag ''selected''] else []))
                            [out x]])
                      (sd_Options i))),
              nl]
        else (if sd_IsSecret i
              then [Void ''input''
                      [has ''type'' ''password'', Attr ''id'' [Lit ''setting-'', Data (sd_Key i)],
                       Attr ''name'' [Data (sd_Key i)], has ''placeholder'' ''unchanged'',
                       has ''autocomplete'' ''new-password''],
                    nl]
              else [Void ''input''
                      [has ''type'' ''text'', Attr ''id'' [Lit ''setting-'', Data (sd_Key i)],
                       Attr ''name'' [Data (sd_Key i)], Attr ''value'' [Data (sd_Value i)]]]))
     @ [nl]"

definition setting_group :: "settingsGroup \<Rightarrow> html list" where
  "setting_group g =
     [Elem ''section'' [has ''class'' ''card'']
        ([nl, Elem ''h2'' [] [out (sg_Service g)], nl] @ concat (map setting_item (sg_Items g)) @ [nl])]"

definition settings_content :: "(setting_error \<Rightarrow> string) \<Rightarrow> settingsView \<Rightarrow> html list" where
  "settings_content etext v =
     [nl, Elem ''h1'' [] [lit ''Settings''], nl]
     @ (if sv_Notice v \<noteq> [] then [Elem ''p'' [has ''class'' ''notice''] [out (sv_Notice v)]] else []) @ [nl]
     @ (if sv_Errors v \<noteq> []
        then [Elem ''div'' [has ''class'' ''alert'', has ''role'' ''alert'']
                [Elem ''ul'' []
                   (concat
                      (map (\<lambda> (k, e) . [Elem ''li'' [] [Elem ''strong'' [] [out k], lit '': '', out (etext e)]])
                         (sort_key fst (sv_Errors v))))]]
        else [])
     @ [nl,
        Elem ''form'' [has ''method'' ''post'', has ''action'' ''/settings'']
          ([nl, hidden csrfField (pd_CSRF v), nl] @ concat (map setting_group (sv_Groups v))
           @ [nl, Elem ''button'' [has ''type'' ''submit''] [lit ''Save settings''], nl]),
        nl]"

section \<open>The links page\<close>

definition link_access :: "linkRow \<Rightarrow> html list" where
  "link_access l =
     [Elem ''td'' [has ''class'' ''link-access'', has ''data-label'' ''Access'']
        [Elem ''div'' [has ''class'' ''link-stack'']
           ([nl]
            @ (if sp_Type (lr_Scope l) = ''admin''
               then [Elem ''span''
                       [has ''class'' ''link-meta'', has ''title'' ''Scope: admin, sees all files'',
                        has ''aria-label'' ''Scope: admin, sees all files'']
                       [Elem ''svg''
                          [has ''width'' ''16'', has ''height'' ''16'', has ''viewBox'' ''0 0 16 16'',
                           has ''aria-hidden'' ''true'', has ''focusable'' ''false'']
                          [SelfClosed ''path''
                             [has ''d'' ''M2 13V3h12v10H2Zm2-2h8M4 5h8M6 7h4'', has ''fill'' ''none'',
                              has ''stroke'' ''var(--accent)'', has ''stroke-width'' ''1.5'', has ''stroke-linecap'' ''round'',
                              has ''stroke-linejoin'' ''round'']],
                        Elem ''span'' [has ''class'' ''link-meta-value''] [lit ''admin'']]]
               else [Elem ''span''
                       [has ''class'' ''link-meta'',
                        Attr ''title''
                          [Lit ''Scope: user, '', Data (sp_User (lr_Scope l)), Lit '', sees files/ + user directory''],
                        Attr ''aria-label''
                          [Lit ''Scope: user, '', Data (sp_User (lr_Scope l)), Lit '', sees files/ + user directory'']]
                       [Elem ''svg''
                          [has ''width'' ''16'', has ''height'' ''16'', has ''viewBox'' ''0 0 16 16'',
                           has ''aria-hidden'' ''true'', has ''focusable'' ''false'']
                          [SelfClosed ''path''
                             [has ''d'' ''M8 2a3 3 0 1 1 0 6 3 3 0 0 1 0-6ZM2.5 14a5.5 5.5 0 0 1 11 0M1.5 5h3M3 3.5v3'',
                              has ''fill'' ''none'', has ''stroke'' ''var(--ok)'', has ''stroke-width'' ''1.5'',
                              has ''stroke-linecap'' ''round'']],
                        Elem ''span'' [has ''class'' ''link-meta-value''] [lit ''user: '', out (sp_User (lr_Scope l))]]])
            @ [nl]
            @ (if lr_HasPassword l
               then [Elem ''span''
                       [has ''class'' ''link-meta'', has ''title'' ''Password: protected'',
                        has ''aria-label'' ''Password: protected'']
                       [Elem ''svg''
                          [has ''width'' ''16'', has ''height'' ''16'', has ''viewBox'' ''0 0 16 16'',
                           has ''aria-hidden'' ''true'', has ''focusable'' ''false'']
                          [SelfClosed ''rect''
                             [has ''x'' ''3'', has ''y'' ''7'', has ''width'' ''10'', has ''height'' ''7'', has ''rx'' ''1'',
                              has ''fill'' ''none'', has ''stroke'' ''var(--ok)'', has ''stroke-width'' ''1.5''],
                           SelfClosed ''path''
                             [has ''d'' ''M5 7V5a3 3 0 0 1 6 0v2'', has ''fill'' ''none'', has ''stroke'' ''var(--ok)'',
                              has ''stroke-width'' ''1.5'', has ''stroke-linecap'' ''round'']],
                        Elem ''span'' [has ''class'' ''link-meta-value''] [lit ''protected'']]]
               else [Elem ''span''
                       [has ''class'' ''link-meta'', has ''title'' ''Password: open'', has ''aria-label'' ''Password: open'']
                       [Elem ''svg''
                          [has ''width'' ''16'', has ''height'' ''16'', has ''viewBox'' ''0 0 16 16'',
                           has ''aria-hidden'' ''true'', has ''focusable'' ''false'']
                          [SelfClosed ''rect''
                             [has ''x'' ''3'', has ''y'' ''7'', has ''width'' ''10'', has ''height'' ''7'', has ''rx'' ''1'',
                              has ''fill'' ''none'', has ''stroke'' ''var(--nav-muted)'', has ''stroke-width'' ''1.5''],
                           SelfClosed ''path''
                             [has ''d'' ''M5 7V5a3 3 0 0 1 5.5-1.7'', has ''fill'' ''none'',
                              has ''stroke'' ''var(--nav-muted)'', has ''stroke-width'' ''1.5'',
                              has ''stroke-linecap'' ''round'']],
                        Elem ''span'' [has ''class'' ''link-meta-value''] [lit ''open'']]])
            @ [nl])]]"

definition link_validity :: "linkRow \<Rightarrow> html list" where
  "link_validity l =
     [Elem ''td'' [has ''class'' ''link-validity'', has ''data-label'' ''Validity'']
        [Elem ''div'' [has ''class'' ''link-stack'']
           ([nl,
             Elem ''time''
               [has ''class'' ''link-meta'', Attr ''datetime'' [Data (format_rfc3339 (lr_CreatedAt l))],
                Attr ''title'' [Lit ''Created: '', Data (format_minute (lr_CreatedAt l) @ '' UTC'')],
                Attr ''aria-label'' [Lit ''Created: '', Data (format_minute (lr_CreatedAt l) @ '' UTC'')]]
               [Elem ''svg''
                  [has ''width'' ''16'', has ''height'' ''16'', has ''viewBox'' ''0 0 16 16'', has ''aria-hidden'' ''true'',
                   has ''focusable'' ''false'']
                  [SelfClosed ''rect''
                     [has ''x'' ''2'', has ''y'' ''3'', has ''width'' ''12'', has ''height'' ''11'', has ''rx'' ''1'',
                      has ''fill'' ''none'', has ''stroke'' ''var(--muted)'', has ''stroke-width'' ''1.5''],
                   SelfClosed ''path''
                     [has ''d'' ''M5 2v3M11 2v3M2 6h12'', has ''fill'' ''none'', has ''stroke'' ''var(--muted)'',
                      has ''stroke-width'' ''1.5'', has ''stroke-linecap'' ''round''],
                   SelfClosed ''path''
                     [has ''d'' ''M5 9h.01M8 9h.01M11 9h.01M5 12h.01M8 12h.01'', has ''stroke'' ''var(--muted)'',
                      has ''stroke-width'' ''2'', has ''stroke-linecap'' ''round'']],
                Elem ''span'' [has ''class'' ''link-meta-label''] [lit ''Created:''],
                Elem ''span'' [has ''class'' ''link-meta-value''] [out (format_minute (lr_CreatedAt l)), lit '' UTC'']],
             nl]
            @ (case lr_ExpiresAt l of
                 Some t \<Rightarrow>
                     [Elem ''time''
                        [has ''class'' ''link-meta'', Attr ''datetime'' [Data (format_rfc3339 t)],
                         Attr ''title'' [Lit ''Expires: '', Data (format_minute t @ '' UTC'')],
                         Attr ''aria-label'' [Lit ''Expires: '', Data (format_minute t @ '' UTC'')]]
                        [Elem ''svg''
                           [has ''width'' ''16'', has ''height'' ''16'', has ''viewBox'' ''0 0 16 16'',
                            has ''aria-hidden'' ''true'', has ''focusable'' ''false'']
                           [SelfClosed ''circle''
                              [has ''cx'' ''8'', has ''cy'' ''8'', has ''r'' ''6'', has ''fill'' ''none'',
                               has ''stroke'' ''var(--muted)'', has ''stroke-width'' ''1.5''],
                            SelfClosed ''path''
                              [has ''d'' ''M8 4v4l2.5 1.5'', has ''fill'' ''none'', has ''stroke'' ''var(--muted)'',
                               has ''stroke-width'' ''1.5'', has ''stroke-linecap'' ''round'',
                               has ''stroke-linejoin'' ''round'']],
                         Elem ''span'' [has ''class'' ''link-meta-label''] [lit ''Expires:''],
                         Elem ''span'' [has ''class'' ''link-meta-value''] [out (format_minute t), lit '' UTC'']]]
                 | None \<Rightarrow>
                     [Elem ''span''
                        [has ''class'' ''link-meta'', has ''title'' ''Expires: never'', has ''aria-label'' ''Expires: never'']
                        [Elem ''svg''
                           [has ''width'' ''16'', has ''height'' ''16'', has ''viewBox'' ''0 0 16 16'',
                            has ''aria-hidden'' ''true'', has ''focusable'' ''false'']
                           [SelfClosed ''circle''
                              [has ''cx'' ''8'', has ''cy'' ''8'', has ''r'' ''6'', has ''fill'' ''none'',
                               has ''stroke'' ''var(--muted)'', has ''stroke-width'' ''1.5''],
                            SelfClosed ''path''
                              [has ''d'' ''M4 4l8 8'', has ''stroke'' ''var(--muted)'', has ''stroke-width'' ''1.5'',
                               has ''stroke-linecap'' ''round'']],
                         Elem ''span'' [has ''class'' ''link-meta-label''] [lit ''Expires:''],
                         Elem ''span'' [has ''class'' ''link-meta-value''] [lit ''never'']]])
            @ [nl])]]"

definition link_item :: "string \<Rightarrow> linkRow \<Rightarrow> html list" where
  "link_item csrf l =
     [Elem ''tr'' []
        ([nl, Elem ''td'' [has ''class'' ''link-id'', has ''data-label'' ''ID''] [Elem ''code'' [] [out (lr_ID l)]], nl,
          Elem ''td'' [has ''class'' ''link-url'', has ''data-label'' ''URL'']
            ((if lr_URL l \<noteq> []
              then [Elem ''a'' [Attr ''href'' [Url (lr_URL l)]] [out (lr_URL l)]]
              else [Elem ''span'' [has ''class'' ''hint''] [lit ''no public URL'']])
             @ (if lr_Description l \<noteq> []
                then [Elem ''span'' [has ''class'' ''link-description hint''] [out (lr_Description l)]]
                else [])),
          nl] @ link_access l @ [nl] @ link_validity l
         @ [nl,
            Elem ''td'' [has ''class'' ''link-actions'', has ''data-label'' ''Actions'']
              [nl,
               Elem ''form''
                 [has ''class'' ''inline-form'', has ''method'' ''post'', has ''action'' ''/links/delete'',
                  Attr ''data-confirm'' [Lit ''Delete link '', Data (lr_ID l), Lit ''?''], has ''onsubmit'' confirm_code]
                 [nl, hidden csrfField csrf, nl, hidden ''id'' (lr_ID l), nl,
                  Elem ''button'' [has ''class'' ''danger'', has ''type'' ''submit''] [lit ''Delete''], nl],
               nl],
            nl])]"

definition create_link_html :: "string \<Rightarrow> html list" where
  "create_link_html csrf =
     [Elem ''section'' [has ''class'' ''card'', has ''id'' ''create-link'']
        [nl, Elem ''h2'' [] [lit ''Create link''], nl,
         Elem ''p'' []
           [Elem ''span'' [has ''class'' ''hint'']
              [lit ''Special paths let users access files via hash-based URLs. Admin sees all files, users see only files/ and their own directory.'']],
         nl,
         Elem ''form'' [has ''method'' ''post'', has ''action'' ''/links/create'']
           [nl, hidden csrfField csrf, nl, Elem ''label'' [has ''for'' ''scope-type''] [lit ''Scope type''], nl,
            Elem ''select'' [has ''id'' ''scope-type'', has ''name'' ''scope_type'', Flag ''required'']
              [nl, Elem ''option'' [has ''value'' ''admin''] [lit ''Admin (see all files)''], nl,
               Elem ''option'' [has ''value'' ''user''] [lit ''User (see files/ + user directory)''], nl],
            nl,
            Elem ''label'' [has ''for'' ''scope-user'']
              [lit ''Username '', Elem ''span'' [has ''class'' ''hint''] [lit ''required when scope is user'']],
            nl,
            Void ''input''
              [has ''type'' ''text'', has ''id'' ''scope-user'', has ''name'' ''scope_user'',
               has ''pattern'' (''[a-z_][a-z0-9_'' @ [CHR 0x5C] @ ''-]{0,31}''), has ''maxlength'' ''32''],
            nl,
            Elem ''label'' [has ''for'' ''password'']
              [lit ''Password '', Elem ''span'' [has ''class'' ''hint''] [lit ''optional, leave empty for no password'']],
            nl,
            Void ''input''
              [has ''type'' ''password'', has ''id'' ''password'', has ''name'' ''password'',
               has ''autocomplete'' ''new-password''],
            nl,
            Elem ''label'' [has ''for'' ''description'']
              [lit ''Description '', Elem ''span'' [has ''class'' ''hint''] [lit ''optional'']],
            nl,
            Void ''input''
              [has ''type'' ''text'', has ''id'' ''description'', has ''name'' ''description'', has ''maxlength'' ''200''],
            nl,
            Elem ''label'' [has ''for'' ''expires'']
              [lit ''Expires '', Elem ''span'' [has ''class'' ''hint''] [lit ''optional, leave empty for no expiry'']],
            nl, Void ''input'' [has ''type'' ''datetime-local'', has ''id'' ''expires'', has ''name'' ''expires''], nl,
            Void ''input''
              [has ''type'' ''hidden'', has ''id'' ''expires-offset'', has ''name'' ''expires_offset'', has ''value'' ''0''],
            nl,
            Elem ''div'' [has ''class'' ''form-actions''] [Elem ''button'' [has ''type'' ''submit''] [lit ''Create link'']],
            nl],
         nl, RawElem ''script'' [] offset_code, nl]]"

definition links_content :: "string \<Rightarrow> linksView \<Rightarrow> html list" where
  "links_content err v =
     [nl, Elem ''h1'' [] [lit ''Share Links''], nl]
     @ (if lv_Notice v \<noteq> [] then [Elem ''p'' [has ''class'' ''notice''] [out (lv_Notice v)]] else []) @ [nl]
     @ (if err \<noteq> [] then [Elem ''p'' [has ''class'' ''alert'', has ''role'' ''alert''] [out err]] else [])
     @ [nl,
        Elem ''section'' [has ''class'' ''card'', has ''id'' ''existing-links'']
          ([nl, Elem ''h2'' [] [lit ''Existing links''], nl]
           @ (if lv_Links v \<noteq> []
              then [nl,
                    Elem ''div'' [has ''class'' ''table-wrap'']
                      [nl,
                       Elem ''table'' [has ''class'' ''links-table'']
                         [nl,
                          Elem ''colgroup'' []
                            [Void ''col'' [has ''class'' ''col-id''], Void ''col'' [has ''class'' ''col-url''],
                             Void ''col'' [has ''class'' ''col-access''], Void ''col'' [has ''class'' ''col-validity''],
                             Void ''col'' [has ''class'' ''col-actions'']],
                          nl,
                          Elem ''thead'' []
                            [Elem ''tr'' []
                               [Elem ''th'' [has ''scope'' ''col''] [lit ''ID''],
                                Elem ''th'' [has ''scope'' ''col''] [lit ''URL''],
                                Elem ''th'' [has ''scope'' ''col''] [lit ''Access''],
                                Elem ''th'' [has ''scope'' ''col''] [lit ''Validity''],
                                Elem ''th'' [has ''scope'' ''col''] [lit ''Actions'']]],
                          nl, Elem ''tbody'' [] ([nl] @ concat (map (link_item (pd_CSRF v)) (lv_Links v)) @ [nl]), nl],
                       nl],
                    nl]
              else [Elem ''p'' [] [lit ''No links yet.'']])
           @ [nl]),
        nl]
     @ create_link_html (pd_CSRF v) @ [nl]"

section \<open>Response bodies\<close>

definition login_view :: pageData where
  "login_view = \<lparr>pd_Title = ''SFTP admin login'', pd_ShowNav = False, pd_Active = [], pd_CSRF = []\<rparr>"

definition login_html :: "string \<Rightarrow> html list" where
  "login_html err = page_shell login_view (login_content err)"

definition users_html :: "lib_texts \<Rightarrow> usersView \<Rightarrow> html list" where
  "users_html T v = page_shell v (users_content (error_text T (uv_Error v)) v)"

definition settings_html :: "lib_texts \<Rightarrow> settingsView \<Rightarrow> html list" where
  "settings_html T v = page_shell v (settings_content (setting_text T) v)"

definition links_html :: "lib_texts \<Rightarrow> linksView \<Rightarrow> html list" where
  "links_html T v = page_shell v (links_content (error_text T (lv_Error v)) v)"

fun page_of :: "lib_texts \<Rightarrow> abody \<Rightarrow> html list option" where
  "page_of T (ALoginPage err) = Some (login_html err)"
| "page_of T (AUsersPage v) = Some (users_html T v)"
| "page_of T (ASettingsPage v) = Some (settings_html T v)"
| "page_of T (ALinksPage v) = Some (links_html T v)"
| "page_of T _ = None"

end
