(* ===== verification/Link_Pages.thy ===== *)
theory Link_Pages
  imports Server_Pkg Html_Views
begin

text \<open>
  The two templates of \<open>internal/server/links.go\<close> as document trees: the listing of a link and its
  password form.
\<close>

record linkPageData =
  pg_Description :: string
  pg_Entries :: "linkEntry list"

definition link_list_html :: "linkPageData \<Rightarrow> html list" where
  "link_list_html d =
     [nl,
      Elem ''html'' [has ''lang'' ''en'']
        [nl, Elem ''head'' [] [Void ''meta'' [has ''charset'' ''utf-8''], TitleElem ''title'' [] [Lit ''Shared files'']], nl,
         Elem ''body'' []
           ([nl, Elem ''h1'' [] [lit ''Shared files''], nl]
            @ (if pg_Description d \<noteq> [] then [Elem ''p'' [] [out (pg_Description d)]] else []) @ [nl]
            @ (if pg_Entries d \<noteq> []
               then [nl,
                     Elem ''ul'' []
                       ([nl]
                        @ concat
                            (map
                               (\<lambda>e.
                                  [Elem ''li'' []
                                     [out (le_LogicalPath e), lit '' ('', out (FormatInt (le_Size e)), lit '' bytes)'',
                                      Void ''br'' [], Elem ''a'' [Attr ''href'' [Url (le_URL e)]] [out (le_URL e)]],
                                   nl])
                               (pg_Entries d))),
                     nl]
               else [nl, Elem ''p'' [] [lit ''No files available.''], nl])
            @ [nl]),
         nl]]"

definition link_password_html :: "string \<Rightarrow> html list" where
  "link_password_html ident =
     [nl,
      Elem ''html'' [has ''lang'' ''en'']
        [nl, Elem ''head'' [] [Void ''meta'' [has ''charset'' ''utf-8''], TitleElem ''title'' [] [Lit ''Password required'']],
         nl,
         Elem ''body'' []
           [nl, Elem ''h1'' [] [lit ''Password required''], nl,
            Elem ''form'' [has ''method'' ''post'', Attr ''action'' [Lit ''/l/'', UrlPath ident, Lit ''/auth'']]
              [nl,
               Void ''input''
                 [has ''type'' ''password'', has ''name'' ''password'', has ''autocomplete'' ''current-password''],
               nl, Elem ''button'' [has ''type'' ''submit''] [lit ''Show files''], nl],
            nl],
         nl]]"

fun link_page_of :: "body \<Rightarrow> html list option" where
  "link_page_of (ListPage descr entries) = Some (link_list_html \<lparr>pg_Description = descr, pg_Entries = entries\<rparr>)"
| "link_page_of (PasswordPage ident) = Some (link_password_html ident)"
| "link_page_of _ = None"

end
