(* ===== verification/Page_Props.thy ===== *)
theory Page_Props
  imports Admin_Pages Link_Pages
begin

text \<open>
  The pages of the admin service are well-formed whatever their data are: they are read back as the trees
  they come from, run no code but the two fixed pieces of the templates and lead to no address with a
  scheme for code. The forms of the users page address the users and keys they stand beside.
\<close>

section \<open>The pages of the admin service\<close>

lemma nav_ok: "page_ok (nav_html p)"
  by (simp add: nav_html_def page_checks csrfField_def)

lemma login_content_ok: "page_ok (login_content err)"
  by (simp add: login_content_def page_checks)

lemma feedback_ok: "page_ok (feedback_html err v)"
  by (simp add: feedback_html_def page_checks split: option.split)

lemma status_badge_ok: "page_ok (status_badge u)"
  by (simp add: status_badge_def page_checks)

lemma key_summary_ok: "page_ok (key_summary u)"
  by (simp add: key_summary_def page_checks)

lemma key_item_ok: "page_ok (key_item csrf u k)"
  by (simp add: key_item_def page_checks csrfField_def)

lemma key_list_ok: "page_ok (key_list csrf u)"
  using page_ok_list_all [OF page_ok_concat [of "ur_Keys u" "key_item csrf u"]]
  by (simp add: key_list_def page_checks key_item_ok)

lemma user_actions_ok: "page_ok (user_actions csrf u)"
  by (simp add: user_actions_def page_checks csrfField_def)

lemmas row_pieces = status_badge_ok key_summary_ok key_list_ok user_actions_ok

lemma user_item_ok: "page_ok (user_item csrf u)"
  using row_pieces [THEN page_ok_list_all(1)] row_pieces [THEN page_ok_list_all(2)]
  by (simp add: user_item_def page_checks)

lemma create_user_ok: "page_ok (create_user_html csrf)"
  by (simp add: create_user_html_def page_checks csrfField_def)

lemma key_repair_ok: "page_ok (key_repair_html v)"
  using page_ok_list_all [OF page_ok_concat [of "uv_Problems v" "\<lambda>x. [Elem ''li'' [] [out x]]"]]
  by (simp add: key_repair_html_def page_checks csrfField_def)

lemma users_content_ok: "page_ok (users_content err v)"
  using page_ok_list_all [OF page_ok_concat [of "uv_Users v" "user_item (pd_CSRF v)"]]
  by (simp add: users_content_def page_checks user_item_ok feedback_ok create_user_ok key_repair_ok)

lemma setting_item_ok: "page_ok (setting_item i)"
  using page_ok_list_all [OF page_ok_concat [of "sd_Options i" "\<lambda>x. [Elem ''option'' ([Attr ''value'' [Data x]] @ (if x = sd_Value i then [Flag ''selected''] else [])) [out x]]"]]
  by (simp add: setting_item_def page_checks)

lemma setting_group_ok: "page_ok (setting_group g)"
  using page_ok_list_all [OF page_ok_concat [of "sg_Items g" setting_item]]
  by (simp add: setting_group_def page_checks setting_item_ok)

lemma settings_content_ok: "page_ok (settings_content etext v)"
  using page_ok_list_all [OF page_ok_concat [of "sv_Groups v" setting_group]]
    page_ok_list_all [OF page_ok_concat [of "sort_key fst (sv_Errors v)"
      "\<lambda>(k, e). [Elem ''li'' [] [Elem ''strong'' [] [out k], lit '': '', out (etext e)]]"]]
  by (simp add: settings_content_def page_checks setting_group_ok csrfField_def case_prod_unfold)

lemma link_access_ok: "page_ok (link_access l)"
  by (simp add: link_access_def page_checks)

lemma link_validity_ok: "page_ok (link_validity l)"
  by (simp add: link_validity_def page_checks split: option.split)

lemma link_item_ok: "page_ok (link_item csrf l)"
  using link_access_ok [THEN page_ok_list_all(1)] link_access_ok [THEN page_ok_list_all(2)]
    link_validity_ok [THEN page_ok_list_all(1)] link_validity_ok [THEN page_ok_list_all(2)]
  by (simp add: link_item_def page_checks csrfField_def)

lemma create_link_ok: "page_ok (create_link_html csrf)"
  by (simp add: create_link_html_def page_checks csrfField_def fixed_code_def)

lemma links_content_ok: "page_ok (links_content err v)"
  using page_ok_list_all [OF page_ok_concat [of "lv_Links v" "link_item (pd_CSRF v)"]]
  by (simp add: links_content_def page_checks link_item_ok create_link_ok)

lemma style_text_ok: "list_all (\<lambda>c. c \<noteq> CHR ''<'') style_text"
proof -
  have "list_all (list_all (\<lambda>c. c \<noteq> CHR ''<'')) style_lines" by (simp add: style_lines_def)
  then show ?thesis by (auto simp: style_text_def list_all_iff)
qed

lemma page_shell_ok: "page_ok content \<Longrightarrow> page_ok (page_shell p content)"
  using page_ok_list_all [of content] page_ok_list_all [OF nav_ok [of p]]
  by (simp add: page_shell_def page_checks style_text_ok)

lemma page_of_ok: "page_of T b = Some hs \<Longrightarrow> page_ok hs"
  by (cases b) (auto simp: login_html_def users_html_def settings_html_def links_html_def
    intro!: page_shell_ok login_content_ok users_content_ok settings_content_ok links_content_ok)

section \<open>The pages of links\<close>

lemma link_list_ok: "page_ok (link_list_html d)"
  using page_ok_list_all [OF page_ok_concat [of "pg_Entries d" "\<lambda>e. [Elem ''li'' []
      [out (le_LogicalPath e), lit '' ('', out (FormatInt (le_Size e)), lit '' bytes)'',
       Void ''br'' [], Elem ''a'' [Attr ''href'' [Url (le_URL e)]] [out (le_URL e)]], nl]"]]
  by (simp add: link_list_html_def page_checks)

lemma link_password_ok: "page_ok (link_password_html ident)"
  by (simp add: link_password_html_def page_checks)

lemma link_page_of_ok: "link_page_of b = Some hs \<Longrightarrow> page_ok hs"
  by (cases b) (auto simp: link_list_ok link_password_ok)

section \<open>No data become markup\<close>

lemma page_read:
  assumes "page_of T a = Some hs \<or> link_page_of b = Some hs"
  shows "read_html (show_page hs) = Some (TDoctype ''DOCTYPE html'' # all_tokens hs)"
    "harmless_tokens (TDoctype ''DOCTYPE html'' # all_tokens hs)"
  using assms page_of_ok link_page_of_ok
  by (metis page_ok_list_all read_show_all, metis page_ok_list_all harmless_page)

text \<open>
  C22: Every page of the two services, whatever names, notes, descriptions, file names and messages
  it shows, is read back from its bytes as the document tree of its template: no byte of the data opens or closes an
  element or an attribute, and each text and each attribute value is the data that were put there.
\<close>

theorem pages_read_back:
  assumes "page_of T a = Some hs \<or> link_page_of b = Some hs"
  shows "read_html (show_page hs) = Some (TDoctype ''DOCTYPE html'' # all_tokens hs)"
  using assms by (rule page_read)

theorem pages_read_back_witness:
  "read_html (show_page (link_list_html \<lparr>pg_Description = ''<script>alert(1)</script>'', pg_Entries = []\<rparr>))
     = Some (TDoctype ''DOCTYPE html'' #
        all_tokens (link_list_html \<lparr>pg_Description = ''<script>alert(1)</script>'', pg_Entries = []\<rparr>))"
  by (rule pages_read_back [where b = "ListPage ''<script>alert(1)</script>'' []"]) simp

text \<open>
  C5: No page of the two services can be made to run code or to lead to it: for all data, the
  scripts and event handlers that a reader finds in its bytes are the two fixed ones of the
  templates, and every address in it is printable and relative or has the scheme http, https or mailto.
\<close>

theorem pages_harmless:
  assumes "page_of T a = Some hs \<or> link_page_of b = Some hs"
  shows "\<exists>ts. read_html (show_page hs) = Some ts \<and> set (page_code ts) \<subseteq> {confirm_code, offset_code}
    \<and> (\<forall>u. u \<in> set (page_urls ts) \<longrightarrow> harmless_url u)"
  using page_read [OF assms] by (simp add: harmless_tokens_def fixed_code_def list_all_iff)

definition evil_row :: linkRow where
  "evil_row = \<lparr>lr_ID = ''x'', lr_URL = ''javascript:alert(1)'', lr_Scope = \<lparr>sp_Type = ''user'', sp_User = ''<b>''\<rparr>,
     lr_HasPassword = False, lr_CreatedAt = 0, lr_ExpiresAt = None, lr_Description = ''<script>alert(1)</script>''\<rparr>"

definition evil_view :: linksView where
  "evil_view = \<lparr>pd_Title = ''Share Links'', pd_ShowNav = True, pd_Active = ''links'', pd_CSRF = ''t'',
     lv_Links = [evil_row], lv_Notice = [], lv_Error = None\<rparr>"

theorem pages_harmless_witness:
  "\<exists>ts. read_html (show_page (links_html \<lparr>lt_quote = id, lt_io = (\<lambda>_. []), lt_detail = []\<rparr> evil_view)) = Some ts
     \<and> set (page_code ts) \<subseteq> {confirm_code, offset_code} \<and> (\<forall>u. u \<in> set (page_urls ts) \<longrightarrow> harmless_url u)"
  by (rule pages_harmless [where a = "ALinksPage evil_view" and T = "\<lparr>lt_quote = id, lt_io = (\<lambda>_. []), lt_detail = []\<rparr>" and b = NoBody]) simp

end
