(* ===== verification/Page_Forms.thy ===== *)
theory Page_Forms
  imports Page_Props Admin_Props
begin

text \<open>
  The forms of the admin pages as a browser reads them from the bytes, and what sending them back does: the
  buttons of the users page act on the user and the key they stand beside, and the settings form
  sent back as it came changes nothing.
\<close>

section \<open>Sending a form\<close>

text \<open>The request a browser makes of a form: the cookies are those of the request that got the page.\<close>

definition submit :: "form \<Rightarrow> AdminRequest \<Rightarrow> AdminRequest" where
  "submit f r = r\<lparr>aq_method := (if fm_method f = ''post'' then ''POST'' else ''GET''), aq_path := fm_action f,
     aq_form := map_of (fm_fields f), aq_query := Map.empty, aq_bad_form := False\<rparr>"

lemmas form_defs = tag_attr_def attr_of_def parts_value_def

lemma has_attr_simps [simp]:
  "\<not> has_attr [] n" "has_attr (a # as) n \<longleftrightarrow> fst (attr_token a) = n \<or> has_attr as n"
  "has_attr (as @ bs) n \<longleftrightarrow> has_attr as n \<or> has_attr bs n"
  by (auto simp: has_attr_def)

lemma has_attr_if [simp]: "has_attr (if b then as else []) n \<longleftrightarrow> b \<and> has_attr as n"
  by simp

section \<open>The forms of the users page\<close>

definition post_form :: "string \<Rightarrow> (string \<times> string) list \<Rightarrow> form" where
  "post_form action fs = \<lparr>fm_method = ''post'', fm_action = action, fm_fields = fs\<rparr>"

definition key_forms :: "string \<Rightarrow> string \<Rightarrow> keyView \<Rightarrow> form list" where
  "key_forms csrf name k =
     (let who = [(csrfField, nul_replaced csrf), (''username'', nul_replaced name), (''fingerprint'', nul_replaced (kv_Fingerprint k))]
      in if kv_Valid k
         then [post_form ''/users/key-note'' (who @ [(''note'', nul_replaced (kv_Note k))]), post_form ''/users/delete-key'' who]
         else [])"

definition action_forms :: "string \<Rightarrow> userRow \<Rightarrow> form list" where
  "action_forms csrf u =
     (let who = [(csrfField, nul_replaced csrf), (''username'', nul_replaced (ur_Username u))]
      in [post_form ''/users/generate-key'' who,
          post_form ''/users/status'' (who @ [(''action'', if ur_Enabled u then ''disable'' else ''enable'')])]
         @ (if ur_Enabled u then [] else [post_form ''/users/delete'' who]))"

definition user_forms :: "string \<Rightarrow> userRow \<Rightarrow> form list" where
  "user_forms csrf u = concat (map (key_forms csrf (ur_Username u)) (ur_Keys u)) @ action_forms csrf u"

lemma all_forms_simps [simp]:
  "all_forms [] = []" "all_forms (h # hs) = tree_forms h @ all_forms hs" "all_forms (xs @ ys) = all_forms xs @ all_forms ys"
  by (simp_all add: all_forms_def)

lemma all_fields_simps [simp]:
  "all_fields [] = []" "all_fields (h # hs) = tree_fields h @ all_fields hs" "all_fields (xs @ ys) = all_fields xs @ all_fields ys"
  by (simp_all add: all_fields_def)

lemma all_forms_concat: "all_forms (concat (map f xs)) = concat (map (\<lambda>x. all_forms (f x)) xs)"
  by (induction xs) simp_all

lemma all_forms_map: "all_forms (map f xs) = concat (map (\<lambda>x. tree_forms (f x)) xs)"
  by (simp add: all_forms_def comp_def)

lemma all_fields_concat: "all_fields (concat (map f xs)) = concat (map (\<lambda>x. all_fields (f x)) xs)"
  by (induction xs) simp_all

lemma tree_forms_elem [simp]: "n \<noteq> ''form'' \<Longrightarrow> tree_forms (Elem n as hs) = all_forms hs"
  by (simp add: all_forms_def)

declare tree_forms.simps(1) [simp del]

lemma tree_forms_form [simp]:
  "tree_forms (Elem ''form'' as hs)
     = [\<lparr>fm_method = tag_attr as ''method'', fm_action = tag_attr as ''action'', fm_fields = all_fields hs\<rparr>]"
  by (simp add: tree_forms.simps(1))

lemma tree_fields_elem [simp]: "n \<noteq> ''select'' \<Longrightarrow> tree_fields (Elem n as hs) = all_fields hs"
  by (simp add: all_fields_def)

declare tree_fields.simps(1) [simp del]

lemma nav_forms:
  "all_forms (nav_html p) = (if pd_ShowNav p then [post_form ''/logout'' [(csrfField, nul_replaced (pd_CSRF p))]] else [])"
  by (simp add: nav_html_def form_defs post_form_def)

lemma key_item_forms: "all_forms (key_item csrf u k) = key_forms csrf (ur_Username u) k"
  by (simp add: key_item_def key_forms_def form_defs post_form_def Let_def)

lemma user_actions_forms: "all_forms (user_actions csrf u) = action_forms csrf u"
  by (simp add: user_actions_def action_forms_def form_defs post_form_def Let_def)

lemma status_summary_forms: "all_forms (status_badge u) = []" "all_forms (key_summary u) = []"
  by (simp_all add: status_badge_def key_summary_def)

lemma key_list_forms: "all_forms (key_list csrf u) = concat (map (key_forms csrf (ur_Username u)) (ur_Keys u))"
  by (simp add: key_list_def all_forms_concat key_item_forms)

lemma user_item_forms: "all_forms (user_item csrf u) = user_forms csrf u"
  by (simp add: user_item_def user_forms_def status_summary_forms key_list_forms user_actions_forms)

lemma feedback_forms: "all_forms (feedback_html err v) = []"
  by (simp add: feedback_html_def split: option.split)

lemma create_user_forms: "all_forms (create_user_html csrf)
    = [post_form ''/users/create'' [(csrfField, nul_replaced csrf), (''username'', []), (''public_key'', [])]]"
  by (simp add: create_user_html_def form_defs post_form_def)

lemma key_repair_forms: "all_forms (key_repair_html v)
    = [post_form ''/users/remove-invalid-keys'' [(csrfField, nul_replaced (pd_CSRF v))]]"
  by (simp add: key_repair_html_def form_defs post_form_def all_forms_concat all_forms_map)

lemma users_content_forms: "all_forms (users_content err v) = concat (map (user_forms (pd_CSRF v)) (uv_Users v))
    @ [post_form ''/users/create'' [(csrfField, nul_replaced (pd_CSRF v)), (''username'', []), (''public_key'', [])],
       post_form ''/users/remove-invalid-keys'' [(csrfField, nul_replaced (pd_CSRF v))]]"
  by (simp add: users_content_def all_forms_concat user_item_forms feedback_forms create_user_forms key_repair_forms)

section \<open>Where forms stand\<close>

lemma placed_concat: "(\<And>x. x \<in> set xs \<Longrightarrow> list_all P (f x)) \<Longrightarrow> list_all P (concat (map f xs))"
  by (induction xs) simp_all

lemma user_pieces_placed:
  "list_all out_form_ok (status_badge u)" "list_all out_form_ok (key_summary u)" "list_all out_form_ok (key_item csrf u k)"
  "list_all out_form_ok (user_actions csrf u)" "list_all out_form_ok (nav_html p)" "list_all out_form_ok (feedback_html err v)"
  "list_all out_form_ok (create_user_html csrf)"
  by (simp_all add: status_badge_def key_summary_def key_item_def user_actions_def nav_html_def feedback_html_def create_user_html_def
      split: option.split)

lemma user_item_placed: "list_all out_form_ok (user_item csrf u)"
  by (simp add: user_item_def key_list_def user_pieces_placed placed_concat)

lemma users_content_placed: "list_all out_form_ok (users_content err v)"
  by (simp add: users_content_def key_repair_html_def user_pieces_placed placed_concat user_item_placed list.pred_map comp_def list.pred_True)

lemma page_shell_placed: "list_all out_form_ok content \<Longrightarrow> list_all out_form_ok (page_shell p content)"
  by (simp add: page_shell_def user_pieces_placed)

lemma page_shell_forms: "all_forms (page_shell p content) = all_forms (nav_html p) @ all_forms content"
  by (simp add: page_shell_def)

text \<open>What a reader of the bytes of a page finds.\<close>

lemma page_of_forms:
  assumes "page_of T b = Some (page_shell p content)" "list_all out_form_ok content"
  obtains ts where "read_html (show_page (page_shell p content)) = Some ts" "page_forms ts = all_forms (nav_html p) @ all_forms content"
proof (rule that)
  show "read_html (show_page (page_shell p content)) = Some (TDoctype ''DOCTYPE html'' # all_tokens (page_shell p content))"
    using assms(1) by (intro page_read(1) disjI1)
  show "page_forms (TDoctype ''DOCTYPE html'' # all_tokens (page_shell p content)) = all_forms (nav_html p) @ all_forms content"
    using page_forms_tree [OF page_shell_placed [OF assms(2)]] by (simp add: page_shell_forms)
qed

section \<open>The settings page\<close>

definition item_field :: "SettingValue \<Rightarrow> (string \<times> string) list" where
  "item_field i =
     (if sd_Options i \<noteq> [] then selected_field (nul_replaced (sd_Key i)) (map (\<lambda>x. (nul_replaced x, x = sd_Value i)) (sd_Options i))
      else [(nul_replaced (sd_Key i), if sd_IsSecret i then [] else nul_replaced (sd_Value i))])"

lemma setting_item_fields: "all_fields (setting_item i) = item_field i"
  by (simp add: setting_item_def item_field_def tree_fields.simps(1) form_defs map_concat comp_def)

lemma setting_item_placed: "list_all in_form_ok (setting_item i)"
  by (simp add: setting_item_def list.pred_map comp_def list.pred_True)

lemma setting_group_placed: "list_all in_form_ok (setting_group g)"
  by (simp add: setting_group_def placed_concat setting_item_placed)

lemma settings_placed: "list_all out_form_ok (settings_content etext v)"
  by (simp add: settings_content_def placed_concat setting_group_placed list.pred_map comp_def list.pred_True case_prod_unfold)

lemma settings_content_forms:
  "all_forms (settings_content etext v) = [post_form ''/settings'' ((csrfField, nul_replaced (pd_CSRF v))
     # concat (map (\<lambda>g. concat (map item_field (sg_Items g))) (sv_Groups v)))]"
  by (simp add: settings_content_def setting_group_def all_fields_concat setting_item_fields post_form_def form_defs
      all_forms_map case_prod_unfold)

lemma settings_fields:
  assumes "LoadShared io fs (sharedConfigPath s) = Inr c"
  obtains groups where "settingsGroups io fs s = Inr groups"
    "concat (map (\<lambda>g. concat (map item_field (sg_Items g))) groups)
      = [(''HASH_ALGORITHM'', sc_HashAlgorithm c), (''HASH_TARGET'', sc_HashTarget c), (''PUBLIC_URL'', nul_replaced (sc_PublicURL c)),
         (''ADMIN_TOKEN'', []), (''SFTP_ADMIN_PASSWORD'', [])]"
proof -
  have v: "sc_HashTarget c = ''file'' \<or> sc_HashTarget c = ''filename''" "sc_HashAlgorithm c = ''md5'' \<or> sc_HashAlgorithm c = ''sha256''"
    using LoadShared_valid [OF assms] by (auto simp: shared_Validate_def split: if_splits)
  obtain vs where vs: "setting_values SettingsRegistry c = Inr vs" using setting_values_total by blast
  have "concat (map (\<lambda>g. concat (map item_field (sg_Items g))) (fold add_setting vs []))
      = [(''HASH_ALGORITHM'', sc_HashAlgorithm c), (''HASH_TARGET'', sc_HashTarget c), (''PUBLIC_URL'', nul_replaced (sc_PublicURL c)),
         (''ADMIN_TOKEN'', []), (''SFTP_ADMIN_PASSWORD'', [])]"
    using vs v by (auto simp: SettingsRegistry_def valueOf_def bind_res_def SettingDef.defs item_field_def selected_field_def
        note_option_def nul_replaced_def)
  then show thesis using that assms vs by (simp add: settingsGroups_def GetSettings_def bind_res_def map_err_def)
qed

text \<open>
  C14: The settings page sent back as it came changes nothing: the form that a browser reads from the bytes
  of the page passes the check of its token, and what is then saved is the configuration that
  the page was made from, the secrets included, which the page never shows.
\<close>

theorem settings_page_resubmit:
  assumes "presented w r s = Some sess" "aq_method r = ''GET''" "aq_path r = ''/settings''"
    and "LoadShared (aw_io w 0) (aw_files w) (sharedConfigPath s) = Inr c"
    and "CHR 0x00 \<notin> set (se_csrf sess)" "CHR 0x00 \<notin> set (sc_PublicURL c)" "TrimSpace (sc_PublicURL c) = sc_PublicURL c"
  shows "\<exists>v ts f. admin_ServeHTTP w r s = (s, [aw_files w], areply 200 (ASettingsPage v))
    \<and> read_html (show_page (settings_html T v)) = Some ts \<and> f \<in> set (page_forms ts) \<and> fm_action f = ''/settings''
    \<and> (\<forall>w2. presented w2 (submit f r) s = Some sess \<longrightarrow> LoadShared (aw_io w2 0) (aw_files w2) (sharedConfigPath s) = Inr c \<longrightarrow>
         fst (snd (admin_ServeHTTP w2 (submit f r) s)) = fst (shared_Save (aw_io w2 0) (sharedConfigPath s) c (aw_files w2)))"
proof -
  obtain groups where g: "settingsGroups (aw_io w 0) (aw_files w) s = Inr groups"
    "concat (map (\<lambda>g. concat (map item_field (sg_Items g))) groups)
      = [(''HASH_ALGORITHM'', sc_HashAlgorithm c), (''HASH_TARGET'', sc_HashTarget c), (''PUBLIC_URL'', nul_replaced (sc_PublicURL c)),
         (''ADMIN_TOKEN'', []), (''SFTP_ADMIN_PASSWORD'', [])]"
    by (rule settings_fields [OF assms(4)])
  let ?v = "(settings_view (se_csrf sess) groups)\<lparr>pd_Title := ''Settings'', pd_ShowNav := True, pd_Active := ''settings''\<rparr>"
  let ?f = "post_form ''/settings'' [(csrfField, se_csrf sess), (''HASH_ALGORITHM'', sc_HashAlgorithm c), (''HASH_TARGET'', sc_HashTarget c),
    (''PUBLIC_URL'', sc_PublicURL c), (''ADMIN_TOKEN'', []), (''SFTP_ADMIN_PASSWORD'', [])]"
  have page: "admin_ServeHTTP w r s = (s, [aw_files w], areply 200 (ASettingsPage ?v))"
    using with_auth_granted [OF assms(1)] assms(2,3) g(1)
    by (simp add: admin_ServeHTTP_def admin_route_def get_routes_def handleSettings_def may_act_def renderSettings_def)
  obtain ts where ts: "read_html (show_page (settings_html T ?v)) = Some ts"
    "page_forms ts = all_forms (nav_html ?v) @ all_forms (settings_content (setting_text T) ?v)"
    using page_of_forms [of T "ASettingsPage ?v" ?v "settings_content (setting_text T) ?v"] settings_placed
    by (auto simp: settings_html_def)
  have f: "?f \<in> set (page_forms ts)"
    using assms(5,6) g(2) by (simp add: ts(2) settings_content_forms settings_view_def nul_replaced_id)
  have "fst (snd (admin_ServeHTTP w2 (submit ?f r) s)) = fst (shared_Save (aw_io w2 0) (sharedConfigPath s) c (aw_files w2))"
    if p: "presented w2 (submit ?f r) s = Some sess" and l: "LoadShared (aw_io w2 0) (aw_files w2) (sharedConfigPath s) = Inr c" for w2
  proof -
    let ?r = "submit ?f r"
    have m: "may_act ?r sess" "aq_method ?r = ''POST''" "aq_path ?r = ''/settings''"
      by (simp_all add: may_act_def checkCSRF_def FormValue_def submit_def post_form_def)
    then have form: "settings_form w2 ?r s c" using p l by (simp add: settings_form_def submit_def)
    have v: "sc_HashTarget c = ''file'' \<or> sc_HashTarget c = ''filename''" "sc_HashAlgorithm c = ''md5'' \<or> sc_HashAlgorithm c = ''sha256''"
      "sc_PublicURL c \<noteq> []"
      using LoadShared_valid [OF assms(4)] by (auto simp: shared_Validate_def split: if_splits)
    have trim: "TrimSpace ''md5'' = ''md5''" "TrimSpace ''sha256'' = ''sha256''" "TrimSpace ''file'' = ''file''"
      "TrimSpace ''filename'' = ''filename''" "TrimSpace [] = []"
      by code_simp+
    have vals: "map_of (form_values ?r) = [''HASH_ALGORITHM'' \<mapsto> sc_HashAlgorithm c, ''HASH_TARGET'' \<mapsto> sc_HashTarget c,
        ''PUBLIC_URL'' \<mapsto> sc_PublicURL c, ''ADMIN_TOKEN'' \<mapsto> [], ''SFTP_ADMIN_PASSWORD'' \<mapsto> []]"
      using v(1,2) assms(7) by (auto simp: form_values_def SettingsRegistry_def submit_def post_form_def csrfField_def trim fun_eq_iff)
    have same: "new_config (map_of (form_values ?r)) c = c"
      unfolding vals by (simp add: new_config_def new_value_def trim(5))
    have none: "new_errors (map_of (form_values ?r)) k = None" for k
      unfolding vals using v trim by (auto simp: new_errors_def field_error_def)
    have "admin_ServeHTTP w2 ?r s = handleSettingsSave w2 ?r s"
      using m(2,3) by (simp add: admin_ServeHTTP_def admin_route_def get_routes_def post_routes_def)
    moreover from form have "fst (snd (handleSettingsSave w2 ?r s)) = fst (shared_Save (aw_io w2 0) (sharedConfigPath s) c (aw_files w2))"
    proof (cases rule: handleSettingsSave_form)
      case refused
      then show ?thesis using none by simp
    next
      case saved
      then show ?thesis by (simp add: same)
    qed
    ultimately show ?thesis by simp
  qed
  then show ?thesis using page ts(1) f by (intro exI [of _ ?v] exI [of _ ts] exI [of _ ?f]) (simp add: post_form_def)
qed

section \<open>The buttons of the users page\<close>

text \<open>
  What the buttons of the page stand for: signing out; for each valid key of a user to set its note and to remove it; for each user
  to generate a key, to switch, and to remove a disabled user; and below the table to create a user and to remove all invalid
  keys. (No form of the page adds a pasted key to a user: \<open>/users/add-key\<close> is there for scripts.)
\<close>

datatype button =
    LogOut
  | NoteKey string string
  | DropKey string string
  | Generate string
  | Switch string bool
  | DropUser string
  | NewUser
  | Repair

definition key_buttons :: "string \<Rightarrow> string \<Rightarrow> button list" where
  "key_buttons name k = (case FingerprintOf k of Inl _ \<Rightarrow> [] | Inr fp \<Rightarrow> [NoteKey name fp, DropKey name fp])"

definition row_buttons :: "User \<Rightarrow> button list" where
  "row_buttons u = concat (map (key_buttons (us_Username u)) (us_Keys u))
     @ [Generate (us_Username u), Switch (us_Username u) (\<not> us_Enabled u)]
     @ (if us_Enabled u then [] else [DropUser (us_Username u)])"

definition page_buttons :: "Manifest \<Rightarrow> button list" where
  "page_buttons m = [LogOut] @ concat (map row_buttons (mf_Users m)) @ [NewUser, Repair]"

text \<open>The fields of a form that are there to be filled in, and a form with what was typed into them.\<close>

fun entries :: "button \<Rightarrow> string list" where
  "entries (NoteKey name fp) = [''note'']"
| "entries NewUser = [''username'', ''public_key'']"
| "entries _ = []"

definition fill :: "(string \<Rightarrow> string) \<Rightarrow> string list \<Rightarrow> form \<Rightarrow> form" where
  "fill typed names f = f\<lparr>fm_fields := map (\<lambda>(n, v). (n, if n \<in> set names then typed n else v)) (fm_fields f)\<rparr>"

text \<open>The page after a generated key, whose private half waits under the token.\<close>

definition generated :: "AdminWorld \<Rightarrow> session \<Rightarrow> AdminServer \<Rightarrow> string \<Rightarrow> string \<Rightarrow> string \<Rightarrow> string \<Rightarrow> cfs list \<Rightarrow> ahandled" where
  "generated w sess s token name private pub tr =
     (let s' = s\<lparr>as_pending := (as_pending s)(token \<mapsto>
            \<lparr>pk_username = name, pk_private = private, pk_expires = aw_now w + pendingKeyTTL\<rparr>)\<rparr>;
          fp = (case FingerprintOf pub of Inl _ \<Rightarrow> [] | Inr fp \<Rightarrow> fp)
      in (s', tr, dashboardWithGenerated (aw_io w 1) (last tr) s' (se_csrf sess) name token fp))"

text \<open>
  What a button does when the manifest it finds allows it and the files can be written: the new state of the server,
  the states of the files and the answer, all three exactly. A command changes the manifest by \<open>run_cmd\<close>; only removing a key or
  a user goes on to remove the notes that are left over.
\<close>

fun outcome :: "AdminWorld \<Rightarrow> AdminRequest \<Rightarrow> session \<Rightarrow> (string \<Rightarrow> string) \<Rightarrow> AdminServer \<Rightarrow> button \<Rightarrow> ahandled \<Rightarrow> bool" where
  "outcome w r sess typed s LogOut res \<longleftrightarrow> (\<forall>c. aq_cookie r sessionCookieName = Some c \<longrightarrow>
     res = (s\<lparr>as_auth := destroy c (as_auth s)\<rparr>, [aw_files w], (see_other ''/login'')\<lparr>ar_cookie := Some clearSessionCookie\<rparr>))"
| "outcome w r sess typed s (NoteKey name fp) res \<longleftrightarrow> (\<forall>tr. RuneCountInString (TrimSpace (typed ''note'')) \<le> MaxKeyNoteLength \<longrightarrow>
     known_key (aw_io w 0) (aw_files w) s name fp = Inr () \<longrightarrow>
     SetNote (aw_io w 0) (as_store s) name fp (TrimSpace (typed ''note'')) (aw_files w) = (tr, None) \<longrightarrow>
     res = (s, tr, see_other ''/''))"
| "outcome w r sess typed s (DropKey name fp) res \<longleftrightarrow> (\<forall>tr. known_key (aw_io w 0) (aw_files w) s name fp = Inr () \<longrightarrow>
     manifest_Update (aw_io w 0) (as_store s) (run_cmd (RemoveKey name fp)) (aw_files w) = (tr, None) \<longrightarrow>
     res = (s, tr @ fst (DeleteNote (aw_io w 1) (as_store s) name fp (last tr)), see_other ''/''))"
| "outcome w r sess typed s (Generate name) res \<longleftrightarrow> (\<forall>m kp canon fp token tr.
     manifest_Load (aw_io w 0) (aw_files w) (as_store s) = Inr m \<longrightarrow> name \<in> set (map us_Username (mf_Users m)) \<longrightarrow>
     GenerateEd25519KeyPair (aw_keygen w) name = Inr kp \<longrightarrow> ValidatePublicKey (kp_PublicKey kp) = Inr (canon, fp) \<longrightarrow>
     manifest_Update (aw_io w 0) (as_store s) (run_cmd (AppendKey name canon)) (aw_files w) = (tr, None) \<longrightarrow>
     newToken (aw_rand w 0) = Some token \<longrightarrow> res = generated w sess s token name (kp_PrivatePEM kp) canon tr)"
| "outcome w r sess typed s (Switch name on) res \<longleftrightarrow> (\<forall>tr. (on \<longrightarrow> can_enable (aw_io w 0) (aw_files w) s name = Inr ()) \<longrightarrow>
     manifest_Update (aw_io w 0) (as_store s) (run_cmd (SetStatus name on)) (aw_files w) = (tr, None) \<longrightarrow>
     res = (s, tr, see_other ''/''))"
| "outcome w r sess typed s (DropUser name) res \<longleftrightarrow> (\<forall>tr. can_delete (aw_io w 0) (aw_files w) s name = Inr () \<longrightarrow>
     manifest_Update (aw_io w 0) (as_store s) (run_cmd (RemoveUser name)) (aw_files w) = (tr, None) \<longrightarrow>
     res = (s, tr @ prune_notes (aw_io w 1) (as_store s) (last tr), see_other ''/''))"
| "outcome w r sess typed s NewUser res \<longleftrightarrow> (let name = TrimSpace (typed ''username'') in
     \<forall>pub private token tr. ValidateUsername name = None \<longrightarrow>
     create_keys w name (TrimSpace (typed ''public_key'')) = Inr (pub, private) \<longrightarrow>
     manifest_Update (aw_io w 0) (as_store s) (run_cmd (CreateUser name pub)) (aw_files w) = (tr, None) \<longrightarrow>
     (private \<noteq> [] \<longrightarrow> newToken (aw_rand w 0) = Some token) \<longrightarrow>
     res = (if private = [] then (s, tr, see_other ''/'') else generated w sess s token name private pub tr))"
| "outcome w r sess typed s Repair res \<longleftrightarrow> (\<forall>tr rep. RemoveInvalidKeys (aw_io w 0) (as_store s) (aw_files w) = (tr, Inr rep) \<longrightarrow>
     fst res = s \<and> fst (snd res) = tr @ prune_notes (aw_io w 1) (as_store s) (last tr) \<and> ar_status (snd (snd res)) = 303)"

text \<open>
  A form belongs to a button when sending it, at whatever later moment the session is still alive and with whatever was typed,
  is answered by what the button stands for.
\<close>

definition performs :: "AdminRequest \<Rightarrow> AdminServer \<Rightarrow> session \<Rightarrow> form \<Rightarrow> button \<Rightarrow> bool" where
  "performs r s sess f b \<longleftrightarrow> (\<forall>w typed. presented w (submit (fill typed (entries b) f) r) s = Some sess \<longrightarrow>
     outcome w r sess typed s b (admin_ServeHTTP w (submit (fill typed (entries b) f) r) s))"

lemma username_field:
  assumes "ValidateUsername n = None"
  shows "nul_replaced n = n" "TrimSpace n = n"
proof -
  have p: "usernamePattern n" using assms by (auto simp: ValidateUsername_def split: if_splits)
  show "nul_replaced n = n" using usernamePattern_chars [OF p]
    by (intro nul_replaced_id) (auto simp: list_all_iff lower_letter_def is_digit_def in_range_def)
  show "TrimSpace n = n" using TrimSpace_plain [OF usernamePattern_plain [OF p]] .
qed

lemma fingerprint_field:
  assumes "FingerprintOf k = Inr fp"
  shows "ValidFingerprint fp" "nul_replaced fp = fp" "TrimSpace fp = fp"
proof -
  obtain c where "ValidatePublicKey k = Inr (c, fp)" using assms by (auto simp: FingerprintOf_def split: sum.splits)
  then obtain blob where b: "fp = ''SHA256:'' @ fingerprintSHA256 blob"
    by (meson ValidatePublicKey_shape)
  then show v: "ValidFingerprint fp" using fingerprint_shape by simp
  have "list_all (\<lambda>c. plain_char c \<and> c \<noteq> CHR 0x00) std_alphabet" by code_simp
  then have "list_all (\<lambda>c. plain_char c \<and> c \<noteq> CHR 0x00) (drop 7 fp)" using v by (auto simp: ValidFingerprint_def list_all_iff)
  moreover have "list_all (\<lambda>c. plain_char c \<and> c \<noteq> CHR 0x00) ''SHA256:''" by code_simp
  ultimately have "list_all (\<lambda>c. plain_char c \<and> c \<noteq> CHR 0x00) fp" using b by simp
  then have "CHR 0x00 \<notin> set fp" "list_all plain_char fp" by (auto simp: list_all_iff)
  then show "nul_replaced fp = fp" "TrimSpace fp = fp" by (simp_all add: nul_replaced_id TrimSpace_plain)
qed

text \<open>The request of a form: its route, its fields and its token.\<close>

lemma sent_form [simp]:
  "aq_method (submit (post_form action fs) r) = ''POST''" "aq_path (submit (post_form action fs) r) = action"
  "FormValue (submit (post_form action fs) r) k = (case map_of fs k of None \<Rightarrow> [] | Some v \<Rightarrow> v)"
  "aq_cookie (submit f r) = aq_cookie r"
  "fill typed names (post_form action fs) = post_form action (map (\<lambda>(n, v). (n, if n \<in> set names then typed n else v)) fs)"
  by (simp_all add: submit_def post_form_def FormValue_def fill_def)

lemma sent_token: "may_act (submit (post_form action ((csrfField, se_csrf sess) # fs)) r) sess"
  by (simp add: may_act_def checkCSRF_def)

lemma post_route: "map_of post_routes p = Some rt \<Longrightarrow> admin_route ''POST'' p = rt"
  by (simp add: admin_route_def)

lemmas button_defs = performs_def admin_ServeHTTP_def post_route post_routes_def with_auth_granted sent_token csrfField_def Let_def

lemma key_buttons_perform:
  assumes "ValidateUsername n = None" "FingerprintOf k = Inr fp"
  shows "performs r s sess (post_form ''/users/key-note'' [(csrfField, se_csrf sess), (''username'', n), (''fingerprint'', fp), (''note'', x)])
      (NoteKey n fp)"
    and "performs r s sess (post_form ''/users/delete-key'' [(csrfField, se_csrf sess), (''username'', n), (''fingerprint'', fp)]) (DropKey n fp)"
proof -
  have t: "may_act (submit (post_form a ((''csrf_token'', se_csrf sess) # fs)) r) sess" for a fs
    using sent_token by (simp add: csrfField_def)
  note h = button_defs t key_address_def username_field [OF assms(1)] fingerprint_field [OF assms(2)] assms(1)
  show "performs r s sess (post_form ''/users/key-note'' [(csrfField, se_csrf sess), (''username'', n), (''fingerprint'', fp), (''note'', x)])
      (NoteKey n fp)"
    by (auto simp: h handleKeyNote_def ensure_def)
  show "performs r s sess (post_form ''/users/delete-key'' [(csrfField, se_csrf sess), (''username'', n), (''fingerprint'', fp)]) (DropKey n fp)"
    by (auto simp: h handleDeleteKey_def)
qed

lemma action_buttons_perform:
  assumes "ValidateUsername n = None"
  shows "performs r s sess (post_form ''/users/generate-key'' [(csrfField, se_csrf sess), (''username'', n)]) (Generate n)"
    and "performs r s sess (post_form ''/users/status'' [(csrfField, se_csrf sess), (''username'', n),
      (''action'', if on then ''enable'' else ''disable'')]) (Switch n on)"
    and "performs r s sess (post_form ''/users/delete'' [(csrfField, se_csrf sess), (''username'', n)]) (DropUser n)"
proof -
  have t: "may_act (submit (post_form a ((''csrf_token'', se_csrf sess) # fs)) r) sess" for a fs
    using sent_token by (simp add: csrfField_def)
  note h = button_defs t username_field [OF assms] assms
  show "performs r s sess (post_form ''/users/generate-key'' [(csrfField, se_csrf sess), (''username'', n)]) (Generate n)"
    by (auto simp: h handleGenerateKey_def offer_private_def generated_def)
  show "performs r s sess (post_form ''/users/status'' [(csrfField, se_csrf sess), (''username'', n),
      (''action'', if on then ''enable'' else ''disable'')]) (Switch n on)"
    by (auto simp: h handleStatus_def status_action_def need_def)
  show "performs r s sess (post_form ''/users/delete'' [(csrfField, se_csrf sess), (''username'', n)]) (DropUser n)"
    by (auto simp: h handleDelete_def)
qed

lemma page_buttons_perform:
  "performs r s sess (post_form ''/logout'' [(csrfField, se_csrf sess)]) LogOut"
  "performs r s sess (post_form ''/users/create'' [(csrfField, se_csrf sess), (''username'', []), (''public_key'', [])]) NewUser"
  "performs r s sess (post_form ''/users/remove-invalid-keys'' [(csrfField, se_csrf sess)]) Repair"
proof -
  have t: "may_act (submit (post_form a ((''csrf_token'', se_csrf sess) # fs)) r) sess" for a fs
    using sent_token by (simp add: csrfField_def)
  note h = button_defs t
  show "performs r s sess (post_form ''/users/create'' [(csrfField, se_csrf sess), (''username'', []), (''public_key'', [])]) NewUser"
    by (auto simp: h handleCreate_def offer_private_def generated_def)
  show "performs r s sess (post_form ''/users/remove-invalid-keys'' [(csrfField, se_csrf sess)]) Repair"
    by (auto simp: h handleRemoveInvalidKeys_def see_other_def areply_def)
  have "auth_lookup (aw_now w) c (as_auth s) = (as_auth s, Some sess)"
    if "presented w q s = Some sess" "aq_cookie q sessionCookieName = Some c" for w q c
    using that by (auto simp: presented_def auth_lookup_def split: if_splits bind_splits)
  then show "performs r s sess (post_form ''/logout'' [(csrfField, se_csrf sess)]) LogOut"
    by (auto simp: performs_def admin_ServeHTTP_def post_route post_routes_def handleLogout_def checkCSRF_def Let_def)
qed

section \<open>The forms of the page and its buttons\<close>

lemma list_all2_concat_map:
  "list_all2 (\<lambda>x y. list_all2 P (f x) (g y)) xs ys \<Longrightarrow> list_all2 P (concat (map f xs)) (concat (map g ys))"
  by (induction rule: list_all2_induct) (simp_all add: list_all2_appendI)

lemma key_rows:
  assumes "ValidateUsername n = None" "CHR 0x00 \<notin> set (se_csrf sess)"
    and "kv_Valid kv = kv_Valid (key_view k)" "kv_Fingerprint kv = kv_Fingerprint (key_view k)"
  shows "list_all2 (performs r s sess) (key_forms (se_csrf sess) n kv) (key_buttons n k)"
proof (cases "FingerprintOf k")
  case (Inl e)
  then have "\<not> kv_Valid (key_view k)"
    by (cases "ValidatePublicKey k") (auto simp: key_view_def FingerprintOf_def split: prod.splits)
  then show ?thesis using assms(3) Inl by (simp add: key_forms_def key_buttons_def Let_def)
next
  case (Inr fp)
  then have "kv_Valid (key_view k)" "kv_Fingerprint (key_view k) = fp"
    by (auto simp: key_view_def FingerprintOf_def split: sum.splits)
  then show ?thesis
    using assms(3,4) Inr key_buttons_perform [OF assms(1) Inr] nul_replaced_id [OF assms(2)] username_field(1) [OF assms(1)]
      fingerprint_field(2) [OF Inr]
    by (simp add: key_forms_def key_buttons_def Let_def)
qed

definition row_of :: "userRow \<Rightarrow> User \<Rightarrow> bool" where
  "row_of x u \<longleftrightarrow> ur_Username x = us_Username u \<and> ur_Enabled x = us_Enabled u
     \<and> list_all2 (\<lambda>kv k. kv_Valid kv = kv_Valid (key_view k) \<and> kv_Fingerprint kv = kv_Fingerprint (key_view k)) (ur_Keys x) (us_Keys u)"

lemma user_rows:
  assumes "ValidateUsername (us_Username u) = None" "CHR 0x00 \<notin> set (se_csrf sess)" "row_of x u"
  shows "list_all2 (performs r s sess) (user_forms (se_csrf sess) x) (row_buttons u)"
proof -
  have row: "ur_Username x = us_Username u" "ur_Enabled x = us_Enabled u" using assms(3) by (simp_all add: row_of_def)
  have keys: "list_all2 (performs r s sess) (concat (map (key_forms (se_csrf sess) (ur_Username x)) (ur_Keys x)))
      (concat (map (key_buttons (us_Username u)) (us_Keys u)))"
    unfolding row(1) using assms(3)
    by (intro list_all2_concat_map) (auto simp: row_of_def elim!: list_all2_mono intro: key_rows [OF assms(1,2)])
  have actions: "list_all2 (performs r s sess) (action_forms (se_csrf sess) x)
      ([Generate (us_Username u), Switch (us_Username u) (\<not> us_Enabled u)] @ (if us_Enabled u then [] else [DropUser (us_Username u)]))"
    using action_buttons_perform(1,3) [OF assms(1), of r s sess] row
      action_buttons_perform(2) [OF assms(1), of r s sess True] action_buttons_perform(2) [OF assms(1), of r s sess False]
      nul_replaced_id [OF assms(2)] username_field(1) [OF assms(1)]
    by (auto simp: action_forms_def Let_def)
  show ?thesis unfolding user_forms_def row_buttons_def by (rule list_all2_appendI [OF keys actions])
qed

lemma user_row_of: "row_of (user_row u) u"
  by (simp add: row_of_def user_row_def user_row_keys_exact list_all2_map1 list.rel_refl)

lemma attach_notes_row: "row_of x u \<Longrightarrow> row_of (attach_notes n x) u"
  by (auto simp: row_of_def attach_notes_def list_all2_map1 elim!: list_all2_mono)

lemma dashboard_rows: "list_all2 row_of (uv_Users (dashboardView io fs s m csrf)) (mf_Users m)"
proof -
  have rows: "list_all2 row_of (map user_row us) us" for us
    by (induction us) (simp_all add: user_row_of)
  have noted: "list_all2 row_of (map (attach_notes n) (map user_row us)) us" for n us
    by (induction us) (simp_all add: user_row_of attach_notes_row)
  show ?thesis
  proof (cases "LoadNotes io fs (as_store s)")
    case (Inl e)
    then show ?thesis using rows by (simp add: dashboardView_def userDashboard_def Let_def)
  next
    case (Inr n)
    then show ?thesis using noted by (simp add: dashboardView_def userDashboard_def Let_def)
  qed
qed

lemma loaded_usernames: "manifest_Load io fs path = Inr m \<Longrightarrow> u \<in> set (mf_Users m) \<Longrightarrow> ValidateUsername (us_Username u) = None"
proof -
  assume l: "manifest_Load io fs path = Inr m" and u: "u \<in> set (mf_Users m)"
  then have "manifest_ok False m \<or> mf_Users m = []"
    by (auto simp: manifest_Load_def manifest_loadLocked_def validateManifest_None split: sum.splits option.splits if_splits)
  then show "ValidateUsername (us_Username u) = None" using u by (auto simp: manifest_ok_def list_all_iff)
qed

text \<open>
  C9: Every button of the users page does what it stands for, and nothing else. In the bytes of the page that a signed-in
  browser gets, it reads exactly these forms, in this order: the one that signs out; for every user of the manifest two for each valid key (its note and its
  removal), one that generates a key, one for the switch and, for a disabled user, one that removes the user; one that
  creates a user and one that repairs the manifest. Sending a form, with whatever is typed into its fields, has exactly the outcome of its
  button on the name and the fingerprint of the manifest, whenever the checks of that command pass and the files can be written.
\<close>

theorem users_page_buttons:
  assumes "presented w r s = Some sess" "aq_method r = ''GET''" "aq_path r = ''/''" "CHR 0x00 \<notin> set (se_csrf sess)"
    and "manifest_Load (aw_io w 0) (aw_files w) (as_store s) = Inr m"
  shows "\<exists>v ts. admin_ServeHTTP w r s = (s, [aw_files w], renderUsers v) \<and> read_html (show_page (users_html T v)) = Some ts
    \<and> list_all2 (performs r s sess) (page_forms ts) (page_buttons m)"
proof -
  let ?v = "(dashboardView (aw_io w 0) (aw_files w) s m (se_csrf sess))\<lparr>uv_Notice := repairNotice r\<rparr>"
  have page: "admin_ServeHTTP w r s = (s, [aw_files w], renderUsers ?v)"
    using with_auth_granted [OF assms(1)] assms(2,3,5)
    by (simp add: admin_ServeHTTP_def admin_route_def get_routes_def handleIndex_def may_act_def)
  obtain ts where ts: "read_html (show_page (users_html T ?v)) = Some ts"
    "page_forms ts = all_forms (nav_html ?v) @ all_forms (users_content (error_text T (uv_Error ?v)) ?v)"
    using page_of_forms [of T "AUsersPage ?v" ?v "users_content (error_text T (uv_Error ?v)) ?v"] users_content_placed
    by (auto simp: users_html_def)
  have csrf: "pd_CSRF ?v = se_csrf sess" "pd_ShowNav ?v" by (simp_all add: dashboardView_def userDashboard_def Let_def split: sum.split)
  have rows: "list_all2 (performs r s sess) (concat (map (user_forms (se_csrf sess)) (uv_Users ?v))) (concat (map row_buttons (mf_Users m)))"
    using dashboard_rows [of "aw_io w 0" "aw_files w" s m "se_csrf sess"]
    by (intro list_all2_concat_map) (auto elim!: list.rel_mono_strong intro: user_rows [OF _ assms(4)] loaded_usernames [OF assms(5)])
  have "list_all2 (performs r s sess) (page_forms ts) (page_buttons m)"
    unfolding ts(2) nav_forms users_content_forms page_buttons_def csrf(1) nul_replaced_id [OF assms(4)]
    using csrf(2) rows page_buttons_perform by (auto intro!: list_all2_appendI)
  then show ?thesis using page ts(1) by blast
qed

section \<open>Instances\<close>

definition demo_users_fs :: cfs where
  "demo_users_fs = [''/users.json'' \<mapsto> \<lparr>cf_doc = manifest_encode \<lparr>mf_Version = 1, mf_Users = [demo_user]\<rparr>, cf_mode = 384, cf_gid = 0\<rparr>]"

definition demo_users_world :: AdminWorld where
  "demo_users_world = demo_aworld\<lparr>aw_files := demo_users_fs\<rparr>"

definition demo_get :: "string \<Rightarrow> AdminRequest" where
  "demo_get path = (demo_arequest ''GET'' path)\<lparr>aq_cookie := [sessionCookieName \<mapsto> ''sid'']\<rparr>"

definition demo_session :: session where
  "demo_session = \<lparr>se_csrf = ''tok'', se_expires = 1700000001 * second\<rparr>"

lemma demo_presented:
  "presented demo_users_world (demo_get path) demo_pending = Some demo_session"
  "presented demo_setworld (demo_get path) demo_setserver = Some demo_session"
  by (simp_all add: presented_def demo_get_def demo_arequest_def demo_pending_def demo_aserver_def demo_aworld_def demo_users_world_def
      demo_setworld_def demo_setserver_def demo_session_def second_def newAuthState_def)

lemma demo_users_loaded:
  "manifest_Load (aw_io demo_users_world 0) (aw_files demo_users_world) (as_store demo_pending) = Inr \<lparr>mf_Version = 1, mf_Users = [demo_user]\<rparr>"
proof -
  have "ValidateUsername ''ann'' = None" "keys_text \<lparr>mf_Version = 1, mf_Users = [demo_user]\<rparr>" by code_simp+
  then show ?thesis using demo_key_valid
    by (intro manifest_Load_new) (simp_all add: ReadFile_def demo_users_world_def demo_aworld_def io_ok_def demo_users_fs_def demo_pending_def
        demo_aserver_def manifest_ok_def demo_user_def demo_key_def valid_key_def)
qed

theorem users_page_buttons_witness:
  "\<exists>v ts. admin_ServeHTTP demo_users_world (demo_get ''/'') demo_pending = (demo_pending, [demo_users_fs], renderUsers v)
     \<and> read_html (show_page (users_html \<lparr>lt_quote = id, lt_io = (\<lambda>_. []), lt_detail = []\<rparr> v)) = Some ts
     \<and> list_all2 (performs (demo_get ''/'') demo_pending demo_session) (page_forms ts)
          (let fp = ''SHA256:'' @ fingerprintSHA256 demo_blob in
           [LogOut, NoteKey ''ann'' fp, DropKey ''ann'' fp, Generate ''ann'', Switch ''ann'' False, NewUser, Repair])"
proof -
  have "page_buttons \<lparr>mf_Version = 1, mf_Users = [demo_user]\<rparr> = (let fp = ''SHA256:'' @ fingerprintSHA256 demo_blob in
      [LogOut, NoteKey ''ann'' fp, DropKey ''ann'' fp, Generate ''ann'', Switch ''ann'' False, NewUser, Repair])"
    using demo_key_valid by (simp add: page_buttons_def row_buttons_def key_buttons_def demo_user_def FingerprintOf_def demo_key_def Let_def)
  then show ?thesis
    using users_page_buttons [OF demo_presented(1) _ _ _ demo_users_loaded, of "''/''" "\<lparr>lt_quote = id, lt_io = (\<lambda>_. []), lt_detail = []\<rparr>"]
    by (auto simp: demo_get_def demo_arequest_def demo_session_def demo_users_world_def)
qed

theorem settings_page_resubmit_witness:
  "\<exists>v ts f. read_html (show_page (settings_html \<lparr>lt_quote = id, lt_io = (\<lambda>_. []), lt_detail = []\<rparr> v)) = Some ts
     \<and> f \<in> set (page_forms ts) \<and> fm_action f = ''/settings''"
proof -
  have l: "LoadShared (aw_io demo_setworld 0) (aw_files demo_setworld) (sharedConfigPath demo_setserver) = Inr demo_shared"
    using demo_settings_form by (simp add: settings_form_def)
  have "CHR 0x00 \<notin> set (sc_PublicURL demo_shared)" "TrimSpace (sc_PublicURL demo_shared) = sc_PublicURL demo_shared" by code_simp+
  then show ?thesis
    using settings_page_resubmit [OF demo_presented(2) _ _ l, of "''/settings''" "\<lparr>lt_quote = id, lt_io = (\<lambda>_. []), lt_detail = []\<rparr>"]
    by (auto simp: demo_get_def demo_arequest_def demo_session_def)
qed

end
