(* ===== verification/Link_Concurrency.thy ===== *)
theory Link_Concurrency
  imports Links_Pkg
begin

text \<open>
  Requests at the same time. A handler that works on the links takes the lock of the store twice: once for
  \<open>reloadLinks\<close> and once for the operation itself. Between the two, other handlers of the same
  service, and the other service on the same file, may run. The steps here are those locked sections;
  a schedule is a list of steps, each with its service, its system calls and its moment.
\<close>

section \<open>Steps\<close>

datatype link_step = Reload | Write link_request

type_synonym 'p schedule = "('p \<times> io_env \<times> time \<times> link_step) list"
type_synonym 'p services = "cfs \<times> ('p \<Rightarrow> LinkStore)"

text \<open>\<open>reloadLinks\<close> ignores the error of the load.\<close>

fun do_step :: "'p \<times> io_env \<times> time \<times> link_step \<Rightarrow> 'p services \<Rightarrow> 'p services \<times> link_error option" where
  "do_step (p, io, now, Reload) (fs, S) = ((fs, S(p := fst (links_Load io fs (S p)))), None)"
| "do_step (p, io, now, Write r) (fs, S) =
     (case links_request io now fs r (S p) of (s, tr, e) \<Rightarrow> ((last tr, S(p := s)), e))"

fun run_schedule :: "'p schedule \<Rightarrow> 'p services \<Rightarrow> 'p services \<times> link_error option list" where
  "run_schedule [] x = (x, [])"
| "run_schedule (st # sched) x =
     (case do_step st x of (y, e) \<Rightarrow> case run_schedule sched y of (z, es) \<Rightarrow> (z, e # es))"

text \<open>The two sections of a handler, and the writes of a schedule as a history of requests.\<close>

definition handler_steps :: "'p \<Rightarrow> io_env \<Rightarrow> io_env \<Rightarrow> time \<Rightarrow> link_request \<Rightarrow> 'p schedule" where
  "handler_steps p io1 io2 now r = [(p, io1, now, Reload), (p, io2, now, Write r)]"

fun writes :: "'p schedule \<Rightarrow> (link_request \<times> io_env \<times> time \<times> cfs) list" where
  "writes [] = []"
| "writes ((p, io, now, Reload) # sched) = writes sched"
| "writes ((p, io, now, Write r) # sched) = (r, io, now, Map.empty) # writes sched"

section \<open>Tables that agree\<close>

context link_table
begin

lemma request_cong:
  assumes "ok s" "ok t" "\<And>k. lookup k s = lookup k t"
  shows "lookup k (request r now s) = lookup k (request r now t)"
  using assms by (cases r) (auto simp: lookup_create lookup_change lookup_remove split: option.splits sum.splits)

end

lemma run_requests_cong:
  "wf_links s \<Longrightarrow> wf_links t \<Longrightarrow> (\<And>k. links_Get k s = links_Get k t) \<Longrightarrow> links_Get k (run_requests h s) = links_Get k (run_requests h t)"
proof (induction h arbitrary: s t)
  case (Cons x h)
  obtain r io now fs where x: "x = (r, io, now, fs)" by (cases x) auto
  show ?case unfolding x run_requests.simps links_request_table
    by (rule Cons.IH) (use Cons.prems in \<open>auto simp: table.request_ok intro: table.request_cong\<close>)
qed simp

text \<open>Requests that keep the texts of links valid.\<close>

fun text_request :: "link_request \<Rightarrow> bool" where
  "text_request (ReqCreate l) = link_text l"
| "text_request (ReqUpdate i m) = (\<forall>l l'. link_text l \<longrightarrow> m l = Inr l' \<longrightarrow> link_text l')"
| "text_request (ReqDelete i) = True"

lemma list_all_update: "list_all P al \<Longrightarrow> P (k, l) \<Longrightarrow> list_all P (AList.update k l al)"
  by (induction al) auto

lemma list_all_delete: "list_all P al \<Longrightarrow> list_all P (AList.delete k al)"
  by (auto simp: list_all_iff AList.delete_eq)

lemma links_text_ops:
  assumes "links_text al"
  shows "valid_utf8 k \<Longrightarrow> link_text l \<Longrightarrow> links_text (AList.update k l al)" "links_text (AList.delete k al)"
    "links_text (filter P al)" "(k, l) \<in> set al \<Longrightarrow> valid_utf8 k \<and> link_text l"
  using assms
  by (auto simp: links_text_def distinct_update distinct_delete distinct_keys_filter list_all_update list_all_delete)
    (auto simp: list_all_iff)

lemma request_text:
  assumes "links_text (ls_links s)" "text_request r"
  shows "links_text (ls_links (fst (links_request io now fs r s)))"
proof -
  have save: "links_text (ls_links t) \<Longrightarrow> links_text (ls_links (fst (saveLocked io now fs t)))" for t
    by (simp add: saveLocked_state links_text_ops(3))
  show ?thesis
  proof (cases r)
    case (ReqCreate l)
    then show ?thesis using assms save by (simp add: links_Create_def links_text_ops(1) link_text_def)
  next
    case (ReqDelete i)
    then show ?thesis using assms save by (simp add: links_Delete_def links_text_ops(2))
  next
    case (ReqUpdate i m)
    show ?thesis
    proof (cases "map_of (ls_links s) i")
      case None
      then show ?thesis using assms ReqUpdate by (simp add: links_Update_def)
    next
      case (Some l)
      then have "valid_utf8 i \<and> link_text l" using links_text_ops(4) [OF assms(1)] map_of_SomeD by metis
      then show ?thesis using assms ReqUpdate Some save by (auto simp: links_Update_def links_text_ops(1) split: sum.split)
    qed
  qed
qed

section \<open>One service\<close>

text \<open>The file holds what the service holds.\<close>

definition synced :: "cfs \<Rightarrow> LinkStore \<Rightarrow> bool" where
  "synced fs s \<longleftrightarrow> links_text (ls_links s) \<and> (\<exists>L. links_text L \<and> map_of L = map_of (ls_links s)
     \<and> (\<forall>io t. io_read io (ls_path s) = None \<longrightarrow> ls_path t = ls_path s \<longrightarrow> links_Load io fs t = (t\<lparr>ls_links := L\<rparr>, None)))"

text \<open>The system calls of a step work; a request may be refused before anything is written.\<close>

fun clean :: "'p schedule \<Rightarrow> 'p services \<Rightarrow> bool" where
  "clean [] x = True"
| "clean ((p, io, now, a) # sched) (fs, S) =
     (io_tmp io \<noteq> ls_path (S p) \<and> io_read io (ls_path (S p)) = None
      \<and> (case a of Reload \<Rightarrow> True
         | Write r \<Rightarrow> text_request r \<and> (case links_request io now fs r (S p) of (s, tr, e) \<Rightarrow> e = None \<or> (s = S p \<and> tr = [fs])))
      \<and> clean sched (fst (do_step (p, io, now, a) (fs, S))))"

lemma synced_reload:
  assumes "synced fs s" "io_read io (ls_path s) = None"
  shows "synced fs (fst (links_Load io fs s))" "ls_path (fst (links_Load io fs s)) = ls_path s"
    "links_Get k (fst (links_Load io fs s)) = links_Get k s"
  using assms by (auto simp: synced_def links_Get_def)

lemma request_path: "ls_path (fst (links_request io now fs r s)) = ls_path s"
  by (cases r) (simp_all add: links_Create_def links_Update_def links_Delete_def saveLocked_state split: option.split sum.split)

lemma request_io: "fst (links_request io now fs r s) = fst (links_request io2 now fs2 r s)"
  by (cases r) (simp_all add: links_Create_def links_Update_def links_Delete_def saveLocked_state split: option.split sum.split)

lemma links_text_wf: "links_text (ls_links s) \<Longrightarrow> wf_links s"
  by (simp add: links_text_def wf_links_def)

lemma synced_text: "synced fs s \<Longrightarrow> links_text (ls_links s)"
  by (simp add: synced_def)

lemma synced_wf: "synced fs s \<Longrightarrow> wf_links s"
  by (simp add: synced_def links_text_def wf_links_def)

lemma synced_write:
  assumes "links_text (ls_links s)" "links_request io now fs r s = (s', tr, None)" "text_request r" "io_tmp io \<noteq> ls_path s"
  shows "synced (last tr) s'"
proof -
  have path: "ls_path s' = ls_path s" using request_path [of io now fs r s] assms(2) by simp
  have words: "links_text (ls_links s')" using request_text [of s r io now fs] assms(1-3) by simp
  let ?L = "sort_key fst (ls_links s')"
  have d: "distinct (keys_of (ls_links s'))" using words by (simp add: links_text_def)
  have "links_text ?L" using words by (simp add: links_text_def distinct_sort_key_fst) (simp add: list_all_iff)
  moreover have "map_of ?L = map_of (ls_links s')" using d by (rule sort_key_fst_map_of)
  moreover have "links_Load rio (last tr) t = (t\<lparr>ls_links := ?L\<rparr>, None)"
    if "io_read rio (ls_path s') = None" "ls_path t = ls_path s'" for rio t
    using links_request_loaded(1) [OF links_text_wf [OF assms(1)] assms(2) words assms(4)] that path by simp
  ultimately show ?thesis using words by (auto simp: synced_def)
qed

lemma one_service:
  assumes "\<forall>st \<in> set sched. fst st = p" "clean sched (fs, S)" "synced fs (S p)"
  shows "synced (fst (fst (run_schedule sched (fs, S)))) (snd (fst (run_schedule sched (fs, S))) p)
    \<and> links_Get k (snd (fst (run_schedule sched (fs, S))) p) = links_Get k (run_requests (writes sched) (S p))"
  using assms
proof (induction sched arbitrary: fs S)
  case (Cons st sched)
  obtain io now a where st: "st = (p, io, now, a)" using Cons.prems(1) by (cases st) auto
  have env: "io_tmp io \<noteq> ls_path (S p)" "io_read io (ls_path (S p)) = None" using Cons.prems(2) st by simp_all
  let ?y = "fst (do_step st (fs, S))"
  have run: "fst (run_schedule (st # sched) (fs, S)) = fst (run_schedule sched ?y)" by (simp add: case_prod_unfold)
  have steps: "\<forall>st \<in> set sched. fst st = p" "clean sched ?y" using Cons.prems(1,2) st by simp_all
  show ?case
  proof (cases a)
    case Reload
    let ?s = "fst (links_Load io fs (S p))"
    have y: "?y = (fs, S(p := ?s))" by (simp add: st Reload)
    note same = synced_reload [OF Cons.prems(3) env(2)]
    have "synced fs ((S(p := ?s)) p)" using same(1) by simp
    note ih = Cons.IH [OF steps(1) steps(2) [unfolded y] this]
    have "links_Get k (run_requests (writes sched) ((S(p := ?s)) p)) = links_Get k (run_requests (writes sched) (S p))"
      using run_requests_cong [OF synced_wf [OF same(1)] synced_wf [OF Cons.prems(3)] same(3)] by simp
    then show ?thesis using ih unfolding run y by (simp only: st Reload writes.simps)
  next
    case (Write r)
    obtain s tr e where r: "links_request io now fs r (S p) = (s, tr, e)" by (cases "links_request io now fs r (S p)") auto
    have y: "?y = (last tr, S(p := s))" by (simp add: st Write r)
    have "text_request r" "e = None \<or> (s = S p \<and> tr = [fs])" using Cons.prems(2) by (simp_all add: st Write r)
    then have sy: "synced (last tr) s" using synced_write [OF synced_text [OF Cons.prems(3)], of io now fs r s tr] r env(1) Cons.prems(3) by auto
    have "fst (links_request io now fs r (S p)) = fst (links_request io now Map.empty r (S p))" by (rule request_io)
    then have e: "fst (links_request io now Map.empty r (S p)) = s" by (simp add: r)
    have "synced (last tr) ((S(p := s)) p)" using sy by simp
    note ih = Cons.IH [OF steps(1) steps(2) [unfolded y] this]
    show ?thesis using ih unfolding run y by (simp only: st Write writes.simps run_requests.simps e fun_upd_same)
  qed
qed simp_all

text \<open>
  C16: Within one service the handlers may be interleaved in any way: whatever the order of the
  locked sections, reloads included, as long as the writes that are not refused go through, the service ends with the
  table that the requests give one after another in the order of their writes, without any reload;
  and the file holds that table.
\<close>

theorem one_service_serial:
  assumes "\<forall>st \<in> set sched. fst st = p" "clean sched (fs, S)" "synced fs (S p)"
    and "run_schedule sched (fs, S) = ((fs2, S2), es)"
  shows "synced fs2 (S2 p) \<and> (\<forall>k. links_Get k (S2 p) = links_Get k (run_requests (writes sched) (S p)))"
  using one_service [OF assms(1-3)] assms(4) by simp

section \<open>Two services\<close>

text \<open>The four sections of two handlers of different services that create a link each, one after the other and interleaved.\<close>

definition serial_creates :: "'p \<Rightarrow> 'p \<Rightarrow> io_env \<Rightarrow> time \<Rightarrow> Link \<Rightarrow> Link \<Rightarrow> 'p schedule" where
  "serial_creates p q io now l1 l2 = handler_steps p io io now (ReqCreate l1) @ handler_steps q io io now (ReqCreate l2)"

definition crossed_creates :: "'p \<Rightarrow> 'p \<Rightarrow> io_env \<Rightarrow> time \<Rightarrow> Link \<Rightarrow> Link \<Rightarrow> 'p schedule" where
  "crossed_creates p q io now l1 l2 =
     [(p, io, now, Reload), (q, io, now, Reload), (p, io, now, Write (ReqCreate l1)), (q, io, now, Write (ReqCreate l2))]"

lemma crossed_is_interleaving:
  "crossed_creates p q io now l1 l2
     \<in> shuffles (handler_steps p io io now (ReqCreate l1)) (handler_steps q io io now (ReqCreate l2))"
  by (simp add: crossed_creates_def handler_steps_def)

lemma create_success:
  assumes "links_text (ls_links s)" "links_request io now fs (ReqCreate l) s = (s', tr, None)" "link_text l" "io_tmp io \<noteq> ls_path s" "\<not> Expired l now"
  shows "synced (last tr) s'" "ls_path s' = ls_path s"
    "links_Get k s' = (if k = lk_ID l then Some l else alive now (links_Get k s))"
proof -
  show "synced (last tr) s'" using synced_write [OF assms(1,2) _ assms(4)] assms(3) by simp
  show "ls_path s' = ls_path s" using request_path [of io now fs "ReqCreate l" s] assms(2) by simp
  have "links_Get (lk_ID l) s = None" using assms(2) by (auto simp: links_Create_def links_Get_def split: if_splits)
  then show "links_Get k s' = (if k = lk_ID l then Some l else alive now (links_Get k s))"
    using table.lookup_create [OF links_text_wf [OF assms(1)], of k io now fs l] assms(2,5) by (simp add: alive_def)
qed

lemma synced_path_load:
  assumes "synced fs s" "io_read io (ls_path s) = None" "ls_path t = ls_path s"
  shows "synced fs (fst (links_Load io fs t))" "ls_path (fst (links_Load io fs t)) = ls_path s"
    "links_Get k (fst (links_Load io fs t)) = links_Get k s"
  using assms by (auto simp: synced_def links_Get_def)

text \<open>
  C36: Between the two services a reload does not protect a change: when both handlers have reloaded
  before either has written, both creations are reported as successful, yet the link of the first is gone from the
  file; when the second handler starts after the first has written, both links are there.
\<close>

theorem crossed_creates_lose:
  assumes "p \<noteq> q" "ls_path (S p) = ls_path (S q)" "synced fs (S p)" "link_text l1" "link_text l2" "lk_ID l1 \<noteq> lk_ID l2"
    and "\<not> Expired l1 now" "\<not> Expired l2 now" "io_tmp io \<noteq> ls_path (S p)" "io_read io (ls_path (S p)) = None"
    and "links_Get (lk_ID l1) (S p) = None"
    and serial: "run_schedule (serial_creates p q io now l1 l2) (fs, S) = ((fs1, S1), [None, None, None, None])"
    and crossed: "run_schedule (crossed_creates p q io now l1 l2) (fs, S) = ((fs2, S2), [None, None, None, None])"
    and reader: "ls_path t = ls_path (S p)"
  shows "links_Get (lk_ID l1) (fst (links_Load io fs1 t)) = Some l1 \<and> links_Get (lk_ID l2) (fst (links_Load io fs1 t)) = Some l2
    \<and> links_Get (lk_ID l1) (fst (links_Load io fs2 t)) = None \<and> links_Get (lk_ID l2) (fst (links_Load io fs2 t)) = Some l2"
proof -
  let ?p = "fst (links_Load io fs (S p))" and ?q = "fst (links_Load io fs (S q))"
  note lp = synced_path_load [OF assms(3,10) refl] and lq = synced_path_load [OF assms(3,10) assms(2) [symmetric]]
  have qp: "q \<noteq> p" "p \<noteq> q" using assms(1) by auto
  obtain s1 tr1 where w1: "links_request io now fs (ReqCreate l1) ?p = (s1, tr1, None)"
    and rest: "run_schedule [(q, io, now, Reload), (q, io, now, Write (ReqCreate l2))] (last tr1, S(p := s1)) = ((fs1, S1), [None, None])"
    using serial by (auto simp: serial_creates_def handler_steps_def case_prod_unfold prod_eq_iff)
  note c1 = create_success [OF synced_text [OF lp(1)] w1 assms(4) _ assms(7), unfolded lp(2), OF assms(9)]
  have q1: "ls_path (S q) = ls_path s1" using c1(2) assms(2) by simp
  note r1 = synced_path_load [OF c1(1) _ q1, of io, unfolded c1(2), OF assms(10)]
  obtain s2 tr2 where w2: "links_request io now (last tr1) (ReqCreate l2) (fst (links_Load io (last tr1) (S q))) = (s2, tr2, None)"
    and f1: "fs1 = last tr2"
    using rest qp by (auto simp: case_prod_unfold prod_eq_iff)
  note c2 = create_success [OF synced_text [OF r1(1)] w2 assms(5) _ assms(8), unfolded r1(2), OF assms(9)]
  note d2 = synced_path_load [OF c2(1) _ _, of io t, unfolded c2(2), OF assms(10) reader]
  obtain s3 tr3 s4 tr4 where w3: "links_request io now fs (ReqCreate l1) ?p = (s3, tr3, None)"
    and w4: "links_request io now (last tr3) (ReqCreate l2) ?q = (s4, tr4, None)" and f2: "fs2 = last tr4"
    using crossed qp by (auto simp: crossed_creates_def case_prod_unfold prod_eq_iff)
  note c4 = create_success [OF synced_text [OF lq(1)] w4 assms(5) _ assms(8), unfolded lq(2), OF assms(9)]
  note d4 = synced_path_load [OF c4(1) _ _, of io t, unfolded c4(2), OF assms(10) reader]
  have "links_Get (lk_ID l1) (fst (links_Load io fs1 t)) = Some l1"
    using assms(6,7) by (simp add: f1 d2(3) c2(3) r1(3) c1(3) alive_def)
  moreover have "links_Get (lk_ID l1) (fst (links_Load io fs2 t)) = None"
    using assms(6,11) by (simp add: f2 d4(3) c4(3) lq(3) alive_def)
  ultimately show ?thesis by (simp add: f1 f2 d2(3) d4(3) c2(3) c4(3))
qed

section \<open>Instances\<close>

definition demo_services :: "bool services" where
  "demo_services = (Map.empty, \<lambda>_. links_NewStore ''/v'')"

definition demo_steps :: "bool schedule" where
  "demo_steps = [(True, io_ok, 0, Reload), (True, io_ok, 0, Reload), (True, io_ok, 0, Write (ReqCreate (demo_link ''abc'' None))),
     (True, io_ok, 0, Write (ReqCreate (demo_link ''def'' None)))]"

lemma demo_synced: "synced Map.empty (links_NewStore ''/v'')"
  by (auto simp: synced_def links_NewStore_def links_text_def links_Load_def ReadFile_def IsNotExist_def)

lemma demo_clean: "clean demo_steps demo_services"
proof -
  let ?s = "fst (links_Load io_ok Map.empty (links_NewStore ''/v''))"
  let ?r = "links_request io_ok 0 Map.empty (ReqCreate (demo_link ''abc'' None)) (fst (links_Load io_ok Map.empty ?s))"
  have "snd (snd ?r) = None" "snd (snd (links_request io_ok 0 (last (fst (snd ?r))) (ReqCreate (demo_link ''def'' None)) (fst ?r))) = None"
    "link_text (demo_link ''abc'' None)" "link_text (demo_link ''def'' None)"
    by code_simp+
  moreover have "ls_path ?s = ''/v/links.json''" "ls_path (fst (links_Load io_ok Map.empty ?s)) = ''/v/links.json''" "ls_path (fst ?r) = ''/v/links.json''"
    "ls_path (links_NewStore ''/v'') = ''/v/links.json''"
    by code_simp+
  ultimately show ?thesis by (simp add: demo_steps_def demo_services_def case_prod_unfold io_ok_def)
qed

theorem one_service_serial_witness:
  "\<forall>k. links_Get k (snd (fst (run_schedule demo_steps demo_services)) True)
     = links_Get k (run_requests [(ReqCreate (demo_link ''abc'' None), io_ok, 0, Map.empty),
         (ReqCreate (demo_link ''def'' None), io_ok, 0, Map.empty)] (links_NewStore ''/v''))"
proof -
  let ?x = "run_schedule demo_steps demo_services"
  have "run_schedule demo_steps (Map.empty, \<lambda>_. links_NewStore ''/v'') = ((fst (fst ?x), snd (fst ?x)), snd ?x)"
    by (simp add: demo_services_def)
  from one_service_serial [OF _ demo_clean [unfolded demo_services_def] _ this, of True] show ?thesis
    using demo_synced by (simp add: demo_steps_def)
qed

theorem crossed_creates_lose_witness:
  "links_Get ''abc'' (fst (links_Load io_ok (fst (fst (run_schedule
       (crossed_creates True False io_ok 0 (demo_link ''abc'' None) (demo_link ''def'' None)) demo_services))) (links_NewStore ''/v''))) = None"
proof -
  let ?l1 = "demo_link ''abc'' None" and ?l2 = "demo_link ''def'' None"
  let ?a = "run_schedule (serial_creates True False io_ok 0 ?l1 ?l2) demo_services"
  let ?b = "run_schedule (crossed_creates True False io_ok 0 ?l1 ?l2) demo_services"
  have e: "snd ?a = [None, None, None, None]" "snd ?b = [None, None, None, None]" by code_simp+
  have "link_text ?l1" "link_text ?l2" "ls_path (links_NewStore ''/v'') = ''/v/links.json''" by code_simp+
  moreover have "lk_ID ?l1 = ''abc''" "lk_ID ?l2 = ''def''" "\<not> Expired ?l1 0" "\<not> Expired ?l2 0"
    by (simp_all add: demo_link_def Expired_def)
  moreover have "run_schedule (serial_creates True False io_ok 0 ?l1 ?l2) (Map.empty, \<lambda>_. links_NewStore ''/v'')
      = ((fst (fst ?a), snd (fst ?a)), [None, None, None, None])"
    "run_schedule (crossed_creates True False io_ok 0 ?l1 ?l2) (Map.empty, \<lambda>_. links_NewStore ''/v'')
      = ((fst (fst ?b), snd (fst ?b)), [None, None, None, None])"
    using e by (simp_all add: demo_services_def prod_eq_iff)
  ultimately show ?thesis
    using crossed_creates_lose [of True False "\<lambda>_. links_NewStore ''/v''" Map.empty ?l1 ?l2 0 io_ok "fst (fst ?a)" "snd (fst ?a)"
        "fst (fst ?b)" "snd (fst ?b)" "links_NewStore ''/v''"] demo_synced
    by (simp add: io_ok_def links_Get_def links_NewStore_def)
qed

end
