(* ===== verification/Admin_Races.thy ===== *)
theory Admin_Races
  imports Admin_Props
begin

text \<open>
  Two requests at the same time on the user manifest. \<open>Store.Update\<close> holds its lock from the load to the
  write, so updates run one after another; the checks that a handler makes before, on a manifest it
  has loaded on its own, are outside of the lock.
\<close>

text \<open>What an update that succeeds leaves for the next one.\<close>

lemma manifest_Update_success:
  assumes "manifest_Update io path fn fs = (tr, None)" "manifest_Load io fs path = Inr m" "io_tmp io \<noteq> path" "io_read rio path = None"
    and "keys_text m" "keeps_text fn"
  obtains m' where "fn m = Inr m'" "manifest_Load rio (last tr) path = Inr (stamped m')" "keys_text (stamped m')"
proof (cases rule: manifest_Update_cases [of io path fn fs])
  case (refused e)
  then show ?thesis using assms(1) by simp
next
  case (written m0 m')
  let ?w = "write_private io path (manifest_encode (stamped m')) fs"
  have m: "m0 = m" using written(1) assms(2) by (simp add: manifest_Load_def)
  have t: "keys_text (stamped m')" using written(2) assms(5,6) by (auto simp: m keeps_text_def keys_text_def stamped_def)
  have w: "fst ?w = tr" "snd ?w = None"
    using written(4) assms(1) by (simp_all add: manifest_writeLocked_def split: prod.splits)
  have "ReadFile rio (last tr) path = Inr (manifest_encode (stamped m'))"
    using private_file.read_after [OF assms(3) w(2) assms(4)] w(1) by (simp add: final_def)
  then show ?thesis using that written(2) manifest_Load_new [OF _ written(3) t] t by (simp add: m)
qed

lemma update_user_keeps_text:
  assumes "\<And>u u'. list_all valid_utf8 (us_Keys u) \<Longrightarrow> f u = Inr u' \<Longrightarrow> list_all valid_utf8 (us_Keys u')"
  shows "keeps_text (on_users (update_user name f))"
proof -
  have "list_all (\<lambda>u. list_all valid_utf8 (us_Keys u)) us'"
    if "update_user name f us = Inr us'" "list_all (\<lambda>u. list_all valid_utf8 (us_Keys u)) us" for us us'
    using that by (induction us arbitrary: us') (auto split: if_splits sum.splits dest: assms)
  then show ?thesis by (auto simp: keeps_text_def keys_text_def on_users_def split: sum.splits)
qed

lemma deleteKey_keeps_text: "keeps_text (deleteKey name fp)"
proof -
  have "list_all valid_utf8 kept" if "drop_key fp ks = (kept, b)" "list_all valid_utf8 ks" for ks kept b
    using that drop_key_subset [of fp ks] by (auto simp: list_all_iff)
  then show ?thesis unfolding deleteKey_def
    by (intro update_user_keeps_text) (auto simp: Let_def split: prod.splits if_splits)
qed

lemma set_status_keeps_text: "keeps_text (set_status name b)"
  unfolding set_status_def by (intro update_user_keeps_text) auto

lemma accounts_stamped [simp]: "accounts (stamped m) = accounts m"
  by (simp add: accounts_def stamped_def)

lemma deleteKey_accounts: "map_sum id accounts (deleteKey name fp m) = account_cmd (RemoveKey name fp) (accounts m)"
  unfolding deleteKey_def account_cmd.simps drop_key_first
  by (intro update_user_refines) (auto simp: account_of_def Let_def usable_ex split: if_splits)

lemma set_status_accounts: "map_sum id accounts (set_status name b m) = account_cmd (SetStatus name b) (accounts m)"
  unfolding set_status_def account_cmd.simps by (intro update_user_refines) (auto simp: account_of_def)

lemma lookup_user_account: 
  assumes "distinct (map us_Username (mf_Users m))" "accounts m name = Some (on, ks)"
  shows "\<exists>u. lookup_user m name = Some u \<and> us_Keys u = ks"
proof -
  obtain xs u ys where s: "mf_Users m = xs @ u # ys" "us_Username u = name" "account_of u = (on, ks)"
    using assms(2) by (cases rule: account_cases [of m name]) auto
  have "name \<notin> us_Username ` set xs" "name \<notin> us_Username ` set ys"
    using assms(1) unfolding s(1) s(2) [symmetric] by simp_all
  then have "filter (\<lambda>u. us_Username u = name) xs = []" "filter (\<lambda>u. us_Username u = name) ys = []"
    by (auto simp: filter_empty_conv)
  then have "filter (\<lambda>u. us_Username u = name) (mf_Users m) = [u]" using s by simp
  then show ?thesis using s(3) by (simp add: lookup_user_def account_of_def)
qed

text \<open>
  C37: The check of the enabling handler can be overtaken. When a user with one key is being enabled while the key is being
  removed, the check passes on the manifest it loaded; the removal, and then the enabling, both succeed; and the
  manifest in the file has the user enabled without any key.
\<close>

theorem enable_overtaken:
  assumes "manifest_Load io fs (as_store s) = Inr m" "keys_text m" "accounts m name = Some (False, [k])" "has_fingerprint fp k"
    and "io_tmp io \<noteq> as_store s" "io_read io (as_store s) = None"
    and "manifest_Update io (as_store s) (deleteKey name fp) fs = (tr1, None)"
    and "manifest_Update io (as_store s) (set_status name True) (last tr1) = (tr2, None)"
  shows "can_enable io fs s name = Inr ()
    \<and> (\<exists>m2. manifest_Load io (last tr2) (as_store s) = Inr m2 \<and> accounts m2 name = Some (True, []))"
proof -
  have d: "distinct (map us_Username (mf_Users m))"
    using manifest_loadLocked_ok [of io fs "as_store s" m] assms(1) by (simp add: manifest_Load_def manifest_ok_def)
  obtain u where u: "lookup_user m name = Some u" "us_Keys u = [k]" using lookup_user_account [OF d assms(3)] by auto
  have "usableKeys [k] \<noteq> 0"
    using assms(4) by (auto simp: has_fingerprint_def FingerprintOf_def split: sum.splits)
  then have "can_enable io fs s name = Inr ()" using assms(1) u by (simp add: can_enable_def)
  moreover obtain m1 where m1: "deleteKey name fp m = Inr m1" "manifest_Load io (last tr1) (as_store s) = Inr (stamped m1)" "keys_text (stamped m1)"
    by (rule manifest_Update_success [OF assms(7,1,5,6,2) deleteKey_keeps_text])
  obtain m2 where m2: "set_status name True (stamped m1) = Inr m2" "manifest_Load io (last tr2) (as_store s) = Inr (stamped m2)"
    by (rule manifest_Update_success [OF assms(8) m1(2) assms(5,6) m1(3) set_status_keeps_text])
  have "accounts m1 name = Some (False, [])"
    using deleteKey_accounts [of name fp m] m1(1) assms(3,4) by (auto simp: on_account_def without_first_def Let_def)
  then have "accounts m2 name = Some (True, [])"
    using set_status_accounts [of name True "stamped m1"] m2(1) by (auto simp: on_account_def)
  ultimately show ?thesis using m2(2) by auto
qed

definition demo_off :: "bool \<Rightarrow> string list \<Rightarrow> Manifest" where
  "demo_off b ks = \<lparr>mf_Version = 1, mf_Users = [\<lparr>us_Username = ''ann'', us_Enabled = b, us_Keys = ks\<rparr>]\<rparr>"

definition demo_off_fs :: cfs where
  "demo_off_fs = [''/users.json'' \<mapsto> \<lparr>cf_doc = manifest_encode (demo_off False [demo_key]), cf_mode = 384, cf_gid = 0\<rparr>]"

lemma demo_off_ok: "manifest_ok True (demo_off b [])" "manifest_ok True (demo_off b [demo_key])" "keys_text (demo_off b [demo_key])"
proof -
  have "ValidateUsername ''ann'' = None" "valid_utf8 demo_key" by code_simp+
  then show "manifest_ok True (demo_off b [])" "manifest_ok True (demo_off b [demo_key])" "keys_text (demo_off b [demo_key])"
    using demo_key_valid by (simp_all add: manifest_ok_def demo_off_def valid_key_def demo_key_def keys_text_def)
qed

theorem enable_overtaken_witness:
  "\<exists>tr1 tr2 m2. manifest_Update io_ok ''/users.json'' (deleteKey ''ann'' (''SHA256:'' @ fingerprintSHA256 demo_blob)) demo_off_fs = (tr1, None)
     \<and> manifest_Update io_ok ''/users.json'' (set_status ''ann'' True) (last tr1) = (tr2, None)
     \<and> manifest_Load io_ok (last tr2) ''/users.json'' = Inr m2 \<and> accounts m2 ''ann'' = Some (True, [])"
proof -
  let ?fp = "''SHA256:'' @ fingerprintSHA256 demo_blob" and ?path = "''/users.json''"
  have fp: "has_fingerprint ?fp demo_key" using demo_key_valid by (simp add: has_fingerprint_def FingerprintOf_def demo_key_def)
  have l: "manifest_Load io_ok demo_off_fs ?path = Inr (demo_off False [demo_key])"
    by (intro manifest_Load_new demo_off_ok) (simp add: ReadFile_def io_ok_def demo_off_fs_def)
  have del: "deleteKey ''ann'' ?fp (demo_off False [demo_key]) = Inr (demo_off False [])"
    using fp by (simp add: deleteKey_def on_users_def demo_off_def Let_def)
  have on: "set_status ''ann'' True (demo_off False []) = Inr (demo_off True [])"
    by (simp add: set_status_def on_users_def demo_off_def)
  have v: "(demo_off b ks)\<lparr>mf_Version := ManifestVersion\<rparr> = demo_off b ks" for b ks by (simp add: demo_off_def ManifestVersion_def)
  have up: "manifest_Update io_ok ?path fn fs = manifest_writeLocked io_ok ?path (demo_off b []) fs"
    if "manifest_Load io_ok fs ?path = Inr m" "fn m = Inr (demo_off b [])" for fn m b fs
    using that demo_off_ok(1) [of b] validateManifest_None [of "demo_off b []" True]
    by (simp add: manifest_Update_def manifest_Load_def v Let_def)
  have ok: "snd (manifest_writeLocked io_ok ?path m fs) = None" for m fs
    by (simp add: manifest_writeLocked_result write_private_def io_ok_def run_calls_Cons call_effects)
  obtain tr1 where w1: "manifest_Update io_ok ?path (deleteKey ''ann'' ?fp) demo_off_fs = (tr1, None)"
    using up [where fn = "deleteKey ''ann'' ?fp" and b = False, OF l del] ok by (metis prod.collapse)
  have io: "io_tmp io_ok \<noteq> ?path" "io_read io_ok ?path = None" by (simp_all add: io_ok_def)
  obtain m1 where "manifest_Load io_ok (last tr1) ?path = Inr (stamped m1)" "deleteKey ''ann'' ?fp (demo_off False [demo_key]) = Inr m1"
    by (rule manifest_Update_success [OF w1 l io demo_off_ok(3) deleteKey_keeps_text])
  then have l1: "manifest_Load io_ok (last tr1) ?path = Inr (demo_off False [])" using del by (simp add: stamped_def demo_off_def)
  obtain tr2 where w2: "manifest_Update io_ok ?path (set_status ''ann'' True) (last tr1) = (tr2, None)"
    using up [where fn = "set_status ''ann'' True" and b = True, OF l1 on] ok by (metis prod.collapse)
  let ?s = "demo_pending"
  have s: "as_store ?s = ?path" by (simp add: demo_pending_def demo_aserver_def)
  have "accounts (demo_off False [demo_key]) ''ann'' = Some (False, [demo_key])" by (simp add: accounts_def demo_off_def account_of_def)
  then show ?thesis
    using enable_overtaken [of io_ok demo_off_fs ?s "demo_off False [demo_key]" "''ann''" demo_key ?fp tr1 tr2] l w1 w2 io demo_off_ok(3) fp
    by (auto simp: s)
qed

end
