(* ===== verification/Link_Types.thy ===== *)
theory Link_Types
  imports Server_Links Admin_Props
begin

text \<open>
  The type of the stored links. The file of the links is read and written by both services, and
  neither checks what it reads. The states here are those of the whole installation: the files, and the
  two services with the links they hold in memory; the invariant says which links can ever be in them.
\<close>

section \<open>The type of a link\<close>

text \<open>
  An identifier that can stand in a URL and in JSON as it is, no password or a hash that bcrypt made, a scope that
  the listing understands, a creation time in whole seconds. \<open>made\<close> tells the hashes that bcrypt can make.
\<close>

definition typed_scope :: "Scope \<Rightarrow> bool" where
  "typed_scope sc \<longleftrightarrow> sp_Type sc = ScopeAdmin \<or> (sp_Type sc = ScopeUser \<and> ValidUsername (sp_User sc))"

definition typed_link :: "(string \<Rightarrow> bool) \<Rightarrow> Link \<Rightarrow> bool" where
  "typed_link made l \<longleftrightarrow> set (lk_ID l) \<subseteq> set url_alphabet \<and> (HasPassword l \<longrightarrow> made (lk_PasswordHash l))
     \<and> typed_scope (lk_Scope l) \<and> lk_CreatedBy l = ''admin'' \<and> lk_CreatedAt l mod second = 0"

definition typed_table :: "(string \<Rightarrow> bool) \<Rightarrow> (string \<times> Link) list \<Rightarrow> bool" where
  "typed_table made al \<longleftrightarrow> distinct (keys_of al) \<and> (\<forall>(k, l) \<in> set al. k = lk_ID l \<and> typed_link made l)"

text \<open>What is in a file: no file, or a table of typed links.\<close>

definition typed_file :: "(string \<Rightarrow> bool) \<Rightarrow> cfile option \<Rightarrow> bool" where
  "typed_file made f \<longleftrightarrow> (case f of None \<Rightarrow> True
     | Some c \<Rightarrow> (\<exists>al. links_decode (cf_doc c) = Some al \<and> typed_table made al))"

section \<open>Through the file\<close>

text \<open>What an encoded link is read back as, whatever bytes it has.\<close>

definition fix_link :: "Link \<Rightarrow> Link" where
  "fix_link l = l\<lparr>lk_ID := fix_utf8 (lk_ID l), lk_PasswordHash := fix_utf8 (lk_PasswordHash l),
     lk_Scope := \<lparr>sp_Type = fix_utf8 (sp_Type (lk_Scope l)), sp_User = fix_utf8 (sp_User (lk_Scope l))\<rparr>,
     lk_CreatedBy := fix_utf8 (lk_CreatedBy l), lk_Description := fix_utf8 (lk_Description l)\<rparr>"

lemma fix_utf8_Nil [simp]: "fix_utf8 [] = []"
  by (rule valid_utf8_ascii) simp

lemma dec_enc_scope_any:
  "decode_struct scope_fields (enc_scope s) \<lparr>sp_Type = [], sp_User = []\<rparr>
     = Some \<lparr>sp_Type = fix_utf8 (sp_Type s), sp_User = fix_utf8 (sp_User s)\<rparr>"
  by (simp add: enc_scope_def decode_struct_def scope_fields_def find_field_def omit_empty_def dec_string_def enc_string_def)

lemma dec_enc_link_any:
  assumes "enc_link l = Some j"
  shows "dec_link j = Some (fix_link l)"
proof -
  from assms obtain c where c: "MarshalTime (lk_CreatedAt l) = Some c"
    by (auto simp: enc_link_def split: option.splits)
  note tc = UnmarshalTime_MarshalTime [OF c]
  have ex: "lk_ExpiresAt l = None \<or> (\<exists>t e. lk_ExpiresAt l = Some t \<and> MarshalTime t = Some e \<and> UnmarshalTime e = Some t)"
    using assms c UnmarshalTime_MarshalTime by (auto simp: enc_link_def split: option.splits)
  show ?thesis
    using assms ex c tc dec_enc_scope_any [of "lk_Scope l"]
    unfolding dec_link_def
    by (auto simp: enc_link_def decode_struct_def find_link_field zero_link_def omit_empty_def fix_link_def
        json_dec_defs enc_string_def dec_scope_def decode_members_append)
qed

lemma ascii_name: "usernamePattern n \<Longrightarrow> valid_utf8 n"
  using usernamePattern_chars [of n]
  by (intro valid_utf8_ascii) (auto simp: list_all_iff lower_letter_def is_digit_def in_range_def)

lemma ascii_ident: "set i \<subseteq> set url_alphabet \<Longrightarrow> valid_utf8 i"
proof (intro valid_utf8_ascii)
  assume i: "set i \<subseteq> set url_alphabet"
  have "ascii url_alphabet" by code_simp
  then show "ascii i" using i by (auto simp: list_all_iff)
qed

lemma typed_fix:
  assumes "typed_link made l" "\<And>h. made h \<Longrightarrow> valid_utf8 h"
  shows "typed_link made (fix_link l)" "lk_ID (fix_link l) = lk_ID l"
proof -
  have "valid_utf8 ''admin''" "valid_utf8 ''user''" by code_simp+
  moreover have "valid_utf8 (lk_PasswordHash l)"
    using assms by (cases "HasPassword l") (auto simp: typed_link_def HasPassword_def)
  ultimately show "typed_link made (fix_link l)" "lk_ID (fix_link l) = lk_ID l"
    using assms ascii_ident [of "lk_ID l"] ascii_name [of "sp_User (lk_Scope l)"]
    by (auto simp: typed_link_def typed_scope_def fix_link_def HasPassword_def ScopeAdmin_def ScopeUser_def ValidUsername_def)
qed

lemma typed_decode:
  assumes "links_encode al = Some d" "typed_table made al" "\<And>h. made h \<Longrightarrow> valid_utf8 h"
  shows "\<exists>al'. links_decode d = Some al' \<and> typed_table made al'"
proof -
  let ?al = "sort_key fst al" and ?fix = "\<lambda>(k, l). (k, fix_link l)"
  have d: "d = Doc (JObj [(''links'', JObj (map (\<lambda>(k, l). (fix_utf8 k, the (enc_link l))) ?al))])"
    and enc: "list_all (\<lambda>(k, l). enc_link l \<noteq> None) al"
    using assms(1) by (auto simp: links_encode_def split: if_splits)
  have row: "valid_utf8 k" "dec_link (the (enc_link l)) = Some (fix_link l)" "k = lk_ID (fix_link l)" "typed_link made (fix_link l)"
    if "(k, l) \<in> set al" for k l
  proof -
    have l: "k = lk_ID l" "typed_link made l" "enc_link l \<noteq> None" using that assms(2) enc by (auto simp: typed_table_def list_all_iff)
    show "valid_utf8 k" using l(1,2) ascii_ident by (auto simp: typed_link_def)
    show "dec_link (the (enc_link l)) = Some (fix_link l)" using l(3) dec_enc_link_any by auto
    show "k = lk_ID (fix_link l)" "typed_link made (fix_link l)" using typed_fix [OF l(2) assms(3)] l(1) by auto
  qed
  have keys: "keys_of (map ?fix ?al) = keys_of ?al" by (simp add: case_prod_unfold comp_def)
  have dist0: "distinct (keys_of ?al)" using assms(2) distinct_sort_key_fst [of al] by (simp add: typed_table_def)
  then have dist: "distinct (keys_of (map ?fix ?al))" unfolding keys .
  have "dec_map_members dec_link (map (\<lambda>(k, l). (fix_utf8 k, the (enc_link l))) ?al) [] = Some (map ?fix ?al)"
  proof -
    have step: "dec_map_members dec_link (map (\<lambda>(k, l). (fix_utf8 k, the (enc_link l))) kvs) acc = Some (acc @ map ?fix kvs)"
      if "set kvs \<subseteq> set al" "distinct (keys_of (acc @ kvs))" for kvs acc
      using that
    proof (induction kvs arbitrary: acc)
      case (Cons x kvs)
      obtain k l where x: "x = (k, l)" by (cases x)
      have r: "valid_utf8 k" "dec_link (the (enc_link l)) = Some (fix_link l)" using row [of k l] Cons.prems(1) x by auto
      have "k \<notin> set (keys_of acc)" using Cons.prems(2) x by auto
      then have "AList.update k (fix_link l) acc = acc @ [(k, fix_link l)]" by (induction acc) auto
      then show ?case using Cons.IH [of "acc @ [(k, fix_link l)]"] Cons.prems x r by auto
    qed simp
    show ?thesis using step [of ?al "[]"] dist0 by (simp del: map_map)
  qed
  then have "links_decode d = Some (map ?fix ?al)"
    unfolding d by (simp add: links_decode_def decode_struct_def find_field_def dec_links_def)
  moreover have "typed_table made (map ?fix ?al)"
    unfolding typed_table_def using dist row(3,4) by auto
  ultimately show ?thesis by blast
qed

section \<open>Through the operations\<close>

text \<open>A store and a trace of the files of an operation that are typed.\<close>

definition typed_out :: "(string \<Rightarrow> bool) \<Rightarrow> string \<Rightarrow> LinkStore \<Rightarrow> cfs list \<Rightarrow> bool" where
  "typed_out made p ls tr \<longleftrightarrow> typed_table made (ls_links ls) \<and> ls_path ls = p \<and> tr \<noteq> [] \<and> (\<forall>st \<in> set tr. typed_file made (st p))"

lemma typed_update: "typed_table made al \<Longrightarrow> typed_link made l \<Longrightarrow> typed_table made (AList.update (lk_ID l) l al)"
proof -
  assume t: "typed_table made al" "typed_link made l"
  have d: "distinct (keys_of (AList.update (lk_ID l) l al))" using t(1) by (simp add: typed_table_def distinct_update)
  have "k = lk_ID x \<and> typed_link made x" if "(k, x) \<in> set (AList.update (lk_ID l) l al)" for k x
  proof -
    have "map_of (AList.update (lk_ID l) l al) k = Some x" by (rule map_of_is_SomeI [OF d that])
    then have "(k = lk_ID l \<and> x = l) \<or> map_of al k = Some x" by (auto simp: update_conv' split: if_splits)
    then show ?thesis using t by (auto simp: typed_table_def dest: map_of_SomeD)
  qed
  then show ?thesis using d by (auto simp: typed_table_def)
qed

lemma typed_delete: "typed_table made al \<Longrightarrow> typed_table made (AList.delete k al)"
  using distinct_delete [of al k] by (auto simp: typed_table_def AList.delete_eq)

lemma typed_filter: "typed_table made al \<Longrightarrow> typed_table made (filter P al)"
  by (auto simp: typed_table_def distinct_keys_filter)

lemma typed_load:
  "typed_file made (fs (ls_path s)) \<Longrightarrow> typed_table made (ls_links s) \<Longrightarrow> typed_table made (ls_links (fst (links_Load io fs s)))"
  by (auto simp: links_Load_def ReadFile_def typed_file_def typed_table_def split: option.splits sum.splits)

lemma typed_loaded:
  "typed_file made (fs (ls_path t)) \<Longrightarrow> links_Load io fs t = (ls, None) \<Longrightarrow> typed_table made (ls_links ls)"
  by (auto simp: links_Load_def ReadFile_def typed_file_def typed_table_def split: option.splits sum.splits if_splits)

lemma links_Load_path [simp]: "ls_path (fst (links_Load io fs s)) = ls_path s"
  by (simp add: links_Load_def split: sum.split option.split)

lemma typed_save:
  assumes "\<And>h. made h \<Longrightarrow> valid_utf8 h" "io_tmp io \<noteq> ls_path s" "typed_file made (fs (ls_path s))" "typed_table made (ls_links s)"
    and "saveLocked io now fs s = (s', tr, e)"
  shows "typed_out made (ls_path s) s' tr"
proof -
  let ?al = "filter (\<lambda>(i, l). \<not> Expired l now) (ls_links s)"
  have al: "typed_table made ?al" using assms(4) by (rule typed_filter)
  have s': "s' = s\<lparr>ls_links := ?al\<rparr>" using saveLocked_state [of io now fs s] assms(5) by simp
  consider "tr = [fs]" | raw where "links_encode ?al = Some raw" "tr = fst (write_shared io (ls_path s) raw fs)"
    using assms(5) by (auto simp: saveLocked_def Let_def split: option.splits prod.splits)
  then have "tr \<noteq> [] \<and> (\<forall>st \<in> set tr. typed_file made (st (ls_path s)))"
  proof cases
    case 1
    then show ?thesis using assms(3) by simp
  next
    case (2 raw)
    have "typed_file made (st (ls_path s))" if "st \<in> set tr" for st
      using shared_file.observed [OF assms(2), of st raw fs] that 2(2) assms(3) typed_decode [OF 2(1) al assms(1)]
      by (auto simp: typed_file_def)
    then show ?thesis using 2(2) shared_file.some_state by simp
  qed
  then show ?thesis using s' al by (simp add: typed_out_def)
qed

text \<open>The requests that the handlers make.\<close>

fun typed_request :: "(string \<Rightarrow> bool) \<Rightarrow> link_request \<Rightarrow> bool" where
  "typed_request made (ReqCreate l) = typed_link made l"
| "typed_request made (ReqUpdate i m) = (\<forall>l l'. typed_link made l \<longrightarrow> m l = Inr l' \<longrightarrow> typed_link made l' \<and> lk_ID l' = lk_ID l)"
| "typed_request made (ReqDelete i) = True"

lemma typed_links_request:
  assumes "\<And>h. made h \<Longrightarrow> valid_utf8 h" "io_tmp io \<noteq> ls_path s" "typed_file made (fs (ls_path s))" "typed_table made (ls_links s)"
    and "links_request io now fs r s = (s', tr, e)" "typed_request made r"
  shows "typed_out made (ls_path s) s' tr"
proof -
  have same: "typed_out made (ls_path s) s [fs]" using assms(3,4) by (simp add: typed_out_def)
  have save: "typed_out made (ls_path s) s' tr" if "saveLocked io now fs (s\<lparr>ls_links := al\<rparr>) = (s', tr, e)" "typed_table made al" for al
    using typed_save [of made io "s\<lparr>ls_links := al\<rparr>", OF assms(1)] that assms(2,3) by simp
  show ?thesis
  proof (cases r)
    case (ReqCreate l)
    then show ?thesis using assms(5,6) same save typed_update [OF assms(4), of l] by (auto simp: links_Create_def split: if_splits)
  next
    case (ReqUpdate i m)
    show ?thesis
    proof (cases "map_of (ls_links s) i")
      case (Some l)
      have l: "i = lk_ID l" "typed_link made l" using Some assms(4) by (auto simp: typed_table_def dest: map_of_SomeD)
      show ?thesis
      proof (cases "m l")
        case (Inr l')
        have "typed_link made l' \<and> lk_ID l' = lk_ID l"
          using assms(6) l(2) Inr unfolding ReqUpdate typed_request.simps by blast
        then have "typed_table made (AList.update i l' (ls_links s))" using typed_update [OF assms(4), of l'] l(1) by simp
        moreover have "saveLocked io now fs (s\<lparr>ls_links := AList.update i l' (ls_links s)\<rparr>) = (s', tr, e)"
          using assms(5) ReqUpdate Some Inr by (simp add: links_Update_def)
        ultimately show ?thesis by (intro save)
      qed (use assms(5) Some same in \<open>auto simp: links_Update_def ReqUpdate\<close>)
    qed (use assms(5) same in \<open>auto simp: links_Update_def ReqUpdate\<close>)
  next
    case (ReqDelete i)
    then show ?thesis using assms(5) save typed_delete [OF assms(4), of i] by (simp add: links_Delete_def)
  qed
qed

section \<open>The file-sharing service\<close>

lemma truncated: "truncate_second t mod second = 0"
  by (simp add: truncate_second_def)

lemma valid_scope_typed: "scope_Validate sc = None \<Longrightarrow> typed_scope sc"
  by (auto simp: scope_Validate_def typed_scope_def split: if_splits)

definition typed_world :: "(string \<Rightarrow> bool) \<Rightarrow> string \<Rightarrow> World \<Rightarrow> bool" where
  "typed_world made p w \<longleftrightarrow> io_tmp (w_io w) \<noteq> p \<and> typed_file made (w_files w p) \<and> (\<forall>pw h. w_gen w pw = Some h \<longrightarrow> made h)"

lemma create_input_typed:
  assumes "typed_world made p w" "create_input w r s = Inr (req, hash)" "NewID rnd = Some i"
  shows "typed_link made (create_candidate w req hash i)"
proof -
  have "typed_scope (cr_Scope req)" "hash = [] \<or> made hash"
    using assms(1,2) valid_scope_typed [of "cr_Scope req"]
    by (auto simp: create_input_def bind_res_Inr clear_def need_def ensure_def map_err_def HashPassword_def typed_world_def
        split: option.splits if_splits sum.splits)
  moreover have "set i \<subseteq> set url_alphabet" using assms(3) url64.enc_alphabet by (auto simp: NewID_def)
  ultimately show ?thesis
    by (auto simp: typed_link_def create_candidate_def HasPassword_def truncated)
qed

lemma createLoop_typed:
  assumes "\<And>h. made h \<Longrightarrow> valid_utf8 h" "typed_world made p w" "\<And>rnd i. NewID rnd = Some i \<Longrightarrow> typed_link made (cand i)"
  shows "typed_table made (ls_links ls) \<Longrightarrow> ls_path ls = p \<Longrightarrow> createLoop n j w cand ls = (ls', tr, res) \<Longrightarrow> typed_out made p ls' tr"
proof (induction n arbitrary: j ls)
  case 0
  then show ?case using assms(2) by (auto simp: typed_out_def typed_world_def)
next
  case (Suc n)
  show ?case
  proof (cases "NewID (w_rand w j)")
    case None
    then show ?thesis using Suc.prems assms(2) by (auto simp: typed_out_def typed_world_def)
  next
    case (Some i)
    obtain ls1 tr1 e where c: "links_Create (w_io w) (w_now w) (w_files w) (cand i) ls = (ls1, tr1, e)" by (metis prod_cases3)
    have t: "typed_out made p ls1 tr1"
      using typed_links_request [OF assms(1), where io = "w_io w" and s = ls and r = "ReqCreate (cand i)"]
        c Suc.prems(1,2) assms(2) assms(3) [OF Some] by (auto simp: typed_world_def)
    then have "typed_table made (ls_links ls1)" "ls_path ls1 = p" by (simp_all add: typed_out_def)
    from Suc.IH [OF this] show ?thesis using Suc.prems(3) Some c t by (auto split: option.splits if_splits)
  qed
qed

lemma patch_password_typed:
  assumes "typed_world made p w" "patch_password w pw l = Inr l'"
  obtains h where "l' = l\<lparr>lk_PasswordHash := h\<rparr>" "h = [] \<or> made h \<or> h = lk_PasswordHash l"
proof (cases "l' = l")
  case True
  have "l = l\<lparr>lk_PasswordHash := lk_PasswordHash l\<rparr>" by simp
  then show ?thesis using True that by metis
next
  case False
  then obtain h x where "l' = l\<lparr>lk_PasswordHash := h\<rparr>" "h = [] \<or> w_gen w x = Some h"
    using assms(2) by (auto simp: patch_password_def HashPassword_def split: option.splits if_splits)
  then show ?thesis using that assms(1) by (auto simp: typed_world_def)
qed

lemma patch_link_typed:
  assumes "typed_world made p w" "typed_link made l" "patch_link w req l = Inr l'"
  shows "typed_link made l' \<and> lk_ID l' = lk_ID l"
proof -
  obtain l1 l2 where p: "patch_password w (pr_Password req) l = Inr l1" "patch_expiry w (pr_ExpiresAt req) l1 = Inr l2"
    and l': "l' = l2 \<or> (\<exists>d. l' = l2\<lparr>lk_Description := d\<rparr>)"
    using assms(3) by (auto simp: patch_link_def bind_res_Inr split: option.splits)
  obtain h where h: "l1 = l\<lparr>lk_PasswordHash := h\<rparr>" "h = [] \<or> made h \<or> h = lk_PasswordHash l"
    using patch_password_typed [OF assms(1) p(1)] by blast
  have "l2 = l1 \<or> (\<exists>e. l2 = l1\<lparr>lk_ExpiresAt := e\<rparr>)"
    using p(2) by (auto simp: patch_expiry_def split: option.splits if_splits)
  then show ?thesis using l' h assms(2) by (auto simp: typed_link_def HasPassword_def)
qed

lemma ServeHTTP_typed:
  assumes "\<And>h. made h \<Longrightarrow> valid_utf8 h" "typed_world made (ls_path (sv_links s)) w" "typed_table made (ls_links (sv_links s))"
    and "ServeHTTP w r s = (s', tr, resp)"
  shows "typed_out made (ls_path (sv_links s)) (sv_links s') tr"
proof -
  let ?p = "ls_path (sv_links s)" and ?s = "reloadLinks w s"
  have w: "io_tmp (w_io w) \<noteq> ?p" "typed_file made (w_files w ?p)" using assms(2) by (simp_all add: typed_world_def)
  have path: "ls_path (sv_links ?s) = ?p" by (simp add: reloadLinks_def)
  have loaded: "typed_table made (ls_links (sv_links ?s))" using typed_load [of made "w_files w" "sv_links s"] w(2) assms(3) by (simp add: reloadLinks_def)
  have idle: "typed_out made ?p (sv_links s) [w_files w]" "typed_out made ?p (sv_links ?s) [w_files w]"
    using assms(3) loaded path w(2) by (simp_all add: typed_out_def)
  note op = typed_links_request [OF assms(1), where io = "w_io w" and fs = "w_files w" and s = "sv_links ?s", unfolded path, OF _ w loaded]
  show ?thesis
  proof (cases "route_of (rq_method r) (rq_segs r)")
    case RLinksCreate
    have c: "createLoop 3 0 w (create_candidate w req hash) (sv_links ?s) = (ls', tr', res) \<Longrightarrow> typed_out made ?p ls' tr'"
      if "create_input w r ?s = Inr (req, hash)" for req hash ls' tr' res
      by (rule createLoop_typed [OF assms(1,2) create_input_typed [OF assms(2) that] loaded path])
    then show ?thesis
      using assms(4) idle(2) unfolding ServeHTTP_def RLinksCreate route.case handleLinksCreate_def Let_def
      by (auto split: sum.splits prod.splits)
  next
    case (RLinkPatch i)
    have c: "links_Update (w_io w) (w_now w) (w_files w) i (patch_link w req) (sv_links ?s) = (ls', tr', e) \<Longrightarrow> typed_out made ?p ls' tr'" for req ls' tr' e
      by (rule op [where r = "ReqUpdate i (patch_link w req)"]) (use assms(1) patch_link_typed [OF assms(2)] in auto)
    then show ?thesis
      using assms(4) idle(2) unfolding ServeHTTP_def RLinkPatch route.case handleLinkPatch_def Let_def
      by (auto split: option.splits prod.splits)
  next
    case (RLinkDelete i)
    have c: "links_Delete (w_io w) (w_now w) (w_files w) i (sv_links ?s) = (ls', tr', e) \<Longrightarrow> typed_out made ?p ls' tr'" for ls' tr' e
      by (rule op [where r = "ReqDelete i"]) (use assms(1) in auto)
    then show ?thesis
      using assms(4) idle(2) unfolding ServeHTTP_def RLinkDelete route.case handleLinkDelete_def Let_def
      by (auto split: option.splits prod.splits)
  qed (use assms(4) idle in \<open>auto simp: ServeHTTP_def handleHealth_def handleEmpty_def handleDownload_def handleLinksList_def handleLinkGet_def
      handleLinkPage_def handleLinkAuth_def handleLinkFiles_def Let_def split: option.splits prod.splits sum.splits if_splits\<close>)
qed

section \<open>The admin service\<close>

text \<open>A handler that leaves the links alone, in memory and in the file.\<close>

definition quiet :: "string \<Rightarrow> cfs \<Rightarrow> AdminServer \<Rightarrow> ahandled \<Rightarrow> bool" where
  "quiet p fs s h \<longleftrightarrow> (case h of (s', tr, resp) \<Rightarrow>
     as_links s' = as_links s \<and> tr \<noteq> [] \<and> (\<forall>st \<in> set tr. st p = fs p))"

definition apart :: "string \<Rightarrow> AdminWorld \<Rightarrow> AdminServer \<Rightarrow> bool" where
  "apart p w s \<longleftrightarrow> (\<forall>i. io_tmp (aw_io w i) \<noteq> p) \<and> as_store s \<noteq> p \<and> notesPath (as_store s) \<noteq> p \<and> sharedConfigPath s \<noteq> p"

lemma quiet_same [simp]: "quiet p (aw_files w) s (s', [aw_files w], resp) \<longleftrightarrow> as_links s' = as_links s"
  by (simp add: quiet_def)

lemma with_auth_quiet:
  assumes "\<And>sess a. quiet p (aw_files w) s (k sess (s\<lparr>as_auth := a\<rparr>))"
  shows "quiet p (aw_files w) s (with_auth w r k s)"
proof -
  obtain a where a: "fst (requireAuth w r s) = s\<lparr>as_auth := a\<rparr>" using requireAuth_server by blast
  show ?thesis
  proof (cases "requireAuth w r s")
    case (Pair s1 res)
    then show ?thesis using a assms by (cases res) (auto simp: with_auth_def)
  qed
qed

definition still :: "string \<Rightarrow> cfs \<Rightarrow> cfs list \<Rightarrow> bool" where
  "still p fs tr \<longleftrightarrow> tr \<noteq> [] \<and> (\<forall>st \<in> set tr. st p = fs p)"

lemma quiet_still: "quiet p fs s (s', tr, resp) \<longleftrightarrow> as_links s' = as_links s \<and> still p fs tr"
  by (simp add: quiet_def still_def)

lemma still_single [simp]: "still p fs [fs]"
  by (simp add: still_def)

lemma still_append: "still p fs tr \<Longrightarrow> (\<And>st. st \<in> set tr' \<Longrightarrow> st p = last tr p) \<Longrightarrow> still p fs (tr @ tr')"
  unfolding still_def using last_in_set by (metis Un_iff append_is_Nil_conv set_append)

lemma manifest_Update_still:
  assumes "manifest_Update io path fn fs = (tr, e)" "p \<noteq> path" "p \<noteq> io_tmp io"
  shows "still p fs tr"
proof (cases rule: manifest_Update_cases [of io path fn fs])
  case (refused e')
  then show ?thesis using assms(1) by simp
next
  case (written m m')
  then have "tr = fst (write_private io path (manifest_encode (stamped m')) fs)"
    using assms(1) by (metis fst_conv manifest_writeLocked_result(1))
  then show ?thesis using private_file.others [OF assms(2,3)] private_file.some_state by (auto simp: still_def)
qed

lemma SetNote_still:
  assumes "SetNote io path u fp nt fs = (tr, e)" "p \<noteq> notesPath path" "p \<noteq> io_tmp io"
  shows "still p fs tr"
proof -
  have "tr \<noteq> []" using assms(1) trace_nonempty(2)
    by (auto simp: SetNote_def split: sum.splits if_splits option.splits) (metis fst_conv)+
  then show ?thesis using note_ops_frame(1) [OF assms(2,3), of _ u fp nt fs] assms(1) by (auto simp: still_def)
qed

lemma RemoveInvalidKeys_still:
  assumes "RemoveInvalidKeys io path fs = (tr, e)" "p \<noteq> path" "p \<noteq> io_tmp io"
  shows "still p fs tr"
proof -
  have w: "still p fs (fst (manifest_writeLocked io path m fs))" for m
    using private_file.others [OF assms(2,3)] private_file.some_state
    by (auto simp: still_def manifest_writeLocked_result)
  show ?thesis
  proof (cases "manifest_loadLocked io fs path")
    case (Inl x)
    then show ?thesis using assms(1) by (simp add: RemoveInvalidKeys_def) auto
  next
    case (Inr m)
    then show ?thesis using assms(1) RemoveInvalidKeys_loaded [OF Inr] w [of "repaired_manifest m"]
      by (auto split: if_splits prod.splits option.splits)
  qed
qed

lemma ApplySettings_still:
  assumes "ApplySettings io path vals fs = (tr, e)" "p \<noteq> path" "p \<noteq> io_tmp io"
  shows "still p fs tr"
proof -
  have "tr \<noteq> []" using assms(1) shared_file.some_state
    by (auto simp: ApplySettings_def shared_Save_def case_prod_unfold split: sum.splits if_splits option.splits)
  moreover have "st p = fs p" if "st \<in> set tr" for st
    using ApplySettings_frame [OF assms(2,3), of st vals fs] assms(1) that by simp
  ultimately show ?thesis by (simp add: still_def)
qed

lemma offer_private_quiet: "quiet p fs s (offer_private w sess title u pk pub tr s') \<longleftrightarrow> as_links s' = as_links s \<and> still p fs tr"
  by (simp add: offer_private_def quiet_still Let_def split: option.split)

lemma handlers_quiet:
  assumes "apart p w s"
  shows "quiet p (aw_files w) s (handleCreate w r s)" "quiet p (aw_files w) s (handleAddKey w r s)"
    "quiet p (aw_files w) s (handleGenerateKey w r s)" "quiet p (aw_files w) s (handleDeleteKey w r s)"
    "quiet p (aw_files w) s (handleStatus w r s)" "quiet p (aw_files w) s (handleDelete w r s)"
    "quiet p (aw_files w) s (handleKeyNote w r s)" "quiet p (aw_files w) s (handleRemoveInvalidKeys w r s)"
    "quiet p (aw_files w) s (handleSettingsSave w r s)"
proof -
  have p: "p \<noteq> io_tmp (aw_io w i)" "p \<noteq> as_store s" "p \<noteq> notesPath (as_store s)" "p \<noteq> sharedConfigPath s" for i
    using assms by (auto simp: apart_def)
  have up: "still p (aw_files w) tr" if "manifest_Update (aw_io w 0) (as_store s) fn (aw_files w) = (tr, e)" for fn tr e
    using manifest_Update_still [OF that p(2,1)] .
  note note_frame = note_ops_frame(2) [OF p(3,1)] and prune_frame = prune_notes_frame [OF p(3,1)]
  note rik = RemoveInvalidKeys_still [OF _ p(2,1)]
  show "quiet p (aw_files w) s (handleCreate w r s)"
    unfolding handleCreate_def
    by (intro with_auth_quiet) (auto simp: Let_def quiet_still offer_private_quiet dest: up split: option.split sum.split prod.split)
  show "quiet p (aw_files w) s (handleAddKey w r s)"
    unfolding handleAddKey_def
    by (intro with_auth_quiet) (auto simp: Let_def quiet_still dest: up split: option.split sum.split prod.split)
  show "quiet p (aw_files w) s (handleGenerateKey w r s)"
    unfolding handleGenerateKey_def
    by (intro with_auth_quiet) (auto simp: Let_def quiet_still offer_private_quiet dest: up split: option.split sum.split prod.split)
  show "quiet p (aw_files w) s (handleDeleteKey w r s)"
    unfolding handleDeleteKey_def
    by (intro with_auth_quiet)
      (auto simp: Let_def quiet_still dest: up intro!: still_append note_frame split: option.split sum.split prod.split)
  show "quiet p (aw_files w) s (handleStatus w r s)"
    unfolding handleStatus_def
    by (intro with_auth_quiet) (auto simp: Let_def quiet_still dest: up split: option.split sum.split prod.split)
  show "quiet p (aw_files w) s (handleDelete w r s)"
    unfolding handleDelete_def
    by (intro with_auth_quiet)
      (auto simp: Let_def quiet_still dest: up intro!: still_append prune_frame split: option.split sum.split prod.split)
  show "quiet p (aw_files w) s (handleKeyNote w r s)"
    unfolding handleKeyNote_def
    by (intro with_auth_quiet)
      (auto simp: Let_def quiet_still dest: SetNote_still [OF _ p(3,1)] split: option.split sum.split prod.split)
  show "quiet p (aw_files w) s (handleRemoveInvalidKeys w r s)"
    unfolding handleRemoveInvalidKeys_def
    by (intro with_auth_quiet)
      (auto simp: quiet_still dest: rik intro!: still_append prune_frame split: option.split sum.split prod.split)
  show "quiet p (aw_files w) s (handleSettingsSave w r s)"
    using ApplySettings_still [OF _ p(4,1)] unfolding handleSettingsSave_def
    by (intro with_auth_quiet)
      (auto simp: Let_def quiet_still sharedConfigPath_def split: option.split sum.split prod.split)
qed

lemma handleLinkCreate_typed:
  assumes "\<And>h. made h \<Longrightarrow> valid_utf8 h" "typed_table made (ls_links (as_links s))" "ls_path (as_links s) = p"
    and "typed_file made (aw_files w p)" "io_tmp (aw_io w 0) \<noteq> p" "\<forall>pw h. aw_bcrypt w pw = Some h \<longrightarrow> made h"
    and "handleLinkCreate w r s = (s', tr, resp) \<or> admin_handleLinkDelete w r s = (s', tr, resp) \<or> handleLinks w r s = (s', tr, resp)"
  shows "typed_out made p (as_links s') tr"
proof -
  let ?s = "admin_reloadLinks w s"
  have path: "ls_path (as_links ?s) = p" using assms(3) by (simp add: admin_reloadLinks_def)
  have loaded: "typed_table made (ls_links (as_links ?s))"
    using typed_load [of made "aw_files w" "as_links s"] assms(2-4) by (simp add: admin_reloadLinks_def)
  have idle: "typed_out made p (as_links ?s) [aw_files w]" using loaded path assms(4) by (simp add: typed_out_def)
  note op = typed_links_request [OF assms(1), where io = "aw_io w 0" and fs = "aw_files w" and s = "as_links ?s", unfolded path, OF _ assms(5,4) loaded]
  have auth: "typed_out made p (as_links s') tr"
    if "with_auth w r k ?s = (s', tr, resp)" "\<And>sess a s' tr resp. k sess (?s\<lparr>as_auth := a\<rparr>) = (s', tr, resp) \<Longrightarrow> typed_out made p (as_links s') tr"
    for k
  proof -
    obtain a where a: "fst (requireAuth w r ?s) = ?s\<lparr>as_auth := a\<rparr>" using requireAuth_server by blast
    show ?thesis
    proof (cases "snd (requireAuth w r ?s)")
      case (Inl resp1)
      then show ?thesis using that(1) a idle by (cases "requireAuth w r ?s") (auto simp: with_auth_def)
    next
      case (Inr sess)
      then have "k sess (?s\<lparr>as_auth := a\<rparr>) = (s', tr, resp)" using that(1) a by (cases "requireAuth w r ?s") (simp add: with_auth_def)
      then show ?thesis by (rule that(2))
    qed
  qed
  have new: "typed_link made \<lparr>lk_ID = i, lk_PasswordHash = hash, lk_Scope = scope, lk_CreatedAt = truncate_second t,
       lk_ExpiresAt = ex, lk_CreatedBy = ''admin'', lk_Description = d\<rparr>"
    if "link_input w r = Inr (scope, hash, ex)" "NewID rnd = Some i" for scope hash ex rnd i t d
  proof -
    have "hash = [] \<or> made hash"
      using that(1) assms(6) by (auto simp: link_input_def Let_def bind_res_Inr HashPassword_def map_err_def split: if_splits sum.splits option.splits)
    moreover have "typed_scope scope"
      using that(1) by (auto simp: link_input_def Let_def bind_res_Inr ensure_def clear_def ValidateUsername_def typed_scope_def ValidUsername_def
          split: if_splits option.splits)
    ultimately show ?thesis using that(2) url64.enc_alphabet by (auto simp: typed_link_def HasPassword_def truncated NewID_def)
  qed
  have create: "links_Create (aw_io w 0) (aw_now w) (aw_files w) l (as_links ?s) = (ls', tr', e) \<Longrightarrow> typed_link made l \<Longrightarrow> typed_out made p ls' tr'"
    for l ls' tr' e by (rule op [where r = "ReqCreate l"]) (use assms(1) in auto)
  have delete: "links_Delete (aw_io w 0) (aw_now w) (aw_files w) i (as_links ?s) = (ls', tr', e) \<Longrightarrow> typed_out made p ls' tr'"
    for i ls' tr' e by (rule op [where r = "ReqDelete i"]) (use assms(1) in auto)
  from assms(7) show ?thesis
  proof (elim disjE)
    assume "handleLinkCreate w r s = (s', tr, resp)"
    then show ?thesis unfolding handleLinkCreate_def
      by (rule auth) (use idle new create in \<open>auto simp: Let_def split: if_splits sum.splits option.splits prod.splits\<close>)
  next
    assume "admin_handleLinkDelete w r s = (s', tr, resp)"
    then show ?thesis unfolding admin_handleLinkDelete_def
      by (rule auth) (use idle delete in \<open>auto simp: Let_def split: if_splits option.splits prod.splits\<close>)
  next
    assume "handleLinks w r s = (s', tr, resp)"
    then show ?thesis unfolding handleLinks_def by (rule auth) (use idle in auto)
  qed
qed

text \<open>
  The admin service checks the scope of its form by itself: a name beside the type \<open>admin\<close> is stored with the link,
  although \<open>Scope.Validate\<close> refuses such a scope.
\<close>

definition named_admin_form :: AdminRequest where
  "named_admin_form = (demo_arequest ''POST'' ''/links/create'')\<lparr>aq_form := [''scope_type'' \<mapsto> ''admin'', ''scope_user'' \<mapsto> ''ann'']\<rparr>"

lemma admin_scope_with_user:
  "link_input w named_admin_form = Inr (\<lparr>sp_Type = ''admin'', sp_User = ''ann''\<rparr>, [], None)"
  "scope_Validate \<lparr>sp_Type = ''admin'', sp_User = ''ann''\<rparr> = Some AdminScopeUser"
proof -
  have "TrimSpace ''admin'' = ''admin''" "TrimSpace ''ann'' = ''ann''" "TrimSpace [] = []" by code_simp+
  then show "link_input w named_admin_form = Inr (\<lparr>sp_Type = ''admin'', sp_User = ''ann''\<rparr>, [], None)"
    by (simp add: link_input_def named_admin_form_def FormValue_def bind_res_def ensure_def ScopeAdmin_def ScopeUser_def)
  show "scope_Validate \<lparr>sp_Type = ''admin'', sp_User = ''ann''\<rparr> = Some AdminScopeUser"
    by (simp add: scope_Validate_def ScopeAdmin_def)
qed

section \<open>The installation\<close>

text \<open>
  The states of an installation whose file of links, \<open>p\<close>, did not exist at first. Each service may be down or
  run in a state; it starts, serves requests, and may stop in any state of the files on the
  way; other processes leave the file of links alone.
\<close>

inductive installation :: "(string \<Rightarrow> bool) \<Rightarrow> string \<Rightarrow> cfs \<Rightarrow> Server option \<Rightarrow> AdminServer option \<Rightarrow> bool" for made p where
  fresh: "fs p = None \<Longrightarrow> installation made p fs None None"
| server_start: "installation made p (w_files w) x y \<Longrightarrow> server_run getenv w = Inr s \<Longrightarrow> ls_path (sv_links s) = p
    \<Longrightarrow> installation made p (w_files w) (Some s) y"
| admin_start: "installation made p (aw_files w) x y \<Longrightarrow> FJoin (ac_LinksDir cfg) ''links.json'' = p
    \<Longrightarrow> installation made p (aw_files w) x (Some (NewServer w cfg))"
| server_request: "installation made p (w_files w) (Some s) y \<Longrightarrow> io_tmp (w_io w) \<noteq> p \<Longrightarrow> \<forall>pw h. w_gen w pw = Some h \<longrightarrow> made h
    \<Longrightarrow> ServeHTTP w r s = (s', tr, resp) \<Longrightarrow> installation made p (last tr) (Some s') y"
| server_stop: "installation made p (w_files w) (Some s) y \<Longrightarrow> io_tmp (w_io w) \<noteq> p \<Longrightarrow> \<forall>pw h. w_gen w pw = Some h \<longrightarrow> made h
    \<Longrightarrow> ServeHTTP w r s = (s', tr, resp) \<Longrightarrow> st \<in> set tr \<Longrightarrow> installation made p st None y"
| admin_request: "installation made p (aw_files w) x (Some s) \<Longrightarrow> apart p w s \<Longrightarrow> \<forall>pw h. aw_bcrypt w pw = Some h \<longrightarrow> made h
    \<Longrightarrow> admin_ServeHTTP w r s = (s', tr, resp) \<Longrightarrow> installation made p (last tr) x (Some s')"
| admin_stop: "installation made p (aw_files w) x (Some s) \<Longrightarrow> apart p w s \<Longrightarrow> \<forall>pw h. aw_bcrypt w pw = Some h \<longrightarrow> made h
    \<Longrightarrow> admin_ServeHTTP w r s = (s', tr, resp) \<Longrightarrow> st \<in> set tr \<Longrightarrow> installation made p st x None"
| elsewhere: "installation made p fs x y \<Longrightarrow> fs' p = fs p \<Longrightarrow> installation made p fs' x y"

lemma admin_ServeHTTP_typed:
  assumes "\<And>h. made h \<Longrightarrow> valid_utf8 h" "typed_table made (ls_links (as_links s))" "ls_path (as_links s) = p"
    and "typed_file made (aw_files w p)" "apart p w s" "\<forall>pw h. aw_bcrypt w pw = Some h \<longrightarrow> made h"
    and "admin_ServeHTTP w r s = (s', tr, resp)"
  shows "typed_out made p (as_links s') tr"
proof -
  have q: "typed_out made p (as_links s') tr" if "quiet p (aw_files w) s (s', tr, resp)"
    using that assms(2-4) by (auto simp: quiet_def typed_out_def)
  have tmp: "io_tmp (aw_io w 0) \<noteq> p" using assms(5) by (simp add: apart_def)
  have others: "quiet p (aw_files w) s (admin_handleHealth w s)" "quiet p (aw_files w) s (handleIndex w r s)"
    "quiet p (aw_files w) s (handleLoginPage w r s)" "quiet p (aw_files w) s (handleLogin w r s)"
    "quiet p (aw_files w) s (handleLogout w r s)" "quiet p (aw_files w) s (admin_handleDownload w r s)"
    "quiet p (aw_files w) s (handleSettings w r s)"
  proof -
    show "quiet p (aw_files w) s (admin_handleHealth w s)" "quiet p (aw_files w) s (handleLoginPage w r s)"
      "quiet p (aw_files w) s (handleLogin w r s)" "quiet p (aw_files w) s (handleLogout w r s)"
      by (auto simp: admin_handleHealth_def handleLoginPage_def handleLogin_def handleLogout_def admin_current_def
          Let_def split: option.split prod.split bool.split)
    show "quiet p (aw_files w) s (handleIndex w r s)" "quiet p (aw_files w) s (handleSettings w r s)"
      "quiet p (aw_files w) s (admin_handleDownload w r s)"
      unfolding handleIndex_def handleSettings_def admin_handleDownload_def
      by (intro with_auth_quiet; simp add: Let_def split: option.split)+
  qed
  note links = handleLinkCreate_typed [OF assms(1-4) tmp assms(6), where r = r and s' = s' and tr = tr and resp = resp]
  show ?thesis
    using assms(7) q links handlers_quiet [OF assms(5), of r] others
    by (cases "admin_route (aq_method r) (aq_path r)") (auto simp: admin_ServeHTTP_def)
qed

text \<open>The invariant.\<close>

definition typed_state :: "(string \<Rightarrow> bool) \<Rightarrow> string \<Rightarrow> cfs \<Rightarrow> Server option \<Rightarrow> AdminServer option \<Rightarrow> bool" where
  "typed_state made p fs x y \<longleftrightarrow> typed_file made (fs p)
     \<and> (\<forall>s. x = Some s \<longrightarrow> typed_table made (ls_links (sv_links s)) \<and> ls_path (sv_links s) = p)
     \<and> (\<forall>s. y = Some s \<longrightarrow> typed_table made (ls_links (as_links s)) \<and> ls_path (as_links s) = p)"

lemma typed_new: "typed_table made (ls_links (links_NewStore dir))" "ls_path (links_NewStore dir) = FJoin dir ''links.json''"
  by (simp_all add: links_NewStore_def typed_table_def)

lemma server_run_links:
  assumes "server_run getenv w = Inr s"
  obtains dir where "sv_links s = fst (links_Load (w_io w) (w_files w) (links_NewStore dir))"
  using assms that by (auto simp: server_run_def Let_def server_New_def split: sum.splits prod.splits option.splits) (metis fst_conv)

lemma installation_typed:
  assumes "\<And>h. made h \<Longrightarrow> valid_utf8 h" "installation made p fs x y"
  shows "typed_state made p fs x y"
  using assms(2)
proof (induction rule: installation.induct)
  case (server_start w x y getenv s)
  obtain dir where dir: "sv_links s = fst (links_Load (w_io w) (w_files w) (links_NewStore dir))"
    using server_run_links [OF server_start(2)] .
  then show ?case
    using server_start typed_load [of made "w_files w" "links_NewStore dir" "w_io w"] typed_new [where dir = dir] by (auto simp: typed_state_def)
next
  case (admin_start w x y cfg)
  then show ?case
    using typed_load [of made "aw_files w" "links_NewStore (ac_LinksDir cfg)" "aw_io w 0"] typed_new [where dir = "ac_LinksDir cfg"]
    by (auto simp: typed_state_def NewServer_def)
next
  case (server_request w s y r s' tr resp)
  then have "typed_world made (ls_path (sv_links s)) w" "typed_table made (ls_links (sv_links s))" "ls_path (sv_links s) = p"
    by (auto simp: typed_state_def typed_world_def)
  then have "typed_out made p (sv_links s') tr" using ServeHTTP_typed [OF assms(1)] server_request(4) by blast
  then show ?case using server_request.IH by (auto simp: typed_state_def typed_out_def)
next
  case (server_stop w s y r s' tr resp st)
  then have "typed_world made (ls_path (sv_links s)) w" "typed_table made (ls_links (sv_links s))" "ls_path (sv_links s) = p"
    by (auto simp: typed_state_def typed_world_def)
  then have "typed_out made p (sv_links s') tr" using ServeHTTP_typed [OF assms(1)] server_stop(4) by blast
  then show ?case using server_stop by (auto simp: typed_state_def typed_out_def)
next
  case (admin_request w x s r s' tr resp)
  then have "typed_out made p (as_links s') tr"
    using admin_ServeHTTP_typed [OF assms(1) _ _ _ admin_request(2,3,4)] by (auto simp: typed_state_def)
  then show ?case using admin_request.IH by (auto simp: typed_state_def typed_out_def)
next
  case (admin_stop w x s r s' tr resp st)
  then have "typed_out made p (as_links s') tr"
    using admin_ServeHTTP_typed [OF assms(1) _ _ _ admin_stop(2,3,4)] by (auto simp: typed_state_def)
  then show ?case using admin_stop by (auto simp: typed_state_def typed_out_def)
qed (simp_all add: typed_state_def typed_file_def)

text \<open>
  C7: Every link there is has the right type. Whatever requests the two services have served on one file of links, in whatever
  order, with faults and with stops in the middle of a write, each link that a process loads from the file or that a service holds
  in memory is filed under its own identifier, which is URL-safe, has no password or a hash made by bcrypt,
  a scope the listing understands, and a creation time in whole seconds.
\<close>

theorem stored_links_typed:
  assumes "\<forall>h. made h \<longrightarrow> valid_utf8 h" "installation made p fs x y"
    and "(\<exists>io t. ls_path t = p \<and> links_Load io fs t = (ls, None)) \<or> (\<exists>s. x = Some s \<and> ls = sv_links s) \<or> (\<exists>s. y = Some s \<and> ls = as_links s)"
    and "links_Get i ls = Some l"
  shows "lk_ID l = i \<and> set i \<subseteq> set url_alphabet \<and> (HasPassword l \<longrightarrow> made (lk_PasswordHash l))
    \<and> (sp_Type (lk_Scope l) = ScopeAdmin \<or> sp_Type (lk_Scope l) = ScopeUser \<and> ValidUsername (sp_User (lk_Scope l)))
    \<and> truncate_second (lk_CreatedAt l) = lk_CreatedAt l"
proof -
  have st: "typed_state made p fs x y" using installation_typed [OF _ assms(2)] assms(1) by blast
  have "typed_table made (ls_links ls)" if "ls_path t = p" "links_Load io fs t = (ls, None)" for io t
    using that st typed_loaded by (auto simp: typed_state_def)
  then have "typed_table made (ls_links ls)" using assms(3) st by (auto simp: typed_state_def)
  then have "i = lk_ID l" "typed_link made l" using assms(4) by (auto simp: typed_table_def links_Get_def dest: map_of_SomeD)
  moreover have "truncate_second (lk_CreatedAt l) = lk_CreatedAt l"
    using calculation(2) by (auto simp: typed_link_def truncate_second_def)
  ultimately show ?thesis by (simp add: typed_link_def typed_scope_def)
qed

section \<open>An instance\<close>

definition bcrypt_text :: "string \<Rightarrow> bool" where
  "bcrypt_text h \<longleftrightarrow> length h = 60 \<and> ascii h \<and> HasPrefix h ''$2a$12$''"

definition fresh_world :: World where
  "fresh_world = one_world\<lparr>w_files := Map.empty, w_gen := (\<lambda>_. Some (''$2a$12$'' @ replicate 53 CHR ''x''))\<rparr>"

lemma fresh_boot: "server_run one_env fresh_world = Inr demo_server"
proof -
  have "loadFromEnv one_env = Inr demo_cfg" "store_Check (w_tree fresh_world) (store_New demo_cfg) = Inr ()"
    "links_Load (w_io fresh_world) (w_files fresh_world) (links_NewStore (LinksDir demo_cfg)) = (links_NewStore ''/links'', None)"
    by code_simp+
  then show ?thesis by (simp add: server_run_def Let_def demo_server_def)
qed

theorem stored_links_typed_witness:
  "\<exists>l. links_Get ''YWJjZGVmZ2hpamts'' (sv_links (fst (ServeHTTP fresh_world demo_create demo_server))) = Some l
     \<and> bcrypt_text (lk_PasswordHash l) \<and> ValidUsername (sp_User (lk_Scope l))"
proof -
  let ?h = "ServeHTTP fresh_world demo_create demo_server" and ?p = "''/links/links.json''"
  have "installation bcrypt_text ?p (w_files fresh_world) None None"
    by (rule installation.fresh) (simp add: fresh_world_def)
  moreover have "ls_path (sv_links demo_server) = ?p" by code_simp
  ultimately have up: "installation bcrypt_text ?p (w_files fresh_world) (Some demo_server) None"
    by (rule installation.server_start [OF _ fresh_boot])
  have gen: "\<forall>pw h. w_gen fresh_world pw = Some h \<longrightarrow> bcrypt_text h"
  proof -
    have "bcrypt_text (''$2a$12$'' @ replicate 53 CHR ''x'')" by code_simp
    then show ?thesis by (simp add: fresh_world_def)
  qed
  have "io_tmp (w_io fresh_world) \<noteq> ?p" by code_simp
  from installation.server_request [OF up this gen, of demo_create "fst ?h" "fst (snd ?h)" "snd (snd ?h)"]
  have run: "installation bcrypt_text ?p (last (fst (snd ?h))) (Some (fst ?h)) None" by simp
  obtain l where l: "links_Get ''YWJjZGVmZ2hpamts'' (sv_links (fst ?h)) = Some l" "HasPassword l" "sp_Type (lk_Scope l) = ''user''"
  proof -
    have "case links_Get ''YWJjZGVmZ2hpamts'' (sv_links (fst ?h)) of None \<Rightarrow> False | Some l \<Rightarrow> HasPassword l \<and> sp_Type (lk_Scope l) = ''user''"
      by code_simp
    then show ?thesis using that by (auto split: option.splits)
  qed
  have "\<forall>h. bcrypt_text h \<longrightarrow> valid_utf8 h" using valid_utf8_ascii by (simp add: bcrypt_text_def)
  from stored_links_typed [OF this run _ l(1)] show ?thesis
    using l by (auto simp: ScopeAdmin_def)
qed

end
