(* ===== verification/Link_Forms.thy ===== *)
theory Link_Forms
  imports Link_Types Admin_Pages
begin

text \<open>
  What the two ways of creating a link make of their input: the draws of an identifier in the API, and
  the expiry that the form of the admin service sends as a local time with an offset.
\<close>

section \<open>Drawing an identifier\<close>

text \<open>The draws before the \<open>n\<close>-th name links that exist, and the \<open>n\<close>-th names a new one.\<close>

definition first_free :: "World \<Rightarrow> LinkStore \<Rightarrow> nat \<Rightarrow> string \<Rightarrow> bool" where
  "first_free w ls n i \<longleftrightarrow> NewID (w_rand w n) = Some i \<and> links_Get i ls = None
     \<and> (\<forall>j<n. \<exists>k. NewID (w_rand w j) = Some k \<and> links_Get k ls \<noteq> None)"

lemma save_not_exists: "snd (snd (saveLocked io now fs s)) \<noteq> Some Links_ErrExists"
  by (auto simp: saveLocked_def Let_def split: option.splits prod.splits)

lemma create_exists:
  "links_Create io now fs l ls = (ls', tr, e) \<Longrightarrow>
     (e = Some Links_ErrExists \<longleftrightarrow> links_Get (lk_ID l) ls \<noteq> None) \<and> (e = Some Links_ErrExists \<longrightarrow> ls' = ls \<and> tr = [fs])"
  using save_not_exists [of io now fs "ls\<lparr>ls_links := AList.update (lk_ID l) l (ls_links ls)\<rparr>"]
  by (auto simp: links_Create_def links_Get_def split: if_splits)

lemma createLoop_draws:
  assumes "\<And>i. lk_ID (cand i) = i" "\<forall>j<b. \<exists>k. NewID (w_rand w j) = Some k \<and> links_Get k ls \<noteq> None"
  shows "(\<exists>n i. b \<le> n \<and> n < b + c \<and> first_free w ls n i
       \<and> createLoop c b w cand ls = (case links_Create (w_io w) (w_now w) (w_files w) (cand i) ls of
           (ls', tr, e) \<Rightarrow> (ls', tr, if e = None then Some (cand i) else None)))
    \<or> ((\<forall>n i. n < b + c \<longrightarrow> \<not> first_free w ls n i) \<and> createLoop c b w cand ls = (ls, [w_files w], None))"
  using assms(2)
proof (induction c arbitrary: b)
  case 0
  have "\<not> first_free w ls n i" if "n < b" for n i using 0 that by (fastforce simp: first_free_def)
  then show ?case by simp
next
  case (Suc c)
  have before: "\<not> first_free w ls n i" if "n < b" for n i using Suc.prems that by (fastforce simp: first_free_def)
  show ?case
  proof (cases "NewID (w_rand w b)")
    case None
    have "\<not> first_free w ls n i" for n i
    proof
      assume f: "first_free w ls n i"
      then have "n \<noteq> b" using None by (auto simp: first_free_def)
      then have "b < n" using f before [of n i] by (cases "n < b") auto
      then show False using f None by (auto simp: first_free_def)
    qed
    then show ?thesis using None by simp
  next
    case (Some i)
    obtain ls' tr e where c: "links_Create (w_io w) (w_now w) (w_files w) (cand i) ls = (ls', tr, e)" by (metis prod_cases3)
    note ex = create_exists [OF c]
    show ?thesis
    proof (cases "links_Get i ls")
      case None
      then have "first_free w ls b i" using Some Suc.prems by (simp add: first_free_def)
      moreover have "e \<noteq> Some Links_ErrExists" using ex None assms(1) by simp
      ultimately show ?thesis using Some c by (intro disjI1 exI [of _ b] exI [of _ i]) (auto split: option.splits)
    next
      case (Some l)
      then have e: "e = Some Links_ErrExists" "ls' = ls" using ex assms(1) by auto
      have "\<forall>j<Suc b. \<exists>k. NewID (w_rand w j) = Some k \<and> links_Get k ls \<noteq> None"
        using Suc.prems \<open>NewID _ = Some i\<close> Some by (auto simp: less_Suc_eq)
      moreover have "createLoop (Suc c) b w cand ls = createLoop c (Suc b) w cand ls"
        using \<open>NewID _ = Some i\<close> c e by simp
      ultimately show ?thesis using Suc.IH [of "Suc b"] by (auto intro: Suc_leD)
    qed
  qed
qed

text \<open>
  C38: The loop that draws the identifier of a link always ends, after at most three draws. If one of the first
  three is free, and those before it are taken, the answer is 201 exactly when the link under that identifier could be
  written; if none is, because all are taken or the random source fails, the answer is 500 and nothing is
  written.
\<close>

theorem create_draws_end:
  assumes "create_input w r (reloadLinks w s) = Inr (req, hash)" "handleLinksCreate w r s = (s', tr, resp)"
  shows "let ls = sv_links (reloadLinks w s); create = (\<lambda>i. links_Create (w_io w) (w_now w) (w_files w) (create_candidate w req hash i) ls) in
    if \<exists>n<3. \<exists>i. first_free w ls n i
    then \<exists>n<3. \<exists>i e. first_free w ls n i \<and> create i = (sv_links s', tr, e) \<and> rs_status resp = (if e = None then 201 else 500)
    else sv_links s' = ls \<and> tr = [w_files w] \<and> rs_status resp = 500"
proof -
  let ?ls = "sv_links (reloadLinks w s)" and ?cand = "create_candidate w req hash"
  have cand: "lk_ID (?cand i) = i" for i by (simp add: create_candidate_def)
  obtain ls' tr1 res where c: "createLoop 3 0 w ?cand ?ls = (ls', tr1, res)" by (metis prod_cases3)
  then have h: "sv_links s' = ls'" "tr = tr1" "rs_status resp = (if res = None then 500 else 201)"
    using assms by (auto simp: handleLinksCreate_def Let_def http_Error_def respond_def split: option.splits)
  from createLoop_draws [of ?cand 0 w ?ls 3, OF cand] consider
      n i where "n < 3" "first_free w ?ls n i"
        "createLoop 3 0 w ?cand ?ls = (case links_Create (w_io w) (w_now w) (w_files w) (?cand i) ?ls of
           (ls', tr, e) \<Rightarrow> (ls', tr, if e = None then Some (?cand i) else None))"
    | "\<forall>n i. n < 3 \<longrightarrow> \<not> first_free w ?ls n i" "createLoop 3 0 w ?cand ?ls = (?ls, [w_files w], None)"
    by auto
  then show ?thesis
  proof cases
    case (1 n i)
    obtain ls2 tr2 e where l: "links_Create (w_io w) (w_now w) (w_files w) (?cand i) ?ls = (ls2, tr2, e)" by (metis prod_cases3)
    have "ls' = ls2" "tr1 = tr2" "res = (if e = None then Some (?cand i) else None)" using 1(3) c l by auto
    then show ?thesis using 1(1,2) h l by (auto simp: Let_def)
  next
    case 2
    then show ?thesis using c h by (auto simp: Let_def)
  qed
qed

section \<open>The expiry of the form\<close>

text \<open>What a browser sends for a field of the type \<open>datetime-local\<close> when the local clock shows \<open>u\<close>.\<close>

definition local_field :: "time \<Rightarrow> string" where
  "local_field u = format_date u @ ''T'' @ format_clock u"

lemma utc_clock_era:
  assumes "0 \<le> u div second div 86400 + int unix_epoch_day"
  shows "utc_clock u = (case civil (nat (u div second div 86400 + int unix_epoch_day)) of
    (y, m, d) \<Rightarrow> (int y, m, d, nat (u div second mod 86400)))"
proof -
  have "nat ((- (u div second div 86400 + int unix_epoch_day) + 146096) div 146097) = 0"
    using assms by linarith
  then show ?thesis by (simp add: utc_clock_def Let_def case_prod_unfold)
qed

lemma ParseLocal_local_field:
  assumes "0 \<le> u div second div 86400 + int unix_epoch_day" "fst (utc_clock u) \<le> 9999" "u mod (60 * second) = 0"
  shows "ParseLocal (local_field u) off = Some (u - off * second)"
proof -
  define secs where "secs = u div second"
  define sod where "sod = nat (secs mod 86400)"
  define day where "day = secs div 86400 + int unix_epoch_day"
  obtain y m d where c: "civil (nat day) = (y, m, d)" by (cases "civil (nat day)") auto
  note cv = civil_correct [OF c]
  have day: "0 \<le> day" using assms(1) by (simp add: day_def secs_def)
  have clock: "utc_clock u = (int y, m, d, sod)"
    using utc_clock_era [OF assms(1)] c by (simp add: day_def secs_def sod_def)
  have y: "y \<le> 9999" using assms(2) clock by simp
  have sod: "sod < 86400" "int sod = secs mod 86400" by (simp_all add: sod_def nat_less_iff)
  have field: "local_field u = four y @ ''-'' @ two m @ ''-'' @ two d @ ''T'' @ two (sod div 3600) @ '':'' @ two (sod div 60 mod 60)"
    using y by (simp add: local_field_def format_date_def format_clock_def clock format_year_def)
  let ?rest = "''T'' @ two (sod div 3600) @ '':'' @ two (sod div 60 mod 60)"
  have date: "getdate (four y @ ''-'' @ two m @ ''-'' @ two d @ ?rest) = Some ((y, m, d), ?rest)"
    using cv y unfolding getdate_def by simp
  have hm: "gethm (?rest @ []) = Some ((sod div 3600, sod div 60 mod 60), [])"
    using sod(1) getnum_two [of "sod div 60 mod 60" "[]"] unfolding gethm_def by simp
  have min: "secs mod 60 = 0" "u = secs * second"
  proof -
    obtain k where "u = k * 60 * second" using assms(3) by (auto simp: mod_eq_0_iff_dvd dvd_def mult.commute mult.left_commute)
    then have "secs = k * 60" by (simp add: secs_def second_def)
    then show "secs mod 60 = 0" "u = secs * second" using \<open>u = _\<close> by simp_all
  qed
  have sod60: "sod mod 60 = 0"
  proof -
    have "int sod mod 60 = 0" using sod(2) min(1) by (simp add: mod_mod_cancel)
    then show ?thesis by (metis int_ops(1) of_nat_eq_iff of_nat_mod of_nat_numeral)
  qed
  have "sod div 3600 * 3600 + sod div 60 mod 60 * 60 = sod"
  proof -
    have "sod div 3600 = sod div 60 div 60" by (simp add: div_mult2_eq [symmetric])
    moreover have "sod div 60 div 60 * 60 + sod div 60 mod 60 = sod div 60" "sod div 60 * 60 + sod mod 60 = sod" by simp_all
    ultimately show ?thesis using sod60 by linarith
  qed
  moreover have "int (day_number y m d) = day" using cv(1) day by simp
  moreover have "(day - int unix_epoch_day) * 86400 + int sod = secs" using sod(2) by (simp add: day_def)
  ultimately have "instant (y, m, d) (sod div 3600 * 3600 + sod div 60 mod 60 * 60) 0 off = Some ((secs - off) * second)"
    using cv by (simp add: instant_def)
  then show ?thesis
    using hm unfolding ParseLocal_def field date by (simp add: min(2) left_diff_distrib)
qed

text \<open>
  C39: The expiry that an operator picks is the one that is stored. When the browser is \<open>m\<close> minutes west of UTC
  and the operator picks the whole minute that is the instant \<open>t\<close>, the local time that the form sends, with
  the offset beside it, is read back as exactly \<open>t\<close>; an offset of more than fourteen hours is refused.
\<close>

theorem picked_expiry_stored:
  assumes "u = t - m * 60 * second" "t mod (60 * second) = 0" "\<bar>m\<bar> < 2 ^ 63"
    and "0 \<le> u div second div 86400 + int unix_epoch_day" "fst (utc_clock u) \<le> 9999"
  shows "parseAdminExpiry (local_field u) (FormatInt m)
    = (if \<bar>m\<bar> \<le> 14 * 60 then Inr (Some t) else Inl (MText ''invalid browser timezone offset''))"
proof -
  have "u mod (60 * second) = (t - m * (60 * second)) mod (60 * second)" using assms(1) by (simp add: mult.assoc)
  also have "\<dots> = 0" using assms(2) by (metis mod_diff_right_eq mod_mult_self2_is_0 diff_zero mult.commute)
  finally have u: "u mod (60 * second) = 0" .
  have "ParseLocal (local_field u) (- m * 60) = Some t"
    using ParseLocal_local_field [OF assms(4,5) u, of "- m * 60"] assms(1) by simp
  moreover have "Atoi (FormatInt m) = Some m" using assms(3) by (intro ParseInt64_FormatInt) auto
  moreover have "local_field u \<noteq> []" "FormatInt m \<noteq> []" 
    using FormatNat_head [of "nat m"] by (auto simp: local_field_def FormatInt_def)
  ultimately show ?thesis by (auto simp: parseAdminExpiry_def bind_res_def)
qed

theorem picked_expiry_stored_witness:
  "parseAdminExpiry ''2025-03-01T08:30'' ''-480'' = Inr (Some (1740789000 * second))"
proof -
  let ?u = "1740817800 * second" and ?t = "1740789000 * second"
  have "local_field ?u = ''2025-03-01T08:30''" "FormatInt (-480) = ''-480''" "fst (utc_clock ?u) \<le> 9999"
    "0 \<le> ?u div second div 86400 + int unix_epoch_day" "?t mod (60 * second) = 0" by code_simp+
  then show ?thesis using picked_expiry_stored [of ?u ?t "- 480"] by (simp add: second_def)
qed

section \<open>Instances\<close>

theorem create_draws_end_witness:
  "rs_status (snd (snd (handleLinksCreate (fresh_world\<lparr>w_rand := \<lambda>_. None\<rparr>) demo_create demo_server))) = 500
     \<and> fst (snd (handleLinksCreate (fresh_world\<lparr>w_rand := \<lambda>_. None\<rparr>) demo_create demo_server)) = [Map.empty]"
proof -
  let ?w = "fresh_world\<lparr>w_rand := \<lambda>_. None\<rparr>"
  let ?h = "handleLinksCreate ?w demo_create demo_server"
  have h: "?h = (fst ?h, fst (snd ?h), snd (snd ?h))" by simp
  have "case create_input ?w demo_create (reloadLinks ?w demo_server) of Inl _ \<Rightarrow> False | Inr _ \<Rightarrow> True" by code_simp
  then obtain req hash where c: "create_input ?w demo_create (reloadLinks ?w demo_server) = Inr (req, hash)"
    by (auto split: sum.splits)
  have "\<not> first_free ?w ls n i" for ls n i by (simp add: first_free_def NewID_def)
  then show ?thesis using create_draws_end [OF c h] by (simp add: fresh_world_def Let_def)
qed

end
