(* ===== verification/Link_Api.thy ===== *)
theory Link_Api
  imports Server_Links
begin

text \<open>
  The JSON of the link API: what \<open>writeJSON\<close> sends for each body of \<open>internal/server/links.go\<close>, and what a
  client that decodes it into the same struct gets. A body that cannot be encoded is sent empty, as the
  status has been written before.
\<close>

section \<open>Encoding\<close>

definition enc_link_json :: "linkJSON \<Rightarrow> json option" where
  "enc_link_json j =
     (case (MarshalTime (lj_CreatedAt j), map_option MarshalTime (lj_ExpiresAt j)) of
        (None, _) \<Rightarrow> None
      | (_, Some None) \<Rightarrow> None
      | (Some c, ex) \<Rightarrow> Some (JObj
          ([(''id'', enc_string (lj_ID j)), (''scope'', enc_scope (lj_Scope j)), (''has_password'', JBool (lj_HasPassword j)),
            (''created_at'', JStr c)]
           @ (case ex of Some (Some e) \<Rightarrow> [(''expires_at'', JStr e)] | _ \<Rightarrow> [])
           @ omit_empty ''created_by'' (lj_CreatedBy j)
           @ omit_empty ''description'' (lj_Description j)
           @ omit_empty ''url'' (lj_URL j))))"

definition enc_link_file :: "linkFileJSON \<Rightarrow> json" where
  "enc_link_file f = JObj [(''logical_path'', enc_string (lf_LogicalPath f)), (''logical_dir'', enc_string (lf_LogicalDir f)),
     (''dir_hash'', enc_string (lf_DirHash f)), (''file_hash'', enc_string (lf_FileHash f)),
     (''size'', JNum (FormatInt (lf_Size f))), (''url'', enc_string (lf_URL f))]"

definition enc_link_files :: "string \<Rightarrow> Scope \<Rightarrow> linkFileJSON list \<Rightarrow> json" where
  "enc_link_files i sc files =
     JObj [(''link_id'', enc_string i), (''scope'', enc_scope sc), (''files'', JArr (map enc_link_file files))]"

definition enc_all :: "linkJSON list \<Rightarrow> json option" where
  "enc_all js = (if list_all (\<lambda>j. enc_link_json j \<noteq> None) js then Some (JArr (map (\<lambda>j. the (enc_link_json j)) js)) else None)"

text \<open>\<open>writeJSON\<close>: the document in the body of a response, if it is JSON and could be encoded.\<close>

fun written_json :: "body \<Rightarrow> json option" where
  "written_json (LinkBody j) = enc_link_json j"
| "written_json (LinksBody js) = enc_all js"
| "written_json (LinkFiles i sc files) = Some (enc_link_files i sc files)"
| "written_json _ = None"

section \<open>A client\<close>

definition client_fields :: "linkJSON field list" where
  "client_fields =
     [(''id'', dec_string lj_ID_update), (''scope'', dec_scope lj_Scope_update lj_Scope),
      (''has_password'', dec_bool lj_HasPassword_update), (''created_at'', dec_time lj_CreatedAt_update),
      (''expires_at'', dec_time_ptr lj_ExpiresAt_update), (''created_by'', dec_string lj_CreatedBy_update),
      (''description'', dec_string lj_Description_update), (''url'', dec_string lj_URL_update)]"

definition client_link :: "body \<Rightarrow> linkJSON option" where
  "client_link b = Option.bind (written_json b) (\<lambda>j. decode_struct client_fields j
     \<lparr>lj_ID = [], lj_Scope = \<lparr>sp_Type = [], sp_User = []\<rparr>, lj_HasPassword = False, lj_CreatedAt = zero_time,
      lj_ExpiresAt = None, lj_CreatedBy = [], lj_Description = [], lj_URL = []\<rparr>)"

lemma find_client_field:
  "find_field client_fields ''id'' = Some (dec_string lj_ID_update)"
  "find_field client_fields ''scope'' = Some (dec_scope lj_Scope_update lj_Scope)"
  "find_field client_fields ''has_password'' = Some (dec_bool lj_HasPassword_update)"
  "find_field client_fields ''created_at'' = Some (dec_time lj_CreatedAt_update)"
  "find_field client_fields ''expires_at'' = Some (dec_time_ptr lj_ExpiresAt_update)"
  "find_field client_fields ''created_by'' = Some (dec_string lj_CreatedBy_update)"
  "find_field client_fields ''description'' = Some (dec_string lj_Description_update)"
  "find_field client_fields ''url'' = Some (dec_string lj_URL_update)"
  by (simp_all add: find_field_def client_fields_def)

definition json_text :: "linkJSON \<Rightarrow> bool" where
  "json_text j \<longleftrightarrow> valid_utf8 (lj_ID j) \<and> valid_utf8 (sp_Type (lj_Scope j)) \<and> valid_utf8 (sp_User (lj_Scope j))
     \<and> valid_utf8 (lj_CreatedBy j) \<and> valid_utf8 (lj_Description j) \<and> valid_utf8 (lj_URL j)"

lemma client_reads:
  assumes "enc_link_json j \<noteq> None" "json_text j"
  shows "client_link (LinkBody j) = Some j"
proof -
  from assms obtain c where c: "MarshalTime (lj_CreatedAt j) = Some c"
    by (auto simp: enc_link_json_def split: option.splits)
  note tc = UnmarshalTime_MarshalTime [OF c]
  have ex: "lj_ExpiresAt j = None \<or> (\<exists>t e. lj_ExpiresAt j = Some t \<and> MarshalTime t = Some e \<and> UnmarshalTime e = Some t)"
    using assms c UnmarshalTime_MarshalTime by (auto simp: enc_link_json_def split: option.splits)
  show ?thesis
    using assms ex c tc dec_enc_scope [of "lj_Scope j"]
    unfolding client_link_def
    by (auto simp: enc_link_json_def decode_struct_def find_client_field omit_empty_def json_text_def
        json_dec_defs enc_string_def dec_scope_def decode_members_append)
qed

text \<open>A link that could be stored can be sent.\<close>

lemma stored_sent: "enc_link l \<noteq> None \<Longrightarrow> enc_link_json ((linkDetail l)\<lparr>lj_URL := url\<rparr>) \<noteq> None"
  by (auto simp: enc_link_def enc_link_json_def linkDetail_def linkSummary_def split: option.splits)

lemma detail_text: "link_text l \<Longrightarrow> valid_utf8 url \<Longrightarrow> json_text ((linkDetail l)\<lparr>lj_URL := url\<rparr>)"
  by (simp add: link_text_def json_text_def linkDetail_def linkSummary_def)

section \<open>Creating and getting\<close>

lemma linkURL_text:
  assumes "ascii (PublicURL (effectiveConfig w s))" "set i \<subseteq> set url_alphabet"
  shows "valid_utf8 (linkURL w s i)"
proof -
  obtain k where "PublicURL (effectiveConfig w s) = TrimRightByte (PublicURL (effectiveConfig w s)) CHR ''/'' @ replicate k CHR ''/''"
    using TrimRightByte_split by blast
  then have "ascii (TrimRightByte (PublicURL (effectiveConfig w s)) CHR ''/'')" using assms(1) by (metis list_all_append)
  moreover have "ascii url_alphabet" by code_simp
  then have "ascii i" using assms(2) by (auto simp: list_all_iff)
  ultimately show ?thesis by (intro valid_utf8_ascii) (simp add: linkURL_def)
qed

text \<open>
  C40: The API keeps its word over its own JSON. What a client reads from the answer to a creation is the link it
  asked for; and when it asks for that identifier later, at the same service or at another one that reads the file, the
  answer is 200 and reads as the same link, without the URL.
\<close>

theorem created_link_over_api:
  assumes "served W s" "handleLinksCreate w r s = (s1, tr, resp)" "rs_status resp = 201"
    and "links_text (ls_links (sv_links s1))" "ascii (PublicURL (effectiveConfig w s))" "io_tmp (w_io w) \<noteq> ls_path (sv_links s)"
    and "w_files w2 = last tr" "ls_path (sv_links s2) = ls_path (sv_links s)" "io_read (w_io w2) (ls_path (sv_links s)) = None"
    and "requireBearer w2 r2 (reloadLinks w2 s2) = None"
  shows "\<exists>req j s3 resp2. dec_create (rq_body r) = Some req \<and> client_link (rs_body resp) = Some j
    \<and> lj_Scope j = cr_Scope req \<and> lj_ExpiresAt j = cr_ExpiresAt req \<and> lj_Description j = cr_Description req
    \<and> handleLinkGet w2 r2 (lj_ID j) s2 = (s3, [w_files w2], resp2) \<and> rs_status resp2 = 200
    \<and> client_link (rs_body resp2) = Some (j\<lparr>lj_URL := []\<rparr>)"
proof -
  let ?s = "reloadLinks w s"
  obtain req hash l where h: "create_input w r ?s = Inr (req, hash)"
      "createLoop 3 0 w (create_candidate w req hash) (sv_links ?s) = (sv_links s1, tr, Some l)"
      "rs_body resp = LinkBody ((linkDetail l)\<lparr>lj_URL := linkURL w ?s (lk_ID l)\<rparr>)"
    by (rule handleLinksCreate_created [OF assms(2,3)])
  note inp = create_input_ok [OF h(1)]
  obtain ident n where c: "l = create_candidate w req hash ident"
      "links_Create (w_io w) (w_now w) (w_files w) l (sv_links ?s) = (sv_links s1, tr, None)" "NewID (w_rand w n) = Some ident"
    by (rule createLoop_created [OF h(2)])
  have l: "lk_ID l = ident" "lk_ExpiresAt l = cr_ExpiresAt req" "lk_Scope l = cr_Scope req" "lk_Description l = cr_Description req"
    using c(1) by (simp_all add: create_candidate_def)
  have live: "\<not> Expired l (w_now w)" using inp(4) l(2) by (auto simp: Expired_def split: option.splits)
  have wf: "wf_links (sv_links ?s)"
    using server_inv_reload [OF served_inv [OF assms(1)], of w] by (simp add: server_inv_def)
  have path: "ls_path (sv_links ?s) = ls_path (sv_links s)" by (simp add: reloadLinks_def links_Load_def split: sum.split option.split)
  have "links_request (w_io w) (w_now w) (w_files w) (ReqCreate l) (sv_links ?s) = (sv_links s1, tr, None)" using c(2) by simp
  note loaded = links_request_loaded(1,2) [OF wf this assms(4), of "w_io w2" "sv_links s2", unfolded path, OF assms(6,9,8), unfolded assms(7) [symmetric]]
  have mem: "links_Get ident (sv_links s1) = Some l"
    using table.lookup_create [OF wf, of ident "w_io w" "w_now w" "w_files w" l] c(2) l(1) live
    by (auto simp: alive_def links_Create_def links_Get_def split: if_splits option.splits)
  then have got: "links_Get ident (sv_links (reloadLinks w2 s2)) = Some l"
    using loaded by (simp add: reloadLinks_def)
  have in_file: "(ident, l) \<in> set (ls_links (sv_links s1))" using mem by (simp add: links_Get_def map_of_SomeD)
  obtain ls where "saveLocked (w_io w) (w_now w) (w_files w) ls = (sv_links s1, tr, None)"
    using c(2) by (auto simp: links_Create_def split: if_splits)
  then obtain raw where "links_encode (ls_links (sv_links s1)) = Some raw" by (rule saveLocked_success)
  then have enc: "enc_link l \<noteq> None" using in_file by (auto simp: links_encode_def list_all_iff split: if_splits)
  have "link_text l" using assms(4) in_file by (auto simp: links_text_def list_all_iff)
  have "set ident \<subseteq> set url_alphabet" using c(3) url64.enc_alphabet by (auto simp: NewID_def)
  then have url: "valid_utf8 (linkURL w ?s ident)" using linkURL_text [of w ?s] assms(5) by simp
  let ?j = "(linkDetail l)\<lparr>lj_URL := linkURL w ?s ident\<rparr>"
  have plain: "?j\<lparr>lj_URL := []\<rparr> = linkDetail l" "(linkDetail l)\<lparr>lj_URL := []\<rparr> = linkDetail l" by (simp_all add: linkDetail_def linkSummary_def)
  have "client_link (rs_body resp) = Some ?j"
    using client_reads [OF stored_sent [OF enc] detail_text [OF \<open>link_text l\<close> url]] h(3) l(1) by simp
  moreover have "client_link (LinkBody (linkDetail l)) = Some (?j\<lparr>lj_URL := []\<rparr>)"
    using client_reads [OF stored_sent [OF enc] detail_text [OF \<open>link_text l\<close>], of "[]"] plain valid_utf8_ascii [of "[]"] by simp
  moreover have "handleLinkGet w2 r2 ident s2 = (reloadLinks w2 s2, [w_files w2], respond 200 (LinkBody (linkDetail l)))"
    using got assms(10) by (simp add: handleLinkGet_def Let_def)
  moreover have "lj_ID ?j = ident" "lj_Scope ?j = cr_Scope req" "lj_ExpiresAt ?j = cr_ExpiresAt req" "lj_Description ?j = cr_Description req"
    using l by (simp_all add: linkDetail_def linkSummary_def)
  ultimately show ?thesis
    using inp(2) by (intro exI [of _ req] exI [of _ ?j] exI [of _ "reloadLinks w2 s2"] exI [of _ "respond 200 (LinkBody (linkDetail l))"])
      (simp add: respond_def)
qed

definition demo_get :: "string \<Rightarrow> Request" where
  "demo_get i = (demo_request ''GET'' [''api'', ''links'', i])\<lparr>rq_auth := ''Bearer tok''\<rparr>"

theorem created_link_over_api_witness:
  "\<exists>j s3 resp2. client_link (rs_body (snd (snd (handleLinksCreate one_world demo_create one_server)))) = Some j
     \<and> handleLinkGet (one_world\<lparr>w_files := last (fst (snd (handleLinksCreate one_world demo_create one_server)))\<rparr>) (demo_get (lj_ID j))
         (lj_ID j) one_server = (s3, [last (fst (snd (handleLinksCreate one_world demo_create one_server)))], resp2)
     \<and> rs_status resp2 = 200 \<and> client_link (rs_body resp2) = Some (j\<lparr>lj_URL := []\<rparr>)"
proof -
  let ?h = "handleLinksCreate one_world demo_create one_server"
  let ?w = "one_world\<lparr>w_files := last (fst (snd ?h))\<rparr>"
  have h: "?h = (fst ?h, fst (snd ?h), snd (snd ?h))" by simp
  have "case ?h of (s1, tr, resp) \<Rightarrow> rs_status resp = 201 \<and> links_text (ls_links (sv_links s1))
     \<and> AdminToken (effectiveConfig (one_world\<lparr>w_files := last tr\<rparr>) one_server) = ''tok''" by code_simp
  then have st: "rs_status (snd (snd ?h)) = 201" "links_text (ls_links (sv_links (fst ?h)))"
    and tok: "AdminToken (effectiveConfig ?w one_server) = ''tok''" by (simp_all only: case_prod_unfold)
  have "ascii (PublicURL demo_cfg)" by code_simp
  then have cfg: "ascii (PublicURL (effectiveConfig one_world one_server))" "AdminToken (effectiveConfig ?w (reloadLinks ?w one_server)) = ''tok''"
    using one_simps(1) tok by simp_all
  have "checkBearer (demo_get []) ''tok''" by code_simp
  then have auth: "requireBearer ?w (demo_get []) (reloadLinks ?w one_server) = None" using cfg(2) by (simp add: requireBearer_def)
  have get: "handleLinkGet w (demo_get i) k s = handleLinkGet w (demo_get i') k s" for w i i' k s
    by (simp add: handleLinkGet_def requireBearer_def checkBearer_def demo_get_def demo_request_def)
  have io: "io_tmp (w_io one_world) \<noteq> ls_path (sv_links one_server)" "io_read (w_io ?w) (ls_path (sv_links one_server)) = None"
    by (simp_all add: one_world_def demo_world_def io_ok_def one_server_def server_New_def)
  obtain j s3 resp2 where r: "client_link (rs_body (snd (snd ?h))) = Some j"
    "handleLinkGet ?w (demo_get []) (lj_ID j) one_server = (s3, [w_files ?w], resp2)" "rs_status resp2 = 200"
    "client_link (rs_body resp2) = Some (j\<lparr>lj_URL := []\<rparr>)"
    using created_link_over_api [OF one_served h st cfg(1) io(1) _ _ io(2) auth] by auto
  have "handleLinkGet ?w (demo_get (lj_ID j)) (lj_ID j) one_server = (s3, [w_files ?w], resp2)"
    using r(2) get [of ?w "lj_ID j" "lj_ID j" one_server "[]"] by simp
  then show ?thesis using r by auto
qed

end
