(* ===== verification/Spec2Isabelle.thy ===== *)
theory Spec2Isabelle
  imports Store_Resolve Server_Props Server_Links Admin_Props Page_Forms Link_Concurrency Admin_Races Link_Types Link_Forms Link_Api
begin

text \<open>
  A verification of \<open>simple-fileurl\<close>: two Go services that share a volume of control files. The
  file-sharing service (\<open>main.go\<close>, \<open>internal/server\<close>) serves the files of a share tree under URLs made
  of two hashes, and scoped share links with passwords and expiry. The admin service (\<open>cmd/sftp-admin\<close>,
  \<open>internal/sftpadmin\<close>) manages the users of an SFTP container, their public keys and notes, the
  runtime settings and the links. The services meet only in files: the shared configuration
  (\<open>internal/config/shared.go\<close>), the link store (\<open>internal/links\<close>) and the user manifest, which the scripts
  of the SFTP container read.

  \<^bold>\<open>The Go library.\<close> \<open>Fileurl_Prelude\<close> holds the vocabulary and the collections of rules.
  \<open>Go_Strings\<close>, \<open>Go_Paths\<close>, \<open>Go_Base64\<close>, \<open>Go_Digest\<close> (MD5, SHA-256, HMAC), \<open>Go_Time\<close> and \<open>Go_Json\<close>
  define what the program uses of the standard library, as executable functions on byte strings, with
  their laws (round trips of the codecs, lengths of the digests, parsing and formatting of times).
  \<open>Share_Tree\<close> is the tree of directories, files, links and special files with \<open>Stat\<close>, \<open>Lstat\<close>,
  \<open>ReadDir\<close> and \<open>EvalSymlinks\<close>; \<open>Control_Files\<close> the control files and their atomic replacement: a write is
  the list of all states another process can observe, with a fault possible at every call, and
  two locales state what each writer promises its readers.

  \<^bold>\<open>The file-sharing service.\<close> \<open>Hash_Pkg\<close> (\<open>internal/hash\<close>), \<open>Config_Pkg\<close> and \<open>Shared_Config\<close>
  (\<open>internal/config\<close>), \<open>Store_Pkg\<close> (\<open>internal/store\<close>), \<open>Links_Pkg\<close> (\<open>internal/links\<close>) and \<open>Server_Pkg\<close>
  (\<open>internal/server\<close>, \<open>main.go\<close>) hold the data and one definition per function. \<open>Store_Scan\<close> and
  \<open>Store_Resolve\<close> show that the cached scan lists exactly the visible files, that resolution never leaves
  the share root, whatever links the tree has, and that the cache cannot be observed as long as a file changes its size or
  modification time when its content changes (\<open>disciplined\<close>, a condition of every property that speaks of a listing after
  a history). \<open>Links_Pkg\<close> shows persistence
  and the life of a link against an abstract table (locale \<open>link_table\<close>); \<open>Server_Props\<close> and \<open>Server_Links\<close>
  who may see and change what over HTTP, over all reachable states of the service.

  \<^bold>\<open>The admin service.\<close> \<open>Admin_Validate\<close> (\<open>validate.go\<close>, \<open>keygen.go\<close>): user names, SSH keys,
  fingerprints. \<open>Admin_Store\<close> (\<open>store.go\<close>): the manifest and the key notes. \<open>Admin_Session\<close>
  (\<open>session.go\<close>): sessions, and the login limit over every interleaving of the locked sections of login attempts. \<open>Admin_Settings\<close> (\<open>settings.go\<close>): the settings
  transaction. \<open>Admin_Config\<close> (\<open>config.go\<close>, \<open>seedIfAbsent\<close> of \<open>cmd/sftp-admin/main.go\<close>): start-up.
  \<open>Admin_Views\<close> (\<open>ui.go\<close>): the data of the pages. \<open>Admin_Server\<close> and \<open>Admin_Handlers\<close> (\<open>server.go\<close>): every
  handler, the routes and \<open>run\<close>. \<open>Admin_Users\<close> shows that an enabled user has a usable key in every state that requests
  served one after another lead to, through a contract for mutations of the manifest (locale \<open>safe_mutation\<close>); \<open>Admin_Props\<close> that the mutations
  refine a map of accounts, that nothing happens without a session, that a login opens one, and that a
  generated private key leaves the service once and goes to no control file (the temporary directory in which
  \<open>ssh-keygen\<close> makes the pair belongs to that parameter).

  \<^bold>\<open>Pages.\<close> \<open>Go_Html\<close> has the document trees that the templates build, the escapers that
  \<open>html/template\<close> chooses for text, attributes and the parts of a URL, and a reader that follows the tokenizer of
  the HTML standard; its main lemma is that the printed bytes are read back as the tree. \<open>Html_Views\<close>
  says what a browser finds in the tokens: scripts, addresses, and the forms with their fields. \<open>Admin_Pages\<close>
  (\<open>ui.go\<close>) and \<open>Link_Pages\<close> (\<open>internal/server/links.go\<close>) are the templates, piece by piece, over the
  data of \<open>Admin_Views\<close> and of the responses. \<open>Page_Props\<close> shows that no data can break out of a page or make it run
  code; \<open>Page_Forms\<close> closes the loop: the forms of the users page, read from the bytes, are exactly those of its buttons, and sent
  back they run the commands they stand for, and the settings page sent back as it came changes nothing.

  \<^bold>\<open>Across the services.\<close> \<open>Link_Concurrency\<close> splits the handlers that work on the links into their locked sections and
  lets them interleave, within one service and between the two; \<open>Admin_Races\<close> runs two handlers against each
  other on the manifest. \<open>Link_Types\<close> has the states of both services on one file of links, with stops in the middle of
  a write, and the type that every link in them has; \<open>Link_Forms\<close> what the two ways of creating a link make of their
  input; \<open>Link_Api\<close> the JSON of the API and what a client reads from it. This theory adds that a link made in the one service is served by the other, and that saved settings are in force in
  both.

  \<^bold>\<open>How code becomes definitions.\<close> A struct is a record, an error a constructor of a sum, an early
  return a branch. A handler takes the world (files, clock, random bytes, faults of the system calls), the
  request and the state of the server; it returns the new state, the observable states of the files and the
  response. A handler runs to its end before the next starts, as the locks of the services make the operations of their stores do, except in the
  two theories on interleavings and for the login limit, where what interleaves are the locked sections; where a handler looks at a store before it locks it for an update, the mutation is a definition of its
  own, so that the race can be stated. bcrypt and \<open>ssh-keygen\<close> are parameters. A string is a list
  of bytes; the length field of an SSH key is a 32-bit word; other Go integers are \<open>int\<close> or \<open>nat\<close>, with the range checks of the
  parsing functions written out. Digests are computed, no property rests on their being injective.

  \<^bold>\<open>Bounds.\<close> All definitions are total and executable. The number of links that \<open>EvalSymlinks\<close>
  follows is bounded by 255, as in Go, which makes the resolution of cyclic links end with an error;
  the loop that draws a link identifier ends after the number of tries the code gives it. All other loops
  are structural recursions.

  \<^bold>\<open>Not modelled.\<close> Log lines, the HTTP transport and its timeouts, and everything that is not Go: the scripts of the SFTP
  container, the installation scripts and the images. The mux is modelled on clean paths. The tree does not change
  while a request is served, and a download is answered with the whole file: what \<open>http.ServeContent\<close> makes of the \<open>Range\<close>
  and conditional headers is left out. Of the texts that the
  pages show, those of the standard library (the quoting verb, system errors, the detail of decoding errors) are a parameter,
  the record \<open>lib_texts\<close>. Times are printed in UTC, which is how they are stored; a time that someone else wrote into the
  file of links with another offset would be printed in that offset. The reader of \<open>Go_Html\<close> stops at anything outside the part of
  HTML that the pages use, and does not turn carriage returns in data into line feeds; the rendering of a
  template cannot fail.
\<close>

section \<open>From the admin service to the file-sharing service\<close>

text \<open>What the admin handler has done when it reports a new link.\<close>

definition admin_link :: "AdminWorld \<Rightarrow> AdminRequest \<Rightarrow> string \<Rightarrow> Scope \<Rightarrow> string \<Rightarrow> time option \<Rightarrow> Link" where
  "admin_link aw r i scope hash ex =
     \<lparr>lk_ID = i, lk_PasswordHash = hash, lk_Scope = scope, lk_CreatedAt = truncate_second (aw_now aw),
      lk_ExpiresAt = ex, lk_CreatedBy = ''admin'', lk_Description = TrimSpace (FormValue r ''description'')\<rparr>"

lemma requireAuth_links: "as_links (fst (requireAuth w r s)) = as_links s"
  using requireAuth_server [of w r s] by auto

lemma handleLinkCreate_reported:
  assumes "handleLinkCreate aw r s = (s', tr, resp)" "ar_status resp = 303" "ar_location resp \<noteq> ''/login''"
  obtains i scope hash ex where "link_input aw r = Inr (scope, hash, ex)" "ar_location resp = ''/links?created='' @ i"
    "links_request (aw_io aw 0) (aw_now aw) (aw_files aw) (ReqCreate (admin_link aw r i scope hash ex))
       (as_links (admin_reloadLinks aw s)) = (as_links s', tr, None)"
proof (cases rule: requireAuth_cases [of aw r "admin_reloadLinks aw s"])
  case (refused s1 resp1)
  then show ?thesis using assms
    by (auto simp: handleLinkCreate_def with_auth_def see_other_def aerror_def areply_def split: option.splits if_splits)
next
  case (granted sess)
  have inp: "snd x \<noteq> 303" if "link_input aw r = Inl x" for x
    using that by (auto simp: link_input_def Let_def bind_res_def ensure_def clear_def map_err_def split: if_splits sum.splits option.splits)
  let ?s = "admin_reloadLinks aw s"
  obtain scope hash ex where l: "link_input aw r = Inr (scope, hash, ex)"
    using assms(1,2) inp by (auto simp: handleLinkCreate_def with_auth_def granted(1) Let_def linksWithError_def renderLinksStatus_def
        areply_def aerror_def split: sum.splits if_splits)
  obtain i where i: "NewID (aw_rand aw 0) = Some i"
    using assms(1,2) l by (auto simp: handleLinkCreate_def with_auth_def granted(1) Let_def linksWithError_def renderLinksStatus_def
        areply_def aerror_def split: option.splits if_splits)
  show ?thesis
    by (rule that [OF l, of i])
      (use assms(1,2) l i in \<open>auto simp: handleLinkCreate_def with_auth_def granted(1) Let_def linksWithError_def renderLinksStatus_def
        areply_def aerror_def see_other_def admin_link_def split: option.splits if_splits prod.splits\<close>)
qed

lemma created_link:
  assumes "wf_links ls" "links_request io now fs (ReqCreate l) ls = (ls', tr, None)"
  shows "links_Get (lk_ID l) ls' = (if Expired l now then None else Some l)"
proof -
  have "ls' = fst (saveLocked io now fs (ls\<lparr>ls_links := AList.update (lk_ID l) l (ls_links ls)\<rparr>))"
    using assms(2) by (auto simp: links_Create_def split: if_splits)
  then show ?thesis
    using saveLocked_Get [OF wf_update [OF assms(1)], of "lk_ID l" io now fs "lk_ID l" l]
    by (simp add: links_Get_def alive_def update_conv)
qed

lemma reload_paths: "ls_path (as_links (admin_reloadLinks w s)) = ls_path (as_links s)"
  by (simp add: admin_reloadLinks_def links_Load_def split: sum.split option.split)

lemma handleLinkPage_absent:
  "links_Get i (sv_links (reloadLinks w srv)) = None \<Longrightarrow> snd (snd (handleLinkPage w rq i srv)) = http_Error ''not found'' 404"
  by (simp add: handleLinkPage_def)

text \<open>A missing file empties the links in memory.\<close>

lemma reloadLinks_missing:
  assumes "io_read (w_io w) (ls_path (sv_links srv)) = None" "w_files w (ls_path (sv_links srv)) = None"
  shows "links_Get i (sv_links (reloadLinks w srv)) = None"
  using assms by (simp add: reloadLinks_def links_Load_def ReadFile_def IsNotExist_def links_Get_def)

lemma handleLinkPage_present:
  assumes "links_Get i (sv_links (reloadLinks w srv)) = Some l" "lk_ID l = i"
  shows "snd (snd (handleLinkPage w rq i srv)) =
    (if Expired l (w_now w) then http_Error ''not found'' 404
     else if lk_PasswordHash l \<noteq> [] \<and> \<not> linkSessionOK w (effectiveConfig w srv) rq l then respond 401 (PasswordPage i)
     else shown w srv l (page_rows l))"
proof (cases "Expired l (w_now w)")
  case True
  then show ?thesis using assms by (simp add: handleLinkPage_def)
next
  case False
  have "lk_PasswordHash l = [] \<Longrightarrow> linkSessionOK w (effectiveConfig w srv) rq l"
    by (simp add: linkSessionOK_def HasPassword_def)
  then show ?thesis using handleLinkPage_live(1) [OF assms(1) False, of rq] False assms(2) by auto
qed

text \<open>
  C19: A link made in the admin service is served by the file-sharing service that reads the same file, from
  the moment the form is answered until the link's expiry: its page is the listing of exactly the entries in the
  scope that was chosen, under the description that was given (500 only if the listing itself fails), or the password page
  when a password was set and the request shows neither the password nor a session. A link whose expiry has already passed is reported as created all the same, but
  never stored, and its page is not found.
\<close>

theorem admin_link_served:
  assumes "handleLinkCreate aw r s = (s', tr, resp)" "ar_status resp = 303" "ar_location resp \<noteq> ''/login''"
    and "wf_links (as_links s)" "links_text (ls_links (as_links s'))"
    and "io_tmp (aw_io aw 0) \<noteq> ls_path (as_links s)" "io_read (w_io w) (ls_path (as_links s)) = None"
    and "w_files w = last tr" "ls_path (sv_links srv) = ls_path (as_links s)" "aw_now aw \<le> w_now w"
  shows "\<exists>i scope hash ex l page. link_input aw r = Inr (scope, hash, ex) \<and> ar_location resp = ''/links?created='' @ i
    \<and> l = admin_link aw r i scope hash ex \<and> page = snd (snd (handleLinkPage w rq i srv))
    \<and> (if Expired l (w_now w) then page = http_Error ''not found'' 404
       else if hash \<noteq> [] \<and> \<not> linkSessionOK w (effectiveConfig w srv) rq l then page = respond 401 (PasswordPage i)
       else page = shown w srv l (page_rows l))
    \<and> (Expired l (aw_now aw) \<longrightarrow> links_Get i (as_links s') = None)"
proof -
  obtain i scope hash ex where i: "link_input aw r = Inr (scope, hash, ex)" "ar_location resp = ''/links?created='' @ i"
    and req: "links_request (aw_io aw 0) (aw_now aw) (aw_files aw) (ReqCreate (admin_link aw r i scope hash ex))
       (as_links (admin_reloadLinks aw s)) = (as_links s', tr, None)"
    by (rule handleLinkCreate_reported [OF assms(1-3)])
  let ?l = "admin_link aw r i scope hash ex"
  have wf: "wf_links (as_links (admin_reloadLinks aw s))"
    using links_Load_wf [OF assms(4)] by (simp add: admin_reloadLinks_def)
  have l: "lk_ID ?l = i" "lk_PasswordHash ?l = hash" by (simp_all add: admin_link_def)
  have got: "links_Get i (as_links s') = (if Expired ?l (aw_now aw) then None else Some ?l)"
    using created_link [OF wf req] l(1) by simp
  have "links_Get i (sv_links (reloadLinks w srv)) = links_Get i (as_links s')"
    using links_request_loaded(1,2) [OF wf req assms(5), of "w_io w" "sv_links srv"] assms(6-9) reload_paths [of aw s]
    by (simp add: reloadLinks_def)
  moreover have "Expired ?l (aw_now aw) \<Longrightarrow> Expired ?l (w_now w)"
    using assms(10) by (auto simp: Expired_def split: option.splits)
  ultimately show ?thesis
    using i got l handleLinkPage_absent [of i w srv rq] handleLinkPage_present [of i w srv ?l rq]
    by (intro exI [of _ i] exI [of _ scope] exI [of _ hash] exI [of _ ex] exI [of _ ?l] exI [of _ "snd (snd (handleLinkPage w rq i srv))"])
      (auto simp: Let_def split: if_splits)
qed



section \<open>Instances\<close>

definition demo_linkform :: AdminRequest where
  "demo_linkform = demo_generate\<lparr>aq_path := ''/links/create'', aq_form := [''scope_type'' \<mapsto> ''admin'', csrfField \<mapsto> ''tok'']\<rparr>"

lemma demo_link_created:
  obtains s' tr where "handleLinkCreate demo_aworld demo_linkform demo_pending = (s', tr, see_other ''/links?created=YWJj'')"
    "links_text (ls_links (as_links s'))"
proof -
  let ?s = "admin_reloadLinks demo_aworld demo_pending"
  let ?l = "admin_link demo_aworld demo_linkform ''YWJj'' \<lparr>sp_Type = ''admin'', sp_User = []\<rparr> [] None"
  let ?c = "links_Create io_ok (1700000000 * second) Map.empty ?l (links_NewStore ''/links'')"
  have ls: "as_links ?s = links_NewStore ''/links''"
    by (simp add: admin_reloadLinks_def links_Load_def demo_pending_def demo_aserver_def demo_aworld_def ReadFile_def io_ok_def
        IsNotExist_def links_NewStore_def)
  have p: "presented demo_aworld demo_linkform ?s = Some \<lparr>se_csrf = ''tok'', se_expires = 1700000001 * second\<rparr>"
    by (simp add: presented_def demo_linkform_def demo_generate_def demo_arequest_def admin_reloadLinks_def demo_pending_def
        demo_aserver_def demo_aworld_def second_def)
  have m: "may_act demo_linkform \<lparr>se_csrf = ''tok'', se_expires = 1700000001 * second\<rparr>"
    by (simp add: may_act_def checkCSRF_def FormValue_def demo_linkform_def csrfField_def)
  have i: "link_input demo_aworld demo_linkform = Inr (\<lparr>sp_Type = ''admin'', sp_User = []\<rparr>, [], None)" by code_simp
  have n: "NewID (aw_rand demo_aworld 0) = Some ''YWJj''" by code_simp
  have c: "snd (snd ?c) = None" "links_text (ls_links (fst ?c))" by code_simp+
  have "handleLinkCreate demo_aworld demo_linkform demo_pending
      = (?s\<lparr>as_links := fst ?c\<rparr>, fst (snd ?c), see_other ''/links?created=YWJj'')"
    using c(1) i n unfolding handleLinkCreate_def with_auth_granted [OF p m] ls
    by (cases ?c) (simp add: admin_link_def demo_linkform_def demo_generate_def demo_arequest_def demo_aworld_def ls)
  then show ?thesis using that c(2) by simp
qed

theorem admin_link_served_witness:
  "\<exists>tr l. lk_Scope l = \<lparr>sp_Type = ''admin'', sp_User = []\<rparr>
     \<and> snd (snd (handleLinkPage (demo_world\<lparr>w_files := last tr\<rparr>) (demo_request ''GET'' [''l'', ''YWJj''])
        ''YWJj'' (demo_server\<lparr>sv_links := links_NewStore ''/links''\<rparr>)))
       = shown (demo_world\<lparr>w_files := last tr\<rparr>) (demo_server\<lparr>sv_links := links_NewStore ''/links''\<rparr>) l (page_rows l)
     \<and> tr = fst (snd (handleLinkCreate demo_aworld demo_linkform demo_pending))"
proof -
  obtain s' tr where c: "handleLinkCreate demo_aworld demo_linkform demo_pending = (s', tr, see_other ''/links?created=YWJj'')"
    "links_text (ls_links (as_links s'))" by (rule demo_link_created)
  let ?w = "demo_world\<lparr>w_files := last tr\<rparr>" and ?srv = "demo_server\<lparr>sv_links := links_NewStore ''/links''\<rparr>"
  have "''/tmp-1'' \<noteq> ls_path (links_NewStore ''/links'')" by code_simp
  then have "wf_links (as_links demo_pending)" "as_links demo_pending = links_NewStore ''/links''"
    "io_tmp (aw_io demo_aworld 0) \<noteq> ls_path (links_NewStore ''/links'')" "w_io ?w = io_ok" "w_now ?w = aw_now demo_aworld"
    "io_read io_ok = (\<lambda>_. None)"
    by (simp_all add: demo_pending_def demo_aserver_def demo_world_def demo_aworld_def io_ok_def wf_links_def links_NewStore_def)
  then obtain i scope hash ex l page where r: "link_input demo_aworld demo_linkform = Inr (scope, hash, ex)"
    "''/links?created=YWJj'' = ''/links?created='' @ i" "l = admin_link demo_aworld demo_linkform i scope hash ex"
    "page = snd (snd (handleLinkPage ?w (demo_request ''GET'' [''l'', ''YWJj'']) i ?srv))"
    "if Expired l (w_now ?w) then page = http_Error ''not found'' 404
       else if hash \<noteq> [] \<and> \<not> linkSessionOK ?w (effectiveConfig ?w ?srv) (demo_request ''GET'' [''l'', ''YWJj'']) l then page = respond 401 (PasswordPage i)
       else page = shown ?w ?srv l (page_rows l)"
    using admin_link_served [OF c(1), of ?w ?srv "demo_request ''GET'' [''l'', ''YWJj'']"] c(2) by (auto simp: see_other_def areply_def)
  have "link_input demo_aworld demo_linkform = Inr (\<lparr>sp_Type = ''admin'', sp_User = []\<rparr>, [], None)" by code_simp
  then have "page = shown ?w ?srv l (page_rows l)" "lk_Scope l = \<lparr>sp_Type = ''admin'', sp_User = []\<rparr>"
    using r(1,3,5) by (auto simp: admin_link_def Expired_def)
  then show ?thesis using c(1) r(2,4) by auto
qed







end
